(* ===== verification/Prelude.thy ===== *)
theory Prelude
  imports Main "HOL-Library.Word"
begin

text \<open>
  Names and generic facts the other theories share: the machine types of the C and C++
  sources, the C-locale character classes of \<open>cctype\<close> the driver calls, the two
  trimming helpers of \<^verbatim>\<open>src/src/nyxstone.cpp\<close>, little-endian byte lists, and
  the collections of rules that the component proofs add to the simplifier.
  A \<open>std::string\<close> is a list of bytes, so HOL's \<open>string\<close> (a list of 8-bit
  characters) models it exactly, embedded NUL characters included.
\<close>

unbundle bit_operations_syntax

type_synonym byte = "8 word"
type_synonym u16 = "16 word"
type_synonym u32 = "32 word"
type_synonym u64 = "64 word"

text \<open>\<open>scan_simps\<close> unfolds the scanners one character at a time; \<open>le_simps\<close> is about
  little-endian fields; \<open>frame_simps\<close> says which part of a state an operation leaves
  alone.\<close>

named_theorems scan_simps
named_theorems le_simps
named_theorems frame_simps

subsection \<open>Characters\<close>

abbreviation (input) NUL :: char where "NUL \<equiv> CHR 0x00"
abbreviation (input) QUOTE :: char where "QUOTE \<equiv> CHR 0x22"
abbreviation (input) BACKSLASH :: char where "BACKSLASH \<equiv> CHR 0x5C"
abbreviation (input) NEWLINE :: char where "NEWLINE \<equiv> CHR 0x0A"

text \<open>\<open>std::isspace\<close>, \<open>std::isdigit\<close> and \<open>std::isalnum\<close> in the C locale.\<close>

definition isspace :: "char \<Rightarrow> bool" where
  "isspace c \<longleftrightarrow> c \<in> set [CHR '' '', CHR 0x09, CHR 0x0A, CHR 0x0B, CHR 0x0C, CHR 0x0D]"

definition isdigit :: "char \<Rightarrow> bool" where
  "isdigit c \<longleftrightarrow> (48::nat) \<le> of_char c \<and> of_char c \<le> (57::nat)"

definition isupper :: "char \<Rightarrow> bool" where
  "isupper c \<longleftrightarrow> (65::nat) \<le> of_char c \<and> of_char c \<le> (90::nat)"

definition islower :: "char \<Rightarrow> bool" where
  "islower c \<longleftrightarrow> (97::nat) \<le> of_char c \<and> of_char c \<le> (122::nat)"

definition isalnum :: "char \<Rightarrow> bool" where
  "isalnum c \<longleftrightarrow> isdigit c \<or> isupper c \<or> islower c"

lemmas char_class_defs = isspace_def isdigit_def isupper_def islower_def isalnum_def

text \<open>What a C function sees of a \<open>std::string\<close> handed over with \<open>c_str()\<close>.\<close>

definition c_str :: "string \<Rightarrow> string" where
  "c_str s = takeWhile (\<lambda>c. c \<noteq> NUL) s"

lemma c_str_id [simp]: "NUL \<notin> set s \<Longrightarrow> c_str s = s"
  by (auto simp: c_str_def takeWhile_eq_all_conv)

lemma NUL_notin_c_str [simp]: "NUL \<notin> set (c_str s)"
  by (auto simp: c_str_def dest: set_takeWhileD)

subsection \<open>Trimming (\<open>ltrim\<close>, \<open>rtrim\<close>)\<close>

fun ltrim :: "string \<Rightarrow> string" where
  "ltrim [] = []"
| "ltrim (c # s) = (if isspace c then ltrim s else c # s)"

definition rtrim :: "string \<Rightarrow> string" where
  "rtrim s = rev (ltrim (rev s))"

lemma ltrim_eq_dropWhile: "ltrim s = dropWhile isspace s"
  by (induction s) auto

lemma length_ltrim [simp]: "length (ltrim s) \<le> length s"
  by (simp add: ltrim_eq_dropWhile length_dropWhile_le)

lemma ltrim_eq_Cons: "ltrim s = c # t \<Longrightarrow> length t < length s"
  using length_ltrim [of s] by simp

lemma length_rtrim [simp]: "length (rtrim s) \<le> length s"
  using length_ltrim [of "rev s"] by (simp add: rtrim_def)

lemma ltrim_ltrim [simp]: "ltrim (ltrim s) = ltrim s"
  by (induction s) auto

lemma ltrim_hd: "ltrim s \<noteq> [] \<Longrightarrow> \<not> isspace (hd (ltrim s))"
  by (simp add: ltrim_eq_dropWhile hd_dropWhile)

lemma rtrim_rtrim [simp]: "rtrim (rtrim s) = rtrim s"
  by (simp add: rtrim_def)

lemma set_ltrim: "set (ltrim s) \<subseteq> set s"
  by (induction s) auto

lemma set_rtrim: "set (rtrim s) \<subseteq> set s"
  using set_ltrim [of "rev s"] by (simp add: rtrim_def)

lemma rtrim_prefix: "\<exists>w. s = rtrim s @ w \<and> (\<forall>c \<in> set w. isspace c)"
proof (intro exI conjI)
  let ?w = "rev (takeWhile isspace (rev s))"
  have "s = rev (takeWhile isspace (rev s) @ dropWhile isspace (rev s))"
    by (simp only: takeWhile_dropWhile_id rev_rev_ident)
  then show "s = rtrim s @ ?w" by (simp only: rtrim_def ltrim_eq_dropWhile rev_append)
  show "\<forall>c \<in> set ?w. isspace c" by (auto dest: set_takeWhileD)
qed

subsection \<open>Little-endian byte lists\<close>

text \<open>\<open>le_bytes n v\<close> are the \<open>n\<close> low bytes of \<open>v\<close>, least significant first, and
  \<open>le_value\<close> reads such a list back.\<close>

fun le_bytes :: "nat \<Rightarrow> 'a::len word \<Rightarrow> byte list" where
  "le_bytes 0 v = []"
| "le_bytes (Suc n) v = ucast v # le_bytes n (drop_bit 8 v)"

fun le_value :: "byte list \<Rightarrow> nat" where
  "le_value [] = 0"
| "le_value (b # bs) = unat b + 256 * le_value bs"

lemma length_le_bytes [simp, le_simps]: "length (le_bytes n v) = n"
  by (induction n arbitrary: v) auto

lemma le_value_bound: "le_value bs < 256 ^ length bs"
proof (induction bs)
  case (Cons b bs)
  have "unat b < 256" using unsigned_less [of b, where ?'a = nat] by simp
  with Cons show ?case by simp
qed simp

lemma le_value_le_bytes [le_simps]:
  "le_value (le_bytes n v) = unat v mod 256 ^ n"
proof (induction n arbitrary: v)
  case (Suc n)
  have low: "unat (ucast v :: byte) = unat v mod 256"
    by (simp add: unsigned_ucast_eq take_bit_eq_mod)
  have high: "unat (drop_bit 8 v) = unat v div 256"
    using unat_drop_bit_eq [of 8 v] by (simp add: drop_bit_eq_div [of 8 "unat v"])
  have "unat v mod 256 ^ Suc n = unat v mod 256 + 256 * (unat v div 256 mod 256 ^ n)"
    by (simp add: mod_mult2_eq)
  with Suc low high show ?case by simp
qed simp

lemma le_bytes_inject:
  assumes "length xs = length ys" and "le_value xs = le_value ys"
  shows "xs = ys"
  using assms
proof (induction xs ys rule: list_induct2)
  case (Cons x xs y ys)
  have b: "unat x < 256" "unat y < 256"
    using unsigned_less [of x, where ?'a = nat] unsigned_less [of y, where ?'a = nat] by simp_all
  from Cons.prems have eq: "unat x + 256 * le_value xs = unat y + 256 * le_value ys" by simp
  then have "(unat x + 256 * le_value xs) mod 256 = (unat y + 256 * le_value ys) mod 256" by simp
  with b have "unat x = unat y" by simp
  with eq have "le_value xs = le_value ys" by simp
  with Cons.IH \<open>unat x = unat y\<close> show ?case by (simp add: word_unat_eq_iff)
qed simp

end
