(* ===== verification/Glue_Interface.thy ===== *)
theory Glue_Interface
  imports Prelude
begin

text \<open>
  The flat C interface between the C++ driver and the gas glue, as \<^verbatim>\<open>src/src/nyxstone.cpp\<close>
  declares it (\<open>extern "C"\<close>), and the state of the driver. \<open>'g\<close> is whatever the functions behind
  the interface work on: the gas state of theory \<open>Gas_Glue\<close> for the program, a list of
  recorded calls for the trace semantics at the end of this theory. The locale \<open>glue_simulation\<close>
  states when one implementation of the interface is an image of another, as far as the calls made
  while a source text is parsed are concerned.
\<close>

type_synonym i32 = "32 word"
type_synonym i64 = "64 word"

text \<open>\<open>nyxstone_glue_reloc_t\<close>.\<close>

record glue_reloc =
  gr_offset :: u64
  gr_addend :: i64
  gr_has_addend :: bool
  gr_symbol_name :: "string option"
  gr_reloc_type :: u32

text \<open>One field per function. An output buffer that may be \<open>NULL\<close> is an \<open>option\<close>: the two
  query/fill functions return the required size and the buffer after the call, whose length is
  the \<open>cap\<close> argument.\<close>

record 'g glue =
  g_reset :: "'g \<Rightarrow> 'g"
  g_colon :: "string \<Rightarrow> 'g \<Rightarrow> 'g"
  g_define_abs :: "string \<Rightarrow> u64 \<Rightarrow> 'g \<Rightarrow> 'g"
  g_set_sym :: "string \<Rightarrow> string \<Rightarrow> 'g \<Rightarrow> 'g"
  g_fb_label :: "u32 \<Rightarrow> 'g \<Rightarrow> 'g"
  g_md_assemble :: "string \<Rightarrow> 'g \<Rightarrow> 'g"
  g_emit_bytes :: "byte list \<Rightarrow> 'g \<Rightarrow> 'g"
  g_emit_cons :: "string \<Rightarrow> nat \<Rightarrow> 'g \<Rightarrow> 'g"
  g_align :: "u32 \<Rightarrow> i32 \<Rightarrow> u32 \<Rightarrow> 'g \<Rightarrow> 'g"
  g_org :: "u64 \<Rightarrow> i32 \<Rightarrow> 'g \<Rightarrow> 'g"
  g_begin_capture :: "'g \<Rightarrow> 'g"
  g_end_capture :: "'g \<Rightarrow> string \<times> 'g"
  g_resolve_text_fixups :: "u64 \<Rightarrow> 'g \<Rightarrow> int \<times> 'g"
  g_unsupported_reloc :: "'g \<Rightarrow> string option"
  g_extract_text_bytes :: "byte list option \<Rightarrow> 'g \<Rightarrow> nat \<times> byte list option"
  g_had_errors :: "'g \<Rightarrow> int"
  g_collect_relocs :: "glue_reloc list option \<Rightarrow> 'g \<Rightarrow> nat \<times> glue_reloc list option"

text \<open>The driver's state: the two file-level flags of \<^verbatim>\<open>src/src/nyxstone.cpp\<close> and
  the state behind the glue.\<close>

record 'g driver =
  gas :: 'g
  g_section_violation :: bool
  g_directive_error :: string

definition on_gas :: "('g \<Rightarrow> 'g) \<Rightarrow> 'g driver \<Rightarrow> 'g driver" where
  "on_gas f s = s\<lparr>gas := f (gas s)\<rparr>"

lemma on_gas_simps [simp]:
  "gas (on_gas f s) = f (gas s)"
  "g_section_violation (on_gas f s) = g_section_violation s"
  "g_directive_error (on_gas f s) = g_directive_error s"
  by (simp_all add: on_gas_def)

text \<open>\<open>directive_error\<close>: the first error wins.\<close>

definition directive_error :: "string \<Rightarrow> 'g driver \<Rightarrow> 'g driver" where
  "directive_error msg s =
     (if g_directive_error s = [] then s\<lparr>g_directive_error := msg\<rparr> else s)"

definition violate_section :: "'g driver \<Rightarrow> 'g driver" where
  "violate_section s = s\<lparr>g_section_violation := True\<rparr>"

subsection \<open>The calls made while parsing\<close>

datatype glue_call =
    Colon string
  | Fb_label u32
  | Md_assemble string
  | Emit_bytes "byte list"
  | Emit_cons string nat
  | Set_sym string string
  | Align u32 i32 u32
  | Org u64 i32

fun perform :: "'g glue \<Rightarrow> glue_call \<Rightarrow> 'g \<Rightarrow> 'g" where
  "perform gl (Colon n) = g_colon gl n"
| "perform gl (Fb_label n) = g_fb_label gl n"
| "perform gl (Md_assemble l) = g_md_assemble gl l"
| "perform gl (Emit_bytes bs) = g_emit_bytes gl bs"
| "perform gl (Emit_cons a n) = g_emit_cons gl a n"
| "perform gl (Set_sym n e) = g_set_sym gl n e"
| "perform gl (Align p f m) = g_align gl p f m"
| "perform gl (Org t f) = g_org gl t f"

text \<open>An implementation that only writes down the parse-time calls.\<close>

definition recorder :: "glue_call list glue" where
  "recorder = \<lparr>
     g_reset = (\<lambda>cs. []),
     g_colon = (\<lambda>n cs. cs @ [Colon n]),
     g_define_abs = (\<lambda>n v cs. cs),
     g_set_sym = (\<lambda>n e cs. cs @ [Set_sym n e]),
     g_fb_label = (\<lambda>n cs. cs @ [Fb_label n]),
     g_md_assemble = (\<lambda>l cs. cs @ [Md_assemble l]),
     g_emit_bytes = (\<lambda>bs cs. cs @ [Emit_bytes bs]),
     g_emit_cons = (\<lambda>a n cs. cs @ [Emit_cons a n]),
     g_align = (\<lambda>p f m cs. cs @ [Align p f m]),
     g_org = (\<lambda>t f cs. cs @ [Org t f]),
     g_begin_capture = (\<lambda>cs. cs),
     g_end_capture = (\<lambda>cs. ([], cs)),
     g_resolve_text_fixups = (\<lambda>a cs. (0, cs)),
     g_unsupported_reloc = (\<lambda>cs. None),
     g_extract_text_bytes = (\<lambda>out cs. (0, out)),
     g_had_errors = (\<lambda>cs. 0),
     g_collect_relocs = (\<lambda>out cs. (0, out))\<rparr>"

lemma recorder_calls [simp]:
  "g_colon recorder n cs = cs @ [Colon n]"
  "g_set_sym recorder n e cs = cs @ [Set_sym n e]"
  "g_fb_label recorder k cs = cs @ [Fb_label k]"
  "g_md_assemble recorder l cs = cs @ [Md_assemble l]"
  "g_emit_bytes recorder bs cs = cs @ [Emit_bytes bs]"
  "g_emit_cons recorder a w cs = cs @ [Emit_cons a w]"
  "g_align recorder p f m cs = cs @ [Align p f m]"
  "g_org recorder t f cs = cs @ [Org t f]"
  by (simp_all add: recorder_def)

subsection \<open>Simulation between two implementations\<close>

locale glue_simulation =
  fixes src :: "'a glue" and dst :: "'b glue" and h :: "'a \<Rightarrow> 'b"
  assumes perform_commutes: "h (perform src call g) = perform dst call (h g)"
begin

definition lift :: "'a driver \<Rightarrow> 'b driver" where
  "lift s = \<lparr>gas = h (gas s), g_section_violation = g_section_violation s,
     g_directive_error = g_directive_error s\<rparr>"

lemma lift_fields [simp]:
  "gas (lift s) = h (gas s)"
  "g_section_violation (lift s) = g_section_violation s"
  "g_directive_error (lift s) = g_directive_error s"
  by (simp_all add: lift_def)

lemma lift_perform [frame_simps]:
  "lift (on_gas (g_colon src n) s) = on_gas (g_colon dst n) (lift s)"
  "lift (on_gas (g_fb_label src k) s) = on_gas (g_fb_label dst k) (lift s)"
  "lift (on_gas (g_md_assemble src n) s) = on_gas (g_md_assemble dst n) (lift s)"
  "lift (on_gas (g_emit_bytes src bs) s) = on_gas (g_emit_bytes dst bs) (lift s)"
  "lift (on_gas (g_emit_cons src n w) s) = on_gas (g_emit_cons dst n w) (lift s)"
  "lift (on_gas (g_set_sym src n e) s) = on_gas (g_set_sym dst n e) (lift s)"
  "lift (on_gas (g_align src p f m) s) = on_gas (g_align dst p f m) (lift s)"
  "lift (on_gas (g_org src t f) s) = on_gas (g_org dst t f) (lift s)"
  using perform_commutes [of "Colon n"] perform_commutes [of "Fb_label k"]
    perform_commutes [of "Md_assemble n"] perform_commutes [of "Emit_bytes bs"]
    perform_commutes [of "Emit_cons n w"] perform_commutes [of "Set_sym n e"]
    perform_commutes [of "Align p f m"] perform_commutes [of "Org t f"]
  by (simp_all add: lift_def on_gas_def)

lemma lift_flags [frame_simps]:
  "lift (directive_error msg s) = directive_error msg (lift s)"
  "lift (violate_section s) = violate_section (lift s)"
  by (simp_all add: directive_error_def violate_section_def lift_def)

end

text \<open>Every implementation is an image of the recorder: perform the recorded calls.\<close>

definition replay :: "'g glue \<Rightarrow> 'g \<Rightarrow> glue_call list \<Rightarrow> 'g" where
  "replay gl g0 cs = fold (perform gl) cs g0"

interpretation replay: glue_simulation recorder gl "replay gl g0" for gl g0
proof
  fix call g
  show "replay gl g0 (perform recorder call g) = perform gl call (replay gl g0 g)"
    by (cases call) (simp_all add: replay_def)
qed

end
