(* ===== verification/Api_Types.thy ===== *)
theory Api_Types
  imports Glue_Interface "HOL-Library.List_Lexorder" "HOL-Library.Char_ord"
begin

text \<open>
  The data of the public interface: the structures of \<^verbatim>\<open>src/include/nyxstone/nyxstone.h\<close>,
  the intermediate result \<open>AssembleCore\<close> of \<^verbatim>\<open>src/src/nyxstone.cpp\<close>, and the
  status codes of \<^verbatim>\<open>src/c_api/nyxstone_c.h\<close>, ordered as the C enumeration is.
\<close>

type_synonym Address = u64

record relocation_symbol =
  sym_name :: string
  sym_address :: Address

record relocation_info =
  ri_offset :: Address
  ri_addend :: "i64 option"
  ri_symbol :: relocation_symbol
  ri_relocation_type :: u32

record label_definition =
  l_name :: string
  l_address :: u64

record instruction =
  ins_address :: u64
  ins_assembly :: string
  ins_bytes :: "byte list"

definition instruction_eq :: "instruction \<Rightarrow> instruction \<Rightarrow> bool" where
  "instruction_eq a b \<longleftrightarrow>
     ins_address a = ins_address b \<and> ins_assembly a = ins_assembly b \<and> ins_bytes a = ins_bytes b"

lemma instruction_eq_iff [simp]: "instruction_eq a b \<longleftrightarrow> a = b"
  by (auto simp: instruction_eq_def)

record assemble_with_relocs_result =
  wr_bytes :: "byte list"
  wr_relocations :: "relocation_info list"

record instructions_with_relocs_result =
  iwr_instructions :: "instruction list"
  iwr_relocations :: "relocation_info list"

record assemble_core =
  core_bytes :: "byte list"
  core_relocations :: "relocation_info list"

subsection \<open>Status codes\<close>

datatype status =
    NYXSTONE_OK
  | NYXSTONE_ERR_INIT
  | NYXSTONE_ERR_NULL_ARG
  | NYXSTONE_ERR_ASSEMBLE_FAILED
  | NYXSTONE_ERR_SECTION_VIOLATION
  | NYXSTONE_ERR_DISASM_FAILED
  | NYXSTONE_ERR_ALLOC

fun status_code :: "status \<Rightarrow> nat" where
  "status_code NYXSTONE_OK = 0"
| "status_code NYXSTONE_ERR_INIT = 1"
| "status_code NYXSTONE_ERR_NULL_ARG = 2"
| "status_code NYXSTONE_ERR_ASSEMBLE_FAILED = 3"
| "status_code NYXSTONE_ERR_SECTION_VIOLATION = 4"
| "status_code NYXSTONE_ERR_DISASM_FAILED = 5"
| "status_code NYXSTONE_ERR_ALLOC = 6"

lemma status_code_inj [simp]: "status_code a = status_code b \<longleftrightarrow> a = b"
  by (cases a; cases b) simp_all

instantiation status :: linorder
begin

definition less_eq_status :: "status \<Rightarrow> status \<Rightarrow> bool" where
  "less_eq_status a b \<longleftrightarrow> status_code a \<le> status_code b"

definition less_status :: "status \<Rightarrow> status \<Rightarrow> bool" where
  "less_status a b \<longleftrightarrow> status_code a < status_code b"

instance
  by standard (auto simp: less_eq_status_def less_status_def)

end

end
