(* ===== verification/Scanner.thy ===== *)
theory Scanner
  imports Prelude
begin

text \<open>
  The source-text scanners of \<^verbatim>\<open>src/src/nyxstone.cpp\<close>: removal of block comments from
  the whole source (\<open>strip_block_comments\<close>), removal of a line comment from one statement
  (\<open>strip_comment\<close>), the split into statements (the \<open>run\<close> lambda of \<open>do_assemble\<close>) and
  the clean-up of captured diagnostics (\<open>clean_gas_diag\<close>). The first three carry an
  \<open>in_str\<close> flag and treat a string literal in the same way; the locale \<open>quote_scanner\<close> states
  that contract once, and each of them interprets it.
\<close>

subsection \<open>The scanners\<close>

text \<open>The inner \<open>while\<close> of the block-comment branch: what is left after the closing
  \<open>*/\<close>, or nothing when the comment is not closed.\<close>

fun skip_block :: "string \<Rightarrow> string" where
  "skip_block [] = []"
| "skip_block [c] = []"
| "skip_block (c # d # s) =
     (if c = CHR ''*'' \<and> d = CHR ''/'' then s else skip_block (d # s))"

lemma length_skip_block [termination_simp, simp]: "length (skip_block s) \<le> length s"
  by (induction s rule: skip_block.induct) auto

lemma length_skip_block_tl [termination_simp]: "length (skip_block (tl s)) < Suc (length s)"
  using length_skip_block [of "tl s"] by simp

fun strip_block :: "bool \<Rightarrow> string \<Rightarrow> string" where
  "strip_block in_str [] = []"
| "strip_block True (c # s) =
     (if c = BACKSLASH then
        (case s of [] \<Rightarrow> [c] | d # s' \<Rightarrow> c # d # strip_block True s')
      else if c = QUOTE then c # strip_block False s
      else c # strip_block True s)"
| "strip_block False (c # s) =
     (if c = QUOTE then c # strip_block True s
      else if c = CHR ''/'' \<and> s \<noteq> [] \<and> hd s = CHR ''*''
        then CHR '' '' # strip_block False (skip_block (tl s))
      else c # strip_block False s)"

definition strip_block_comments :: "string \<Rightarrow> string" where
  "strip_block_comments src = strip_block False src"

fun strip_line :: "bool \<Rightarrow> string \<Rightarrow> string" where
  "strip_line in_str [] = []"
| "strip_line True (c # s) =
     (if c = BACKSLASH then
        (case s of [] \<Rightarrow> [c] | d # s' \<Rightarrow> c # d # strip_line True s')
      else if c = QUOTE then c # strip_line False s
      else c # strip_line True s)"
| "strip_line False (c # s) =
     (if c = QUOTE then c # strip_line True s
      else if c = CHR ''#'' \<or> (c = CHR ''/'' \<and> s \<noteq> [] \<and> hd s = CHR ''/'') then []
      else c # strip_line False s)"

definition strip_comment :: "string \<Rightarrow> string" where
  "strip_comment s = strip_line False s"

text \<open>The \<open>run\<close> loop with its \<open>cur\<close> buffer: the statements handed to \<open>process\<close>, in
  order. A separator always hands over the buffer, empty or not; the end of the text only
  hands over a buffer that is not empty.\<close>

definition is_separator :: "char \<Rightarrow> bool" where
  "is_separator c \<longleftrightarrow> c = NEWLINE \<or> c = CHR '';''"

fun split_run :: "bool \<Rightarrow> string \<Rightarrow> string \<Rightarrow> string list" where
  "split_run in_str cur [] = (if cur = [] then [] else [cur])"
| "split_run True cur (c # s) =
     (if c = BACKSLASH then
        (case s of [] \<Rightarrow> [cur @ [c]] | d # s' \<Rightarrow> split_run True (cur @ [c, d]) s')
      else if c = QUOTE then split_run False (cur @ [c]) s
      else split_run True (cur @ [c]) s)"
| "split_run False cur (c # s) =
     (if c = QUOTE then split_run True (cur @ [c]) s
      else if is_separator c then cur # split_run False [] s
      else split_run False (cur @ [c]) s)"

definition split_statements :: "string \<Rightarrow> string list" where
  "split_statements text = split_run False [] text"

text \<open>\<open>std::getline\<close> on an input string stream: lines without their terminator, and no
  last empty line.\<close>

fun getlines :: "string \<Rightarrow> string \<Rightarrow> string list" where
  "getlines cur [] = (if cur = [] then [] else [cur])"
| "getlines cur (c # s) =
     (if c = NEWLINE then cur # getlines [] s else getlines (cur @ [c]) s)"

definition diag_line :: "string \<Rightarrow> string \<Rightarrow> string" where
  "diag_line out raw =
     (let line = ltrim (rtrim raw)
      in if line = [] \<or> line = ''Assembler messages:'' then out
         else if out \<noteq> [] then out @ ''; '' @ line else line)"

definition clean_gas_diag :: "string \<Rightarrow> string" where
  "clean_gas_diag captured = foldl diag_line [] (getlines [] captured)"

subsection \<open>The string-literal contract the scanners share\<close>

text \<open>\<open>literal_body b\<close>: between two quotes, \<open>b\<close> is the inside of one literal: every
  quote in it is escaped and its last character does not escape the closing quote.\<close>

fun literal_body :: "string \<Rightarrow> bool" where
  "literal_body [] = True"
| "literal_body (c # s) =
     (if c = BACKSLASH then (case s of [] \<Rightarrow> False | d # s' \<Rightarrow> literal_body s')
      else c \<noteq> QUOTE \<and> literal_body s)"

locale quote_scanner =
  fixes scan :: "bool \<Rightarrow> string \<Rightarrow> 'o"
    and push :: "char \<Rightarrow> 'o \<Rightarrow> 'o"
  assumes open_quote: "scan False (QUOTE # s) = push QUOTE (scan True s)"
    and close_quote: "scan True (QUOTE # s) = push QUOTE (scan False s)"
    and escape: "scan True (BACKSLASH # c # s) = push BACKSLASH (push c (scan True s))"
    and plain: "c \<noteq> QUOTE \<Longrightarrow> c \<noteq> BACKSLASH \<Longrightarrow> scan True (c # s) = push c (scan True s)"
begin

lemma inside:
  "literal_body b \<Longrightarrow> scan True (b @ QUOTE # s) = foldr push (b @ [QUOTE]) (scan False s)"
proof (induction b rule: literal_body.induct)
  case 1
  show ?case by (simp add: close_quote)
next
  case (2 c b)
  show ?case
  proof (cases "c = BACKSLASH")
    case True
    with "2.prems" obtain d b' where b: "b = d # b'" and body: "literal_body b'"
      by (auto split: list.splits)
    from "2.IH"(1) [OF True b body] True b show ?thesis by (simp add: escape)
  next
    case False
    with "2.prems" have "c \<noteq> QUOTE" "literal_body b" by simp_all
    with "2.IH"(2) [OF False] False show ?thesis by (simp add: plain)
  qed
qed

text \<open>A literal passes through unchanged, and what follows it is scanned from outside.\<close>

lemma literal_verbatim:
  "literal_body b \<Longrightarrow>
   scan False (QUOTE # b @ QUOTE # s) = foldr push (QUOTE # b @ [QUOTE]) (scan False s)"
  by (simp add: open_quote inside)

end

text \<open>\<open>clean stop t b p\<close>: reading \<open>p\<close> from quote state \<open>b\<close>, with \<open>t\<close> behind it, the scanner
  meets no character outside a literal at which \<open>stop\<close> holds, and \<open>p\<close> ends outside a
  literal. \<open>stop c s\<close> is the scanner's test at character \<open>c\<close> with \<open>s\<close> to follow.\<close>

fun clean :: "(char \<Rightarrow> string \<Rightarrow> bool) \<Rightarrow> string \<Rightarrow> bool \<Rightarrow> string \<Rightarrow> bool" where
  "clean stop t in_str [] = (\<not> in_str)"
| "clean stop t True (c # s) =
     (if c = BACKSLASH then
        (case s of [] \<Rightarrow> False | d # s' \<Rightarrow> clean stop t True s')
      else if c = QUOTE then clean stop t False s
      else clean stop t True s)"
| "clean stop t False (c # s) =
     (if c = QUOTE then clean stop t True s
      else \<not> stop c (s @ t) \<and> clean stop t False s)"

locale stop_scanner = quote_scanner +
  fixes stop :: "char \<Rightarrow> string \<Rightarrow> bool"
  assumes outside: "c \<noteq> QUOTE \<Longrightarrow> \<not> stop c s \<Longrightarrow> scan False (c # s) = push c (scan False s)"
begin

lemma clean_prefix:
  "clean stop t b p \<Longrightarrow> scan b (p @ t) = foldr push p (scan False t)"
proof (induction stop\<equiv>stop t\<equiv>t b p rule: clean.induct)
  case (1 b)
  then show ?case by simp
next
  case (2 c p)
  then show ?case
    by (cases p) (auto simp: escape close_quote plain split: if_splits)
next
  case (3 c p)
  then show ?case
    by (auto simp: open_quote outside split: if_splits)
qed

end

lemma foldr_Cons [simp]: "foldr Cons xs ys = xs @ ys"
  by (induction xs) auto

definition block_start :: "char \<Rightarrow> string \<Rightarrow> bool" where
  "block_start c s \<longleftrightarrow> c = CHR ''/'' \<and> s \<noteq> [] \<and> hd s = CHR ''*''"

definition line_start :: "char \<Rightarrow> string \<Rightarrow> bool" where
  "line_start c s \<longleftrightarrow> c = CHR ''#'' \<or> (c = CHR ''/'' \<and> s \<noteq> [] \<and> hd s = CHR ''/'')"

definition separator_start :: "char \<Rightarrow> string \<Rightarrow> bool" where
  "separator_start c s \<longleftrightarrow> is_separator c"

lemmas start_defs = block_start_def line_start_def separator_start_def

interpretation block_scan: stop_scanner strip_block Cons block_start
  by unfold_locales (auto simp: start_defs)

interpretation line_scan: stop_scanner strip_line Cons line_start
  by unfold_locales (auto simp: start_defs)

text \<open>The split without its buffer: the pieces between unquoted separators, the last one
  included even when it is empty. \<open>grow\<close> puts a character in front of the first piece.\<close>

fun grow :: "char \<Rightarrow> string list \<Rightarrow> string list" where
  "grow c [] = [[c]]"
| "grow c (p # ps) = (c # p) # ps"

fun pieces :: "bool \<Rightarrow> string \<Rightarrow> string list" where
  "pieces in_str [] = [[]]"
| "pieces True (c # s) =
     (if c = BACKSLASH then
        (case s of [] \<Rightarrow> [[c]] | d # s' \<Rightarrow> grow c (grow d (pieces True s')))
      else if c = QUOTE then grow c (pieces False s)
      else grow c (pieces True s))"
| "pieces False (c # s) =
     (if c = QUOTE then grow c (pieces True s)
      else if is_separator c then [] # pieces False s
      else grow c (pieces False s))"

interpretation piece_scan: stop_scanner pieces grow separator_start
  by unfold_locales (auto simp: start_defs)

definition drop_last_empty :: "string list \<Rightarrow> string list" where
  "drop_last_empty ps = (if ps \<noteq> [] \<and> last ps = [] then butlast ps else ps)"

fun glue_on :: "string \<Rightarrow> string list \<Rightarrow> string list" where
  "glue_on cur [] = [cur]"
| "glue_on cur (p # ps) = (cur @ p) # ps"

lemma glue_on_grow [simp]: "glue_on cur (grow c ps) = glue_on (cur @ [c]) ps"
  by (cases ps) auto

lemma grow_nonempty [simp]: "grow c ps \<noteq> []"
  by (cases ps) auto

lemma pieces_nonempty [simp]: "pieces b s \<noteq> []"
  by (induction b s rule: pieces.induct) (auto split: list.splits)

lemma glue_on_Nil [simp]: "ps \<noteq> [] \<Longrightarrow> glue_on [] ps = ps"
  by (cases ps) auto

lemma drop_last_empty_Cons [simp]:
  "ps \<noteq> [] \<Longrightarrow> drop_last_empty (p # ps) = p # drop_last_empty ps"
  by (simp add: drop_last_empty_def)

lemma split_run_pieces: "split_run b cur s = drop_last_empty (glue_on cur (pieces b s))"
proof (induction b cur s rule: split_run.induct)
  case (1 b cur)
  then show ?case by (simp add: drop_last_empty_def)
next
  case (2 cur c s)
  then show ?case by (auto simp: drop_last_empty_def split: list.splits)
next
  case (3 cur c s)
  then show ?case by (auto simp: drop_last_empty_Cons)
qed

lemma split_statements_pieces: "split_statements t = drop_last_empty (pieces False t)"
  by (simp add: split_statements_def split_run_pieces)

lemma glue_on_foldr: "ps \<noteq> [] \<Longrightarrow> foldr grow p ps = glue_on p ps"
  by (induction p) (auto, cases ps, auto)

lemma glue_on_glue_on: "glue_on cur (glue_on p ps) = glue_on (cur @ p) ps"
  by (cases ps) auto

text \<open>Comment text without the closing \<open>*/\<close>.\<close>

fun no_close :: "string \<Rightarrow> bool" where
  "no_close [] = True"
| "no_close [c] = True"
| "no_close (c # d # s) = (\<not> (c = CHR ''*'' \<and> d = CHR ''/'') \<and> no_close (d # s))"

lemma skip_block_closed: "no_close c \<Longrightarrow> skip_block (c @ CHR ''*'' # CHR ''/'' # s) = s"
  by (induction c rule: no_close.induct) auto

lemma skip_block_open: "no_close c \<Longrightarrow> skip_block c = []"
  by (induction c rule: no_close.induct) auto

lemma clean_block_start:
  "clean block_start (d # t) b p \<Longrightarrow> clean block_start (d # u) b p"
  by (induction block_start "d # t" b p rule: clean.induct)
    (auto simp: block_start_def hd_append split: list.splits if_splits)

subsection \<open>What the scanners guarantee\<close>

text \<open>C32. A string literal is never touched by any scanner: block-comment removal and
  line-comment removal copy it, and the statement split keeps it inside the current
  statement, whatever comment markers and separators it contains; scanning goes on behind
  its closing quote.\<close>

theorem string_literals_survive:
  assumes "literal_body b"
  shows "strip_block False (QUOTE # b @ QUOTE # s) = QUOTE # b @ QUOTE # strip_block False s \<and>
    strip_line False (QUOTE # b @ QUOTE # s) = QUOTE # b @ QUOTE # strip_line False s \<and>
    split_run False cur (QUOTE # b @ QUOTE # s) = split_run False (cur @ QUOTE # b @ [QUOTE]) s"
proof (intro conjI)
  show "strip_block False (QUOTE # b @ QUOTE # s) = QUOTE # b @ QUOTE # strip_block False s"
    using block_scan.literal_verbatim [OF assms] by simp
  show "strip_line False (QUOTE # b @ QUOTE # s) = QUOTE # b @ QUOTE # strip_line False s"
    using line_scan.literal_verbatim [OF assms] by simp
  have "pieces False (QUOTE # b @ QUOTE # s) = glue_on (QUOTE # b @ [QUOTE]) (pieces False s)"
    by (simp only: piece_scan.literal_verbatim [OF assms] glue_on_foldr [OF pieces_nonempty])
  then show "split_run False cur (QUOTE # b @ QUOTE # s)
      = split_run False (cur @ QUOTE # b @ [QUOTE]) s"
    by (simp only: split_run_pieces glue_on_glue_on)
qed

theorem string_literals_survive_witness:
  "literal_body ''a#b;c//d'' \<and>
   strip_block False (QUOTE # ''a#b;c//d'' @ QUOTE # ''/*x*/'') = QUOTE # ''a#b;c//d'' @ QUOTE # '' ''"
proof -
  have body: "literal_body ''a#b;c//d''" by simp
  show ?thesis using body string_literals_survive [OF body, of "''/*x*/''"] by simp
qed

text \<open>Every block comment becomes exactly one blank, so it never fuses the tokens around
  it; a comment that is not closed is dropped to the end of the input. \<open>p\<close> is any text without
  a comment that ends outside a literal, \<open>c\<close> any comment text without \<open>*/\<close>.\<close>

theorem block_comment_becomes_blank:
  assumes "clean block_start ''/*'' False p" and "no_close c"
  shows "strip_block_comments (p @ ''/*'' @ c @ ''*/'' @ s) = p @ '' '' @ strip_block_comments s \<and>
    strip_block_comments (p @ ''/*'' @ c) = p @ '' ''"
proof -
  have "clean block_start (''/*'' @ u) False p" for u
    using clean_block_start [OF assms(1), of "CHR ''*'' # u"] by simp
  then have "strip_block False (p @ ''/*'' @ u) = p @ strip_block False (''/*'' @ u)" for u
    by (simp add: block_scan.clean_prefix)
  then show ?thesis
    using assms(2) by (simp add: strip_block_comments_def skip_block_closed skip_block_open)
qed

theorem block_comment_becomes_blank_witness:
  "clean block_start ''/*'' False ''mov'' \<and> no_close ''x/*y'' \<and>
   strip_block_comments (''mov'' @ ''/*'' @ ''x/*y'' @ ''*/'' @ ''d0'') = ''mov d0''"
proof -
  have p: "clean block_start ''/*'' False ''mov''" by (simp add: block_start_def)
  have c: "no_close ''x/*y''" by simp
  have "strip_block_comments ''d0'' = ''d0''" by (simp add: strip_block_comments_def)
  with p c block_comment_becomes_blank [OF p c, of "''d0''"] show ?thesis by simp
qed

text \<open>What is left has no block comment any more. A text in this form is left alone, so the
  removal is idempotent.\<close>

lemma strip_block_hd: "strip_block False s \<noteq> [] \<Longrightarrow> hd (strip_block False s) = CHR ''*'' \<Longrightarrow> hd s = CHR ''*''"
  by (cases s) (auto split: if_splits)

lemma strip_block_idem: "strip_block b (strip_block b s) = strip_block b s"
proof (induction b s rule: strip_block.induct)
  case (1 b)
  then show ?case by simp
next
  case (2 c s)
  then show ?case by (auto split: list.splits)
next
  case (3 c s)
  consider (quote) "c = QUOTE" | (start) "block_start c s"
    | (other) "c \<noteq> QUOTE" "\<not> block_start c s" by blast
  then show ?case
  proof cases
    case quote
    with "3.IH"(1) show ?thesis by simp
  next
    case start
    then have "c = CHR ''/''" "s \<noteq> [] \<and> hd s = CHR ''*''" by (simp_all add: block_start_def)
    with "3.IH"(2) show ?thesis by simp
  next
    case other
    have step: "\<not> block_start c u \<Longrightarrow> strip_block False (c # u) = c # strip_block False u" for u
      using other(1) by (auto simp: block_start_def)
    have "\<not> block_start c (strip_block False s)"
      using other(2) strip_block_hd [of s] unfolding block_start_def by (metis strip_block.simps(1))
    moreover have "strip_block False (strip_block False s) = strip_block False s"
      using "3.IH"(3) other by (auto simp: block_start_def)
    ultimately show ?thesis using other(2) by (simp add: step del: strip_block.simps)
  qed
qed

text \<open>Removing the block comments a second time changes nothing: no comment survives the
  first pass, and none is created by it.\<close>

theorem strip_block_comments_idem:
  "strip_block_comments (strip_block_comments src) = strip_block_comments src"
  by (simp add: strip_block_comments_def strip_block_idem)

lemma split_at_separator:
  assumes "clean separator_start t False p"
  shows "pieces False (p @ t) = glue_on p (pieces False t)"
  by (simp add: piece_scan.clean_prefix [OF assms] glue_on_foldr)

lemma clean_separator_start: "clean separator_start t b p = clean separator_start u b p"
  by (induction separator_start t b p rule: clean.induct)
    (auto simp: separator_start_def split: list.splits)

text \<open>The statement split is exactly the split at the separators outside literals: a
  text without one that ends outside a literal is one statement, a separator behind it ends
  that statement, and the rest is split in the same way.\<close>

theorem split_statements_spec:
  assumes "clean separator_start [] False p" and "is_separator c"
  shows "split_statements (p @ c # t) = p # split_statements t \<and>
    split_statements p = (if p = [] then [] else [p])"
proof -
  have c: "c \<noteq> QUOTE" using assms(2) by (auto simp: is_separator_def)
  have "pieces False (p @ c # t) = p # pieces False t"
    using split_at_separator [of "c # t" p] assms c
    by (simp add: clean_separator_start [of "c # t" False p "[]"])
  moreover have "pieces False p = [p]"
    using split_at_separator [OF assms(1)] by simp
  ultimately show ?thesis
    by (simp add: split_statements_pieces) (simp add: drop_last_empty_def)
qed

theorem split_statements_spec_witness:
  "clean separator_start [] False (QUOTE # '';'' @ [QUOTE]) \<and> is_separator (CHR '';'') \<and>
   split_statements ((QUOTE # '';'' @ [QUOTE]) @ CHR '';'' # ''ret'') = [QUOTE # '';'' @ [QUOTE], ''ret'']"
proof -
  have p: "clean separator_start [] False (QUOTE # '';'' @ [QUOTE])" by simp
  have c: "is_separator (CHR '';'')" by (simp add: is_separator_def)
  have "split_statements ''ret'' = [''ret'']"
    by (simp add: split_statements_def is_separator_def)
  with p c split_statements_spec [OF p c, of "''ret''"] show ?thesis by simp
qed

text \<open>The statements and the separators between them make up the whole text: nothing is lost
  or reordered by the split.\<close>

fun interleave :: "string list \<Rightarrow> string \<Rightarrow> string" where
  "interleave [] seps = []"
| "interleave (p # ps) [] = p"
| "interleave (p # ps) (c # seps) = p @ c # interleave ps seps"

lemma interleave_grow: "ps \<noteq> [] \<Longrightarrow> interleave (grow c ps) seps = c # interleave ps seps"
  by (cases ps; cases seps) auto

lemma interleave_drop_last_empty:
  assumes "length ps = Suc (length seps)"
  shows "interleave (drop_last_empty ps) seps = interleave ps seps"
  using assms
proof (induction ps seps rule: interleave.induct)
  case (2 p ps)
  then show ?case by (cases "p = []") (auto simp: drop_last_empty_def)
next
  case (3 p ps c seps)
  then show ?case by (cases ps) auto
qed simp

lemma length_grow: "ps \<noteq> [] \<Longrightarrow> length (grow c ps) = length ps"
  by (cases ps) auto

definition joins :: "string list \<Rightarrow> string \<Rightarrow> bool" where
  "joins ps s \<longleftrightarrow> (\<exists>seps. (\<forall>c \<in> set seps. is_separator c) \<and>
     length ps = Suc (length seps) \<and> interleave ps seps = s)"

lemma joins_single: "joins [s] s"
  by (auto simp: joins_def intro: exI [of _ "[]"])

lemma joins_grow: "joins ps s \<Longrightarrow> joins (grow c ps) (c # s)"
  unfolding joins_def by (metis interleave_grow length_grow length_0_conv nat.distinct(1))

lemma joins_separator: "joins ps s \<Longrightarrow> is_separator c \<Longrightarrow> joins ([] # ps) (c # s)"
  unfolding joins_def by (metis (no_types, lifting) append_Nil interleave.simps(3) length_Cons set_ConsD)

lemma pieces_joins: "joins (pieces b s) s"
  by (induction b s rule: pieces.induct)
    (auto simp: joins_single joins_grow joins_separator split: list.splits)

text \<open>The split loses nothing: putting the statements and a separator (newline or
  semicolon) behind each but possibly the last together gives the text back.\<close>

theorem split_statements_complete:
  "\<exists>seps. list_all is_separator seps \<and> interleave (split_statements text) seps = text"
proof -
  obtain seps where "\<forall>c \<in> set seps. is_separator c"
    and "length (pieces False text) = Suc (length seps)"
    and "interleave (pieces False text) seps = text"
    using pieces_joins [of False "text"] by (auto simp: joins_def)
  then show ?thesis
    by (auto simp: split_statements_pieces interleave_drop_last_empty list_all_iff)
qed

text \<open>A line comment is cut at its first \<open>#\<close> or \<open>//\<close> outside a literal and nothing
  else is removed: with \<open>p\<close> free of comment starts and closed, the result is \<open>p\<close> whether a
  comment or the end of the statement follows.\<close>

theorem strip_comment_cuts:
  assumes "clean line_start t False p"
    and "t = [] \<or> (\<exists>u. t = CHR ''#'' # u \<or> t = CHR ''/'' # CHR ''/'' # u)"
  shows "strip_comment (p @ t) = p"
proof -
  have "strip_line False t = []" using assms(2) by auto
  with line_scan.clean_prefix [OF assms(1)] show ?thesis by (simp add: strip_comment_def)
qed

theorem strip_comment_cuts_witness:
  "clean line_start ''# c'' False (''mov '' @ QUOTE # ''#'' @ [QUOTE]) \<and>
   strip_comment ((''mov '' @ QUOTE # ''#'' @ [QUOTE]) @ ''# c'') = ''mov '' @ QUOTE # ''#'' @ [QUOTE]"
proof -
  have p: "clean line_start ''# c'' False (''mov '' @ QUOTE # ''#'' @ [QUOTE])"
    by (simp add: line_start_def)
  with strip_comment_cuts [OF p] show ?thesis by blast
qed

lemma getlines_no_newline:
  "NEWLINE \<notin> set cur \<Longrightarrow> l \<in> set (getlines cur s) \<Longrightarrow> NEWLINE \<notin> set l"
  by (induction cur s rule: getlines.induct) (auto split: if_splits)

lemma diag_line_no_newline:
  assumes "NEWLINE \<notin> set out" and "NEWLINE \<notin> set raw"
  shows "NEWLINE \<notin> set (diag_line out raw)"
proof -
  have "NEWLINE \<notin> set (ltrim (rtrim raw))"
    using assms(2) set_ltrim [of "rtrim raw"] set_rtrim [of raw] by auto
  with assms(1) show ?thesis by (simp add: diag_line_def Let_def)
qed

lemma foldl_diag_line_no_newline:
  "NEWLINE \<notin> set out \<Longrightarrow> \<forall>l \<in> set ls. NEWLINE \<notin> set l \<Longrightarrow>
   NEWLINE \<notin> set (foldl diag_line out ls)"
proof (induction ls arbitrary: out)
  case (Cons l ls)
  then show ?case using diag_line_no_newline [of out l] by simp
qed simp

text \<open>The diagnostic put into an error message is a single line, whatever gas wrote.\<close>

theorem clean_gas_diag_single_line: "NEWLINE \<notin> set (clean_gas_diag captured)"
  unfolding clean_gas_diag_def
  using getlines_no_newline [of "[]"] by (intro foldl_diag_line_no_newline) auto

end
