(* ===== verification/Literals.thy ===== *)
theory Literals
  imports Prelude
begin

text \<open>
  Integer operands of the data and layout directives, \<^verbatim>\<open>src/src/nyxstone.cpp\<close>: the literal
  reader \<open>parse_int\<close> over C's \<open>strtoll\<close> with base 0, the test \<open>all_int_literals\<close> that picks
  the fast path of a data directive, the fast path \<open>emit_int_list\<close> itself with its little-endian
  emitters, and \<open>parse_int_args\<close> for the operands of \<open>.skip\<close>, \<open>.org\<close> and \<open>.align\<close>.
  A \<open>const char*\<close> cursor into the operand text is the text from there on. \<open>strtoll\<close> is modelled
  by its C standard description: blanks, a sign, the base from the prefix, the longest run of
  digits, and a result clamped to the range of \<open>long long\<close>.
\<close>

subsection \<open>\<open>strtoll\<close> with base 0\<close>

definition digit_value :: "char \<Rightarrow> nat option" where
  "digit_value c =
     (if isdigit c then Some (of_char c - 48)
      else if isupper c then Some (of_char c - 55)
      else if islower c then Some (of_char c - 87)
      else None)"

definition is_digit_of :: "nat \<Rightarrow> char \<Rightarrow> bool" where
  "is_digit_of base c = (case digit_value c of None \<Rightarrow> False | Some d \<Rightarrow> d < base)"

fun scan_digits :: "nat \<Rightarrow> nat \<Rightarrow> string \<Rightarrow> nat \<times> string" where
  "scan_digits base acc [] = (acc, [])"
| "scan_digits base acc (c # s) =
     (if is_digit_of base c then scan_digits base (acc * base + the (digit_value c)) s
      else (acc, c # s))"

definition clamp64 :: "int \<Rightarrow> int" where
  "clamp64 v = max (- (2 ^ 63)) (min (2 ^ 63 - 1) v)"

text \<open>The magnitude behind an optional sign: \<open>None\<close> when there is no digit to convert. A \<open>0x\<close>
  without a hexadecimal digit behind it converts just the \<open>0\<close>.\<close>

definition strto_magnitude :: "string \<Rightarrow> (nat \<times> string) option" where
  "strto_magnitude s =
     (case s of
        [] \<Rightarrow> None
      | c # s' \<Rightarrow>
          if c = CHR ''0'' then
            (case s' of
               x # h # _ \<Rightarrow>
                 if (x = CHR ''x'' \<or> x = CHR ''X'') \<and> is_digit_of 16 h
                 then Some (scan_digits 16 0 (tl s'))
                 else Some (scan_digits 8 0 s)
             | _ \<Rightarrow> Some (scan_digits 8 0 s))
          else if is_digit_of 10 c then Some (scan_digits 10 0 s)
          else None)"

text \<open>\<open>strtoll(p, &ep, 0)\<close>: the value and the text at \<open>ep\<close>; \<open>None\<close> is \<open>ep == p\<close>.\<close>

definition strtoll0 :: "string \<Rightarrow> (int \<times> string) option" where
  "strtoll0 p =
     (case ltrim p of
        [] \<Rightarrow> None
      | c # s \<Rightarrow>
          if c = CHR ''-'' then map_option (\<lambda>(m, r). (clamp64 (- int m), r)) (strto_magnitude s)
          else if c = CHR ''+'' then map_option (\<lambda>(m, r). (clamp64 (int m), r)) (strto_magnitude s)
          else map_option (\<lambda>(m, r). (clamp64 (int m), r)) (strto_magnitude (c # s)))"

subsection \<open>The driver's readers\<close>

definition parse_int :: "string \<Rightarrow> (int \<times> string) option" where
  "parse_int p = (let q = ltrim p in if q = [] then None else strtoll0 q)"

lemma length_scan_digits: "length (snd (scan_digits base acc s)) \<le> length s"
  by (induction base acc s rule: scan_digits.induct) auto

lemma scan_digits_consumes:
  "s \<noteq> [] \<Longrightarrow> is_digit_of base (hd s) \<Longrightarrow> length (snd (scan_digits base acc s)) < length s"
  by (cases s) (auto simp: le_imp_less_Suc length_scan_digits)

lemma is_digit_of_mono: "is_digit_of b c \<Longrightarrow> b \<le> b' \<Longrightarrow> is_digit_of b' c"
  by (auto simp: is_digit_of_def split: option.splits)

lemma zero_digit [simp]: "is_digit_of 8 (CHR ''0'')"
  by (simp add: is_digit_of_def digit_value_def isdigit_def)

lemma strto_magnitude_consumes:
  assumes "strto_magnitude s = Some (m, r)"
  shows "length r < length s"
proof -
  obtain c s' where s: "s = c # s'"
    using assms by (cases s) (auto simp: strto_magnitude_def)
  have oct: "c = CHR ''0'' \<Longrightarrow> length (snd (scan_digits 8 0 s)) < length s"
    using s by (intro scan_digits_consumes) auto
  have dec: "is_digit_of 10 c \<Longrightarrow> length (snd (scan_digits 10 0 s)) < length s"
    using s by (intro scan_digits_consumes) auto
  have hex: "length (snd (scan_digits 16 0 (tl s'))) < length s" if "s' \<noteq> []"
    using that s length_scan_digits [of 16 0 "tl s'"] by (cases s') auto
  show ?thesis
    using assms oct dec hex s
    by (auto simp: strto_magnitude_def split: if_splits list.splits)
qed

lemma parse_int_consumes:
  assumes "parse_int p = Some (v, r)"
  shows "length r < length p"
proof -
  from assms obtain c s where "ltrim p = c # s" and "length r < length (c # s)"
    by (auto simp: parse_int_def strtoll0_def Let_def
        dest!: strto_magnitude_consumes split: list.splits if_splits)
  then show ?thesis using ltrim_eq_Cons [of p c s] by simp
qed

text \<open>The end of an operand: blanks, then an optional comma.\<close>

definition after_operand :: "string \<Rightarrow> string" where
  "after_operand r = (case ltrim r of [] \<Rightarrow> [] | c # s \<Rightarrow> if c = CHR '','' then s else c # s)"

lemma length_after_operand [termination_simp, simp]: "length (after_operand r) \<le> length r"
  by (auto simp: after_operand_def dest: ltrim_eq_Cons split: list.splits)

lemma after_parse_int [termination_simp]:
  "parse_int p = Some (v, r) \<Longrightarrow> length (after_operand r) < length p"
  by (rule le_less_trans [OF length_after_operand parse_int_consumes])

lemma parse_int_comma [termination_simp]:
  "parse_int (ltrim p) = Some (v, r) \<Longrightarrow> ltrim r = c # s \<Longrightarrow> length s < length p"
  using parse_int_consumes [of "ltrim p" v r] ltrim_eq_Cons [of r c s] length_ltrim [of p]
  by linarith

text \<open>\<open>emit_u8\<close> to \<open>emit_u64\<close>: the bytes handed to the glue for one value.\<close>

definition emit_u8 :: "byte \<Rightarrow> byte list" where
  "emit_u8 v = [v]"

definition emit_u16 :: "u16 \<Rightarrow> byte list" where
  "emit_u16 v = [ucast v, ucast (drop_bit 8 v)]"

definition emit_u32 :: "u32 \<Rightarrow> byte list" where
  "emit_u32 v = [ucast v, ucast (drop_bit 8 v), ucast (drop_bit 16 v), ucast (drop_bit 24 v)]"

definition emit_u64 :: "u64 \<Rightarrow> byte list" where
  "emit_u64 v = map (\<lambda>i. ucast (drop_bit (8 * i) v)) [0..<8]"

definition emit_width :: "nat \<Rightarrow> int \<Rightarrow> byte list" where
  "emit_width width v =
     (if width = 1 then emit_u8 (word_of_int v)
      else if width = 2 then emit_u16 (word_of_int v)
      else if width = 4 then emit_u32 (word_of_int v)
      else if width = 8 then emit_u64 (word_of_int v)
      else [])"

text \<open>The byte strings \<open>emit_int_list\<close> hands to the glue, one per value, in order.\<close>

fun emit_int_list :: "string \<Rightarrow> nat \<Rightarrow> byte list list" where
  "emit_int_list p width =
     (if p = [] then []
      else case parse_int p of
        None \<Rightarrow> []
      | Some (v, r) \<Rightarrow> emit_width width v # emit_int_list (after_operand r) width)"

declare emit_int_list.simps [simp del]

text \<open>A (possibly empty) comma-separated list of integer literals.\<close>

fun all_int_literals :: "string \<Rightarrow> bool" where
  "all_int_literals p =
     (let q = ltrim p in
      if q = [] then True
      else case parse_int q of
        None \<Rightarrow> False
      | Some (v, r) \<Rightarrow>
          (case ltrim r of
             [] \<Rightarrow> True
           | c # s \<Rightarrow> if c \<noteq> CHR '','' then False else all_int_literals s))"

declare all_int_literals.simps [simp del]

text \<open>\<open>parse_int_args(args, out, max_args)\<close>: the return value (\<open>-1\<close> for malformed text) and the
  array \<open>out\<close>, whose later entries keep what the caller put there.\<close>

fun parse_args_loop :: "string \<Rightarrow> nat \<Rightarrow> nat \<Rightarrow> int list \<Rightarrow> int \<times> int list" where
  "parse_args_loop p max_args n out =
     (if n < max_args then
        (let q = ltrim p in
         if q = [] then (int n, out)
         else case parse_int q of
           None \<Rightarrow> (-1, out)
         | Some (v, r) \<Rightarrow>
             (case ltrim r of
                [] \<Rightarrow> (int (Suc n), out[n := v])
              | c # s \<Rightarrow>
                  if c \<noteq> CHR '','' then (-1, out[n := v])
                  else parse_args_loop s max_args (Suc n) (out[n := v])))
      else (if ltrim p = [] then (int n, out) else (-1, out)))"

declare parse_args_loop.simps [simp del]

definition parse_int_args :: "string \<Rightarrow> int list \<Rightarrow> nat \<Rightarrow> int \<times> int list" where
  "parse_int_args args out max_args = parse_args_loop args max_args 0 out"

subsection \<open>A literal ends before the comma\<close>

lemma comma_not_digit [simp]: "\<not> is_digit_of base (CHR '','')"
  by (simp add: is_digit_of_def digit_value_def isdigit_def isupper_def islower_def)

lemma scan_digits_comma:
  "scan_digits base acc (l @ CHR '','' # s) =
     (fst (scan_digits base acc l), snd (scan_digits base acc l) @ CHR '','' # s)"
  by (induction base acc l rule: scan_digits.induct) auto

lemma strto_magnitude_comma:
  "strto_magnitude (l @ CHR '','' # s) = map_option (\<lambda>(m, r). (m, r @ CHR '','' # s)) (strto_magnitude l)"
proof (cases l)
  case Nil
  then show ?thesis by (simp add: strto_magnitude_def)
next
  case (Cons c l')
  then show ?thesis
    using scan_digits_comma [of 8 0 l s] scan_digits_comma [of 10 0 l s]
      scan_digits_comma [of 16 0 "tl l'" s]
    by (cases l'; cases "tl l'")
      (auto simp: strto_magnitude_def case_prod_unfold simp del: scan_digits.simps split: list.splits)
qed

lemma comma_not_space [simp]: "\<not> isspace (CHR '','')"
  by (simp add: isspace_def)

lemma ltrim_comma: "ltrim (l @ CHR '','' # s) = ltrim l @ CHR '','' # s"
  by (induction l) auto

lemma parse_int_comma_local:
  "parse_int (l @ CHR '','' # s) = map_option (\<lambda>(v, r). (v, r @ CHR '','' # s)) (parse_int l)"
proof (cases "ltrim l")
  case Nil
  then show ?thesis
    by (simp add: parse_int_def strtoll0_def ltrim_comma strto_magnitude_def)
next
  case (Cons c q)
  moreover from Cons have "\<not> isspace c" using ltrim_hd [of l] by simp
  ultimately show ?thesis
    using strto_magnitude_comma [of q s] strto_magnitude_comma [of "c # q" s]
    by (simp add: parse_int_def strtoll0_def ltrim_comma option.map_comp comp_def
        case_prod_unfold)
qed

subsection \<open>The list directives against comma-separated pieces\<close>

text \<open>The declarative reading of an operand list: cut the text at its commas; every piece is
  a literal with blanks around it, but the piece behind the last comma may be blank.\<close>

fun comma_pieces :: "string \<Rightarrow> string list" where
  "comma_pieces [] = [[]]"
| "comma_pieces (c # s) =
     (if c = CHR '','' then [] # comma_pieces s
      else case comma_pieces s of [] \<Rightarrow> [[c]] | p # ps \<Rightarrow> (c # p) # ps)"

definition literal_value :: "string \<Rightarrow> int option" where
  "literal_value p =
     (case parse_int p of None \<Rightarrow> None | Some (v, r) \<Rightarrow> if ltrim r = [] then Some v else None)"

fun piece_values :: "string list \<Rightarrow> int list option" where
  "piece_values [] = Some []"
| "piece_values [p] =
     (if ltrim p = [] then Some [] else map_option (\<lambda>v. [v]) (literal_value p))"
| "piece_values (p # ps) =
     (case literal_value p of None \<Rightarrow> None | Some v \<Rightarrow> map_option (Cons v) (piece_values ps))"

lemma comma_pieces_nonempty [simp]: "comma_pieces s \<noteq> []"
  by (induction s) (auto split: list.splits)

lemma comma_pieces_no_comma: "CHR '','' \<notin> set p \<Longrightarrow> comma_pieces p = [p]"
  by (induction p) auto

lemma comma_pieces_comma:
  "CHR '','' \<notin> set p \<Longrightarrow> comma_pieces (p @ CHR '','' # s) = p # comma_pieces s"
  by (induction p) auto

lemma piece_values_Cons:
  "ps \<noteq> [] \<Longrightarrow> piece_values (p # ps) =
     (case literal_value p of None \<Rightarrow> None | Some v \<Rightarrow> map_option (Cons v) (piece_values ps))"
  by (cases ps) auto

lemma parse_int_ltrim [simp]: "parse_int (ltrim p) = parse_int p"
  by (simp add: parse_int_def strtoll0_def)

lemma parse_int_blank: "ltrim p = [] \<Longrightarrow> parse_int p = None"
  by (simp add: parse_int_def)

text \<open>One round of each loop on a text cut at its first comma.\<close>

lemma split_first_comma:
  obtains "CHR '','' \<notin> set p" | l s where "p = l @ CHR '','' # s" and "CHR '','' \<notin> set l"
  by (metis split_list_first)

lemma parse_int_no_comma:
  assumes "parse_int p = Some (v, r)" and "CHR '','' \<notin> set p"
  shows "CHR '','' \<notin> set r"
  using assms
proof -
  have scan: "set (snd (scan_digits b a q)) \<subseteq> set q" for b a q
    by (induction b a q rule: scan_digits.induct) auto
  have mag: "strto_magnitude q = Some (m, r) \<Longrightarrow> set r \<subseteq> set q" for q m
    using scan [of 8 0 q] scan [of 10 0 q] scan [of 16 0 "tl (tl q)"]
    by (auto simp: strto_magnitude_def split: list.splits if_splits)
  from assms(1) have "set r \<subseteq> set (ltrim p)"
    by (auto simp: parse_int_def strtoll0_def Let_def split: list.splits if_splits dest!: mag)
  with set_ltrim [of p] assms(2) show ?thesis by auto
qed

lemma all_int_literals_comma:
  assumes "CHR '','' \<notin> set l"
  shows "all_int_literals (l @ CHR '','' # s) = (literal_value l \<noteq> None \<and> all_int_literals s)"
proof -
  have "all_int_literals (l @ CHR '','' # s) =
      (case parse_int (l @ CHR '','' # s) of None \<Rightarrow> False | Some (v, r) \<Rightarrow>
        (case ltrim r of [] \<Rightarrow> True | c # t \<Rightarrow> if c \<noteq> CHR '','' then False else all_int_literals t))"
    by (subst all_int_literals.simps) (simp add: ltrim_comma Let_def flip: parse_int_ltrim [of "l @ CHR '','' # s"])
  then have unfold: "all_int_literals (l @ CHR '','' # s) =
      (case parse_int l of None \<Rightarrow> False | Some (v, r) \<Rightarrow>
        (case ltrim r @ CHR '','' # s of [] \<Rightarrow> True
         | c # t \<Rightarrow> if c \<noteq> CHR '','' then False else all_int_literals t))"
    by (simp add: parse_int_comma_local ltrim_comma split: option.splits)
  show ?thesis
  proof (cases "parse_int l")
    case None
    then show ?thesis by (simp add: unfold literal_value_def)
  next
    case (Some vr)
    obtain v r where vr: "vr = (v, r)" by (cases vr)
    have "CHR '','' \<notin> set (ltrim r)"
      using parse_int_no_comma [of l v r] Some vr assms set_ltrim [of r] by auto
    with Some vr show ?thesis by (cases "ltrim r") (auto simp: unfold literal_value_def)
  qed
qed

lemma emit_int_list_comma:
  assumes "CHR '','' \<notin> set l" and "literal_value l = Some v"
  shows "emit_int_list (l @ CHR '','' # s) w = emit_width w v # emit_int_list s w"
proof -
  from assms(2) obtain r where "parse_int l = Some (v, r)" and "ltrim r = []"
    by (auto simp: literal_value_def split: option.splits if_splits)
  then show ?thesis
    by (subst emit_int_list.simps) (simp add: parse_int_comma_local after_operand_def ltrim_comma)
qed

lemma last_piece:
  assumes "CHR '','' \<notin> set p"
  shows "all_int_literals p = (piece_values [p] \<noteq> None)"
    and "piece_values [p] = Some vs \<Longrightarrow> emit_int_list p w = map (emit_width w) vs"
proof -
  have no_comma: "CHR '','' \<notin> set (ltrim r)" if "parse_int p = Some (v, r)" for v r
    using parse_int_no_comma [OF that assms] set_ltrim [of r] by auto
  show "all_int_literals p = (piece_values [p] \<noteq> None)"
  proof (cases "parse_int p")
    case None
    then show ?thesis by (subst all_int_literals.simps) (simp add: literal_value_def)
  next
    case (Some vr)
    obtain v r where "vr = (v, r)" by (cases vr)
    with Some no_comma [of v r] show ?thesis
      by (subst all_int_literals.simps, cases "ltrim r")
        (auto simp: literal_value_def parse_int_blank Let_def)
  qed
  assume vs: "piece_values [p] = Some vs"
  show "emit_int_list p w = map (emit_width w) vs"
  proof (cases "ltrim p = []")
    case True
    with vs show ?thesis
      by (subst emit_int_list.simps) (simp add: parse_int_blank)
  next
    case False
    with vs obtain v r where "parse_int p = Some (v, r)" "ltrim r = []" "vs = [v]"
      by (auto simp: literal_value_def split: option.splits if_splits)
    moreover have "p \<noteq> []" using False by auto
    moreover have "emit_int_list [] w = []" by (subst emit_int_list.simps) simp
    ultimately show ?thesis by (subst emit_int_list.simps) (simp add: after_operand_def)
  qed
qed

lemma literal_list_cases:
  "case piece_values (comma_pieces args) of
     None \<Rightarrow> \<not> all_int_literals args
   | Some vs \<Rightarrow> all_int_literals args \<and> emit_int_list args w = map (emit_width w) vs"
proof (induction args rule: length_induct)
  case (1 p)
  show ?case
  proof (cases rule: split_first_comma [of p])
    case 1
    then show ?thesis using last_piece [of p]
      by (auto simp: comma_pieces_no_comma split: option.splits)
  next
    case (2 l s)
    with "1.IH" have "case piece_values (comma_pieces s) of
       None \<Rightarrow> \<not> all_int_literals s
     | Some vs \<Rightarrow> all_int_literals s \<and> emit_int_list s w = map (emit_width w) vs"
      by auto
    with 2 show ?thesis
      by (auto simp: comma_pieces_comma piece_values_Cons all_int_literals_comma
          emit_int_list_comma split: option.splits)
  qed
qed

text \<open>The test that picks the fast path and the fast path agree with the declarative
  reading of an operand list: \<open>all_int_literals\<close> accepts exactly the lists whose pieces are
  all literals, and on those \<open>emit_int_list\<close> emits every value, in order, and stops nowhere
  early.\<close>

theorem literal_list_equivalence:
  "case piece_values (comma_pieces args) of
     None \<Rightarrow> \<not> all_int_literals args
   | Some vs \<Rightarrow> all_int_literals args \<and> emit_int_list args w = map (emit_width w) vs"
  by (rule literal_list_cases)

subsection \<open>Little-endian emission\<close>

lemma emit_le_bytes:
  "emit_u8 a = le_bytes 1 a" "emit_u16 b = le_bytes 2 b"
  "emit_u32 c = le_bytes 4 c" "emit_u64 d = le_bytes 8 d"
  by (simp_all add: emit_u8_def emit_u16_def emit_u32_def emit_u64_def numeral_eq_Suc
      upt_conv_Cons drop_bit_drop_bit)

text \<open>A value of a data directive is emitted as the low \<open>w\<close> bytes of its two's complement,
  least significant byte first, for each of the four widths.\<close>

theorem emit_width_little_endian:
  assumes "w \<in> {1, 2, 4, 8}"
  shows "length (emit_width w v) = w \<and> int (le_value (emit_width w v)) = v mod 2 ^ (8 * w)"
proof -
  have "length (emit_width w v) = w"
    using assms by (auto simp: emit_width_def emit_le_bytes)
  moreover have "int (le_value (emit_width w v)) = v mod 2 ^ (8 * w)"
    using assms
    by (auto simp: emit_width_def emit_le_bytes le_value_le_bytes zmod_int unsigned_of_int
        take_bit_eq_mod)
  ultimately show ?thesis ..
qed

theorem emit_width_little_endian_witness:
  "(4::nat) \<in> {1, 2, 4, 8} \<and> length (emit_width 4 (-2)) = 4 \<and>
   emit_width 4 (-2) = [0xFE, 0xFF, 0xFF, 0xFF]"
  using emit_width_little_endian [of 4 "-2"] by (simp add: emit_width_def emit_u32_def)

subsection \<open>Reading back printed numbers\<close>

definition digit_char :: "nat \<Rightarrow> char" where
  "digit_char d = (if d < 10 then char_of (48 + d) else char_of (87 + d))"

fun numeral_string :: "nat \<Rightarrow> nat \<Rightarrow> string" where
  "numeral_string base n =
     (if n < base \<or> base < 2 then [digit_char n]
      else numeral_string base (n div base) @ [digit_char (n mod base)])"

declare numeral_string.simps [simp del]

lemma digit_char_eq:
  "d < 16 \<Longrightarrow> (digit_char d = c) = ((if d < 10 then 48 + d else 87 + d) = of_char c)"
  by (auto simp: digit_char_def char_of_eq_iff take_bit_eq_mod)

lemma digit_char_value:
  "d < 16 \<Longrightarrow> digit_value (digit_char d) = Some d"
  by (auto simp: digit_char_def digit_value_def isdigit_def islower_def isupper_def)

lemma digit_char_is_digit: "d < base \<Longrightarrow> base \<le> 16 \<Longrightarrow> is_digit_of base (digit_char d)"
  by (simp add: is_digit_of_def digit_char_value)

lemma scan_digits_numeral:
  assumes "2 \<le> base" and "base \<le> 16"
  shows "scan_digits base acc (numeral_string base n @ r) =
    scan_digits base (acc * base ^ length (numeral_string base n) + n) r"
  using assms
proof (induction base n arbitrary: acc r rule: numeral_string.induct)
  case (1 base n)
  show ?case
  proof (cases "n < base")
    case True
    then show ?thesis using "1.prems"
      by (simp add: numeral_string.simps [of base n] digit_char_is_digit digit_char_value)
  next
    case False
    let ?d = "digit_char (n mod base)"
    have "n mod base < base" using "1.prems" by simp
    moreover from this have "n mod base < 16" using "1.prems" by linarith
    ultimately have d: "is_digit_of base ?d" "digit_value ?d = Some (n mod base)"
      using "1.prems" by (simp_all add: digit_char_is_digit digit_char_value)
    have "scan_digits base acc ((numeral_string base (n div base) @ [?d]) @ r) =
        scan_digits base ((acc * base ^ length (numeral_string base (n div base)) + n div base)
          * base + n mod base) r"
      using "1.IH" [of acc "?d # r"] False "1.prems" d by simp
    moreover have "(acc * base ^ k + n div base) * base + n mod base = acc * base ^ Suc k + n" for k
      by (simp add: algebra_simps)
    ultimately show ?thesis using False "1.prems"
      by (simp add: numeral_string.simps [of base n])
  qed
qed

lemma digit_char_not_space: "d < 16 \<Longrightarrow> \<not> isspace (digit_char d)"
  by (simp add: isspace_def digit_char_eq)

lemma digit_char_zero: "d < 16 \<Longrightarrow> digit_char d = CHR ''0'' \<longleftrightarrow> d = 0"
  by (simp add: digit_char_eq)

lemma numeral_string_hd:
  assumes "2 \<le> base" and "base \<le> 16"
  shows "\<exists>d ds. numeral_string base n = digit_char d # ds \<and> d < base \<and> (d = 0 \<longrightarrow> n = 0)"
  using assms
proof (induction base n rule: numeral_string.induct)
  case (1 base n)
  show ?case
  proof (cases "n < base")
    case True
    then show ?thesis using "1.prems" by (auto simp: numeral_string.simps [of base n])
  next
    case False
    with 1 obtain d ds where "numeral_string base (n div base) = digit_char d # ds"
      "d < base" "d = 0 \<longrightarrow> n div base = 0" by auto
    moreover have "n div base \<noteq> 0" using False "1.prems" by (simp add: div_eq_0_iff)
    ultimately show ?thesis using False "1.prems"
      by (auto simp: numeral_string.simps [of base n])
  qed
qed

lemma strto_magnitude_decimal: "strto_magnitude (numeral_string 10 n) = Some (n, [])"
proof (cases "n = 0")
  case True
  moreover have "digit_char 0 = CHR ''0''" by (simp add: digit_char_eq)
  moreover have "digit_value (CHR ''0'') = Some 0" by (simp add: digit_value_def isdigit_def)
  ultimately show ?thesis by (simp add: numeral_string.simps strto_magnitude_def)
next
  case False
  then obtain d ds where d: "numeral_string 10 n = digit_char d # ds" "d < 10" "d \<noteq> 0"
    using numeral_string_hd [of 10 n] by auto
  then show ?thesis
    using scan_digits_numeral [of 10 0 n "[]"]
    by (auto simp: strto_magnitude_def digit_char_zero digit_char_is_digit simp del: scan_digits.simps(2))
qed

lemma strto_magnitude_hex: "strto_magnitude (''0x'' @ numeral_string 16 n) = Some (n, [])"
proof -
  obtain d ds where d: "numeral_string 16 n = digit_char d # ds" "d < 16"
    using numeral_string_hd [of 16 n] by auto
  then show ?thesis
    using scan_digits_numeral [of 16 0 n "[]"]
    by (auto simp: strto_magnitude_def digit_char_is_digit simp del: scan_digits.simps(2))
qed

lemma parse_int_numeral:
  assumes "strto_magnitude s = Some (n, [])" and "s \<noteq> []" and "hd s = digit_char d" and "d < 10"
  shows "parse_int s = Some (clamp64 (int n), [])"
    and "parse_int (CHR ''-'' # s) = Some (clamp64 (- int n), [])"
proof -
  have "\<not> isspace (hd s)" and "hd s \<noteq> CHR ''-''" and "hd s \<noteq> CHR ''+''"
    using assms(3,4) by (simp_all add: digit_char_not_space digit_char_eq)
  then show "parse_int s = Some (clamp64 (int n), [])"
    using assms(1,2) by (cases s) (auto simp: parse_int_def strtoll0_def)
  show "parse_int (CHR ''-'' # s) = Some (clamp64 (- int n), [])"
    using assms(1) by (simp add: parse_int_def strtoll0_def isspace_def)
qed

lemma parse_int_roundtrip_eqs:
  "parse_int (numeral_string 10 n) = Some (clamp64 (int n), [])"
  "parse_int (CHR ''-'' # numeral_string 10 n) = Some (clamp64 (- int n), [])"
  "parse_int (''0x'' @ numeral_string 16 n) = Some (clamp64 (int n), [])"
proof -
  obtain d ds where d: "numeral_string 10 n = digit_char d # ds" "d < 10"
    using numeral_string_hd [of 10 n] by auto
  then have dec: "numeral_string 10 n \<noteq> []" "hd (numeral_string 10 n) = digit_char d" by simp_all
  have "digit_char 0 = CHR ''0''" by (simp add: digit_char_eq)
  then show "parse_int (numeral_string 10 n) = Some (clamp64 (int n), [])"
    and "parse_int (CHR ''-'' # numeral_string 10 n) = Some (clamp64 (- int n), [])"
    and "parse_int (''0x'' @ numeral_string 16 n) = Some (clamp64 (int n), [])"
    using parse_int_numeral [OF strto_magnitude_decimal dec d(2)]
      parse_int_numeral(1) [where s = "''0x'' @ numeral_string 16 n" and n = n and d = 0]
      strto_magnitude_hex [of n] by simp_all
qed

text \<open>C37. Printing a number and reading it back: a decimal or hexadecimal numeral, and a
  negated decimal one, is consumed to its end and has its value, clamped to the range of
  \<open>int64_t\<close>.\<close>

theorem parse_int_roundtrip:
  "parse_int (numeral_string 10 n) = Some (clamp64 (int n), []) \<and>
   parse_int (CHR ''-'' # numeral_string 10 n) = Some (clamp64 (- int n), []) \<and>
   parse_int (''0x'' @ numeral_string 16 n) = Some (clamp64 (int n), [])"
  by (simp add: parse_int_roundtrip_eqs parse_int_roundtrip_eqs [simplified])

text \<open>C40. Literals above the range of \<open>int64_t\<close> are not wrapped but clamped: a \<open>.quad\<close> of
  any hexadecimal numeral from \<open>2 ^ 63\<close> on passes the literal test and is emitted as
  \<open>0x7fffffffffffffff\<close>, so the upper half of the unsigned 64-bit values cannot be written on
  the fast path.\<close>

theorem quad_literal_saturates:
  assumes "2 ^ 63 \<le> n"
  shows "all_int_literals (''0x'' @ numeral_string 16 n) \<and>
    emit_int_list (''0x'' @ numeral_string 16 n) 8 = [le_bytes 8 (0x7FFFFFFFFFFFFFFF :: u64)]"
proof -
  let ?p = "''0x'' @ numeral_string 16 n"
  have "(2::int) ^ 63 \<le> int n" using assms by (metis of_nat_le_iff of_nat_numeral of_nat_power)
  then have v: "parse_int ?p = Some (0x7FFFFFFFFFFFFFFF, [])"
    using parse_int_roundtrip_eqs(3) [of n] by (simp add: clamp64_def)
  moreover have "\<not> isspace (CHR ''0'')" by (simp add: isspace_def)
  moreover have "emit_int_list [] 8 = []" by (subst emit_int_list.simps) simp
  ultimately show ?thesis
    by (subst all_int_literals.simps, subst emit_int_list.simps)
      (simp add: Let_def after_operand_def emit_width_def emit_le_bytes)
qed

theorem quad_literal_saturates_witness:
  "(2::nat) ^ 63 \<le> 2 ^ 64 - 1 \<and>
   emit_int_list (''0x'' @ numeral_string 16 (2 ^ 64 - 1)) 8
     = [[0xFF, 0xFF, 0xFF, 0xFF, 0xFF, 0xFF, 0xFF, 0x7F]]"
proof -
  have bound: "(2::nat) ^ 63 \<le> 2 ^ 64 - 1" by simp
  have "le_bytes 8 (0x7FFFFFFFFFFFFFFF :: u64)
      = [0xFF, 0xFF, 0xFF, 0xFF, 0xFF, 0xFF, 0xFF, 0x7F]" by code_simp
  with bound quad_literal_saturates [OF bound] show ?thesis by metis
qed

lemma parse_args_comma:
  assumes "CHR '','' \<notin> set l" and "n < m"
  shows "parse_args_loop (l @ CHR '','' # s) m n out =
    (case parse_int l of
       None \<Rightarrow> (-1, out)
     | Some (v, r) \<Rightarrow>
         if ltrim r = [] then parse_args_loop s m (Suc n) (out[n := v]) else (-1, out[n := v]))"
proof (cases "parse_int l")
  case None
  then show ?thesis
    using assms(2)
    by (subst parse_args_loop.simps) (simp add: Let_def parse_int_comma_local ltrim_comma
        flip: parse_int_ltrim [of "l @ CHR '','' # s"])
next
  case (Some vr)
  obtain v r where vr: "vr = (v, r)" by (cases vr)
  have "CHR '','' \<notin> set (ltrim r)"
    using parse_int_no_comma [of l v r] Some vr assms(1) set_ltrim [of r] by auto
  moreover have "parse_int (ltrim l @ CHR '','' # s) = Some (v, r @ CHR '','' # s)"
    using parse_int_comma_local [of "ltrim l" s] Some vr by simp
  ultimately show ?thesis
    using Some vr assms(2)
    by (subst parse_args_loop.simps, cases "ltrim r") (auto simp: Let_def ltrim_comma)
qed

lemma parse_args_last:
  assumes "CHR '','' \<notin> set p" and "n < m"
  shows "parse_args_loop p m n out =
    (if ltrim p = [] then (int n, out) else
     case parse_int p of
       None \<Rightarrow> (-1, out)
     | Some (v, r) \<Rightarrow> if ltrim r = [] then (int (Suc n), out[n := v]) else (-1, out[n := v]))"
proof (cases "parse_int p")
  case None
  then show ?thesis using assms(2) by (subst parse_args_loop.simps) (simp add: Let_def)
next
  case (Some vr)
  obtain v r where vr: "vr = (v, r)" by (cases vr)
  have "CHR '','' \<notin> set (ltrim r)"
    using parse_int_no_comma [of p v r] Some vr assms(1) set_ltrim [of r] by auto
  then show ?thesis
    using Some vr assms(2)
    by (subst parse_args_loop.simps, cases "ltrim r") (auto simp: Let_def)
qed

text \<open>\<open>args_result m n out pv\<close>: what the loop returns from position \<open>n\<close> on when the pieces
  still to read have the values \<open>pv\<close>.\<close>

definition args_result :: "nat \<Rightarrow> nat \<Rightarrow> int list \<Rightarrow> int list option \<Rightarrow> int \<times> int list \<Rightarrow> bool" where
  "args_result m n out pv res =
     (case pv of
        None \<Rightarrow> fst res = -1
      | Some vs \<Rightarrow>
          if n + length vs \<le> m
          then res = (int (n + length vs), take n out @ vs @ drop (n + length vs) out)
          else fst res = -1)"

lemma piece_values_blank: "(piece_values (comma_pieces p) = Some []) = (ltrim p = [])"
proof (cases rule: split_first_comma [of p])
  case 1
  then show ?thesis by (simp add: comma_pieces_no_comma)
next
  case (2 l s)
  then show ?thesis
    by (auto simp: comma_pieces_comma piece_values_Cons ltrim_comma split: option.splits)
qed

lemma parse_args_loop_result:
  assumes "n \<le> m" and "m \<le> length out"
  shows "args_result m n out (piece_values (comma_pieces p)) (parse_args_loop p m n out)"
  using assms
proof (induction p arbitrary: n out rule: length_induct)
  case (1 p)
  show ?case
  proof (cases "n = m")
    case True
    then show ?thesis
      using piece_values_blank [of p]
      by (subst parse_args_loop.simps)
        (auto simp: args_result_def split: option.splits)
  next
    case False
    with "1.prems" have n: "n < m" "n < length out" by simp_all
    show ?thesis
    proof (cases rule: split_first_comma [of p])
      case 1
      then show ?thesis
        using n upd_conv_take_nth_drop [of n out]
        by (auto simp: comma_pieces_no_comma parse_args_last args_result_def literal_value_def
            split: option.splits)
    next
      case (2 l s)
      have IH: "args_result m (Suc n) (out[n := v]) (piece_values (comma_pieces s))
          (parse_args_loop s m (Suc n) (out[n := v]))" for v
        using "1.IH" 2 n "1.prems"(2) by simp
      have "take (Suc n) (out[n := v]) = take n out @ [v]" for v
        using n by (simp add: take_Suc_conv_app_nth)
      with 2 n IH show ?thesis
        by (auto simp: comma_pieces_comma piece_values_Cons parse_args_comma literal_value_def
            args_result_def split: option.splits if_splits)
    qed
  qed
qed

text \<open>The operand reader of the layout directives, \<open>parse_int_args\<close>, returns the number
  of operands and stores them over the defaults exactly when the text is a list of at most
  \<open>max_args\<close> literals; later entries keep their defaults, and any other text is \<open>-1\<close>.\<close>

theorem parse_int_args_spec:
  assumes "max_args \<le> length out"
  shows "case piece_values (comma_pieces args) of
      None \<Rightarrow> fst (parse_int_args args out max_args) = -1
    | Some vs \<Rightarrow>
        if length vs \<le> max_args
        then parse_int_args args out max_args = (int (length vs), vs @ drop (length vs) out)
        else fst (parse_int_args args out max_args) = -1"
  using parse_args_loop_result [of 0 max_args out args] assms
  by (auto simp: parse_int_args_def args_result_def split: option.splits)

theorem parse_int_args_spec_witness:
  "2 \<le> length [0, 7 :: int] \<and> parse_int_args ''0x10'' [0, 7] 2 = (1, [16, 7])"
proof -
  have "comma_pieces ''0x10'' = [''0x10'']" by simp
  moreover have "numeral_string 16 16 = ''10''"
    by (simp add: numeral_string.simps digit_char_eq)
  then have "piece_values [''0x10''] = Some [16]"
    using parse_int_roundtrip_eqs(3) [of 16]
    by (simp add: literal_value_def clamp64_def isspace_def)
  ultimately show ?thesis
    using parse_int_args_spec [of 2 "[0, 7]" "''0x10''"] by simp
qed

end
