(* ===== verification/Directives.thy ===== *)
theory Directives
  imports Glue_Interface Literals
begin

text \<open>
  \<open>handle_directive\<close> of \<^verbatim>\<open>src/src/nyxstone.cpp\<close> with everything it dispatches to:
  data lists, strings (\<open>emit_ascii\<close>), fill, \<open>.org\<close>, alignment, symbol assignment, and the
  rule that only \<open>.text\<close> sections may be selected. A handler takes the glue interface and the
  driver state and returns the new state.
\<close>

definition emit :: "'g glue \<Rightarrow> byte list \<Rightarrow> 'g driver \<Rightarrow> 'g driver" where
  "emit gl bs = on_gas (g_emit_bytes gl bs)"

definition bytes_of_string :: "string \<Rightarrow> byte list" where
  "bytes_of_string s = map of_char s"

subsection \<open>Strings\<close>

definition unescape :: "char \<Rightarrow> char" where
  "unescape c =
     (if c = CHR ''n'' then NEWLINE
      else if c = CHR ''t'' then CHR 0x09
      else if c = CHR ''r'' then CHR 0x0D
      else if c = CHR ''0'' then NUL
      else c)"

text \<open>The inner loop: the decoded literal, and the text from the closing quote on (empty when
  there is none).\<close>

fun read_quoted :: "string \<Rightarrow> string \<times> string" where
  "read_quoted [] = ([], [])"
| "read_quoted (c # s) =
     (if c = QUOTE then ([], c # s)
      else if c = BACKSLASH \<and> s \<noteq> [] then
        (let (out, r) = read_quoted (tl s) in (unescape (hd s) # out, r))
      else (let (out, r) = read_quoted s in (c # out, r)))"

lemma length_read_quoted: "length (snd (read_quoted s)) \<le> length s"
  by (induction s rule: read_quoted.induct) (auto simp: case_prod_unfold Let_def le_SucI)

function emit_ascii_loop ::
    "'g glue \<Rightarrow> string \<Rightarrow> string \<Rightarrow> bool \<Rightarrow> bool \<Rightarrow> string \<Rightarrow> 'g driver \<Rightarrow> 'g driver" where
  "emit_ascii_loop gl d args zero_term found p st =
     (let q = ltrim p in
      if q = [] then
        (if found then st else directive_error (d @ '': expected a quoted string'') st)
      else if hd q \<noteq> QUOTE then
        directive_error (d @ '': expected a quoted string, got '' @ [CHR 0x27] @ args @ [CHR 0x27]) st
      else (let (out, r) = read_quoted (tl q) in
        if r = [] then directive_error (d @ '': unterminated string'') st
        else emit_ascii_loop gl d args zero_term True (after_operand (tl r))
          ((if zero_term then emit gl (emit_u8 0) else (\<lambda>s. s)) (emit gl (bytes_of_string out) st))))"
  by pat_completeness auto
termination
proof (relation "measure (\<lambda>(gl, d, args, z, f, p, st). length p)", goal_cases)
  case (2 gl d args zero_term found p st q z out r)
  have r: "length r \<le> length (tl q)" using length_read_quoted [of "tl q"] 2 by (metis snd_conv)
  have q: "length q \<le> length p" "q \<noteq> []" using 2 by simp_all
  have "length (after_operand (tl r)) \<le> length (tl r)" by (rule length_after_operand)
  also have "\<dots> \<le> length r" by simp
  also note r
  also have "length (tl q) < length q" using q(2) by simp
  also note q(1)
  finally show ?case by simp
qed simp

declare emit_ascii_loop.simps [simp del]

definition emit_ascii ::
    "'g glue \<Rightarrow> string \<Rightarrow> string \<Rightarrow> bool \<Rightarrow> 'g driver \<Rightarrow> 'g driver" where
  "emit_ascii gl d args zero_term st = emit_ascii_loop gl d args zero_term False args st"

subsection \<open>The other directives\<close>

definition data_width :: "string \<Rightarrow> nat" where
  "data_width d =
     (if d = ''.byte'' then 1
      else if d \<in> set [''.half'', ''.hword'', ''.short'', ''.2byte''] then 2
      else if d \<in> set [''.word'', ''.int'', ''.long'', ''.4byte''] then 4
      else if d \<in> set [''.quad'', ''.8byte''] then 8
      else 0)"

definition handle_data :: "'g glue \<Rightarrow> string \<Rightarrow> nat \<Rightarrow> 'g driver \<Rightarrow> 'g driver" where
  "handle_data gl args w st =
     (if all_int_literals args then fold (emit gl) (emit_int_list args w) st
      else on_gas (g_emit_cons gl (c_str args) w) st)"

definition got :: "string \<Rightarrow> string" where
  "got args = '', got '' @ [CHR 0x27] @ args @ [CHR 0x27]"

definition handle_skip :: "'g glue \<Rightarrow> string \<Rightarrow> string \<Rightarrow> 'g driver \<Rightarrow> 'g driver" where
  "handle_skip gl d args st =
     (let (n_args, vals) = parse_int_args args [0, 0] (if d = ''.zero'' then 1 else 2)
      in if n_args < 1 then directive_error (d @ '': expected a size operand'' @ got args) st
         else if vals ! 0 < 0 then directive_error (d @ '': negative size'') st
         else if vals ! 0 > 0 then emit gl (replicate (nat (vals ! 0)) (word_of_int (vals ! 1))) st
         else st)"

definition handle_org :: "'g glue \<Rightarrow> string \<Rightarrow> string \<Rightarrow> 'g driver \<Rightarrow> 'g driver" where
  "handle_org gl d args st =
     (let (n_args, vals) = parse_int_args args [0, 0] 2
      in if n_args < 1 then directive_error (d @ '': expected an offset operand'' @ got args) st
         else if vals ! 0 < 0 then directive_error (d @ '': negative offset'') st
         else on_gas (g_org gl (word_of_int (vals ! 0)) (word_of_int (vals ! 1))) st)"

text \<open>The loop that finds the exponent of a \<open>.balign\<close> operand.\<close>

function exponent_from :: "int \<Rightarrow> nat \<Rightarrow> nat" where
  "exponent_from b p2 = (if 2 ^ p2 < b then exponent_from b (Suc p2) else p2)"
  by pat_completeness auto
termination
  by (relation "measure (\<lambda>(b, p2). nat (b - 2 ^ p2))") (auto simp: nat_mono_iff)

declare exponent_from.simps [simp del]

definition align_exponent :: "string \<Rightarrow> int \<Rightarrow> string + nat" where
  "align_exponent d v =
     (if d = ''.balign'' then
        (if v \<le> 0 \<or> v AND (v - 1) \<noteq> 0 then Inl (d @ '': alignment is not a power of 2'')
         else Inr (exponent_from v 0))
      else if v < 0 \<or> v > 30 then Inl (d @ '': alignment exponent out of range (0..30)'')
      else Inr (nat v))"

definition handle_align :: "'g glue \<Rightarrow> string \<Rightarrow> string \<Rightarrow> 'g driver \<Rightarrow> 'g driver" where
  "handle_align gl d args st =
     (let (n_args, vals) = parse_int_args args [0, 0, 0] 3
      in if n_args < 1 then directive_error (d @ '': expected an alignment operand'' @ got args) st
         else case align_exponent d (vals ! 0) of
             Inl msg \<Rightarrow> directive_error msg st
           | Inr p2 \<Rightarrow>
               on_gas (g_align gl (of_nat p2) (word_of_int (vals ! 1))
                 (if n_args \<ge> 3 \<and> vals ! 2 > 0 then word_of_int (vals ! 2) else 0)) st)"

definition handle_set :: "'g glue \<Rightarrow> string \<Rightarrow> string \<Rightarrow> 'g driver \<Rightarrow> 'g driver" where
  "handle_set gl d args st =
     (let name = rtrim (takeWhile (\<lambda>c. c \<noteq> CHR '','') args);
          rest = dropWhile (\<lambda>c. c \<noteq> CHR '','') args;
          expr = (if rest = [] then [] else rtrim (ltrim (tl rest)))
      in if name = [] \<or> expr = [] then
           directive_error (d @ '': expected '' @ [CHR 0x27] @ ''name, expression'' @ [CHR 0x27] @ got args) st
         else on_gas (g_set_sym gl (c_str name) (c_str expr)) st)"

definition section_name :: "string \<Rightarrow> string" where
  "section_name args = takeWhile (\<lambda>c. \<not> isspace c \<and> c \<noteq> CHR '','') (ltrim args)"

definition is_text_section :: "string \<Rightarrow> bool" where
  "is_text_section secname \<longleftrightarrow>
     secname = ''.text'' \<or> (length secname > 5 \<and> take 6 secname = ''.text.'')"

definition section_directives :: "string list" where
  "section_directives = [''.data'', ''.bss'', ''.rodata'', ''.sdata'', ''.sbss'', ''.tdata'',
     ''.tbss'', ''.pushsection'', ''.previous'']"

definition metadata_directives :: "string list" where
  "metadata_directives = [''.global'', ''.globl'', ''.local'', ''.weak'', ''.type'', ''.size'',
     ''.file'', ''.ident'', ''.syntax'', ''.cpu'', ''.arch'', ''.extern'', ''.end'']"

text \<open>The directive word and its trimmed operand text.\<close>

definition directive_word :: "string \<Rightarrow> string" where
  "directive_word line = takeWhile (\<lambda>c. \<not> isspace c) line"

definition directive_args :: "string \<Rightarrow> string" where
  "directive_args line =
     (let rest = dropWhile (\<lambda>c. \<not> isspace c) line
      in rtrim (ltrim (if rest = [] then [] else tl rest)))"

text \<open>The return value is \<open>True\<close> when the line was a recognised directive.\<close>

definition handle_directive :: "'g glue \<Rightarrow> string \<Rightarrow> 'g driver \<Rightarrow> bool \<times> 'g driver" where
  "handle_directive gl line st =
     (let d = directive_word line; args = directive_args line in
      if data_width d \<noteq> 0 then (True, handle_data gl args (data_width d) st)
      else if d = ''.ascii'' then (True, emit_ascii gl d args False st)
      else if d = ''.asciz'' \<or> d = ''.string'' then (True, emit_ascii gl d args True st)
      else if d = ''.skip'' \<or> d = ''.space'' \<or> d = ''.zero'' then (True, handle_skip gl d args st)
      else if d = ''.org'' then (True, handle_org gl d args st)
      else if d = ''.align'' \<or> d = ''.p2align'' \<or> d = ''.balign'' then (True, handle_align gl d args st)
      else if d = ''.equ'' \<or> d = ''.set'' then (True, handle_set gl d args st)
      else if d = ''.text'' then (True, st)
      else if d = ''.section'' then
        (True, if is_text_section (section_name args) then st else violate_section st)
      else if d \<in> set section_directives then (True, violate_section st)
      else if d \<in> set metadata_directives then (True, st)
      else (False, st))"

subsection \<open>The handlers commute with a simulation of the glue\<close>

context glue_simulation
begin

lemma lift_emit [frame_simps]: "lift (emit src bs s) = emit dst bs (lift s)"
  by (simp add: emit_def frame_simps)

lemma lift_fold_emit [frame_simps]: "lift (fold (emit src) bss s) = fold (emit dst) bss (lift s)"
  by (induction bss arbitrary: s) (simp_all add: frame_simps)

lemma lift_emit_ascii_loop:
  "lift (emit_ascii_loop src d args z f p s) = emit_ascii_loop dst d args z f p (lift s)"
proof (induction gl\<equiv>src d args z f p s rule: emit_ascii_loop.induct)
  case (1 d args z f p s)
  show ?case
  proof (cases "ltrim p \<noteq> [] \<and> hd (ltrim p) = QUOTE \<and> snd (read_quoted (tl (ltrim p))) \<noteq> []")
    case True
    then show ?thesis
      using "1.hyps" [OF refl]
      by (subst (1 2) emit_ascii_loop.simps) (simp add: Let_def case_prod_unfold frame_simps)
  next
    case False
    then show ?thesis
      by (subst (1 2) emit_ascii_loop.simps) (auto simp: Let_def case_prod_unfold frame_simps)
  qed
qed

lemma lift_handlers [frame_simps]:
  "lift (emit_ascii src d args z s) = emit_ascii dst d args z (lift s)"
  "lift (handle_data src args w s) = handle_data dst args w (lift s)"
  "lift (handle_skip src d args s) = handle_skip dst d args (lift s)"
  "lift (handle_org src d args s) = handle_org dst d args (lift s)"
  "lift (handle_align src d args s) = handle_align dst d args (lift s)"
  "lift (handle_set src d args s) = handle_set dst d args (lift s)"
  by (simp_all add: emit_ascii_def lift_emit_ascii_loop handle_data_def handle_skip_def
      handle_org_def handle_align_def handle_set_def Let_def case_prod_unfold frame_simps
      split: sum.splits)

lemma lift_handle_directive:
  "handle_directive dst line (lift s) = map_prod id lift (handle_directive src line s)"
  by (simp add: handle_directive_def Let_def frame_simps)

end

subsection \<open>Strings are decoded exactly\<close>

text \<open>The shortest way to write a byte string as a literal: escape quotes and backslashes.\<close>

definition escape_char :: "char \<Rightarrow> string" where
  "escape_char c = (if c = QUOTE \<or> c = BACKSLASH then [BACKSLASH, c] else [c])"

definition quoted :: "string \<Rightarrow> string" where
  "quoted s = QUOTE # concat (map escape_char s) @ [QUOTE]"

fun quoted_list :: "string list \<Rightarrow> string" where
  "quoted_list [] = []"
| "quoted_list [s] = quoted s"
| "quoted_list (s # ss) = quoted s @ CHR '','' # quoted_list ss"

lemma read_quoted_escaped:
  "read_quoted (concat (map escape_char s) @ QUOTE # r) = (s, QUOTE # r)"
  by (induction s) (auto simp: escape_char_def unescape_def)

text \<open>What one string of the list emits.\<close>

definition emit_string :: "'g glue \<Rightarrow> bool \<Rightarrow> string \<Rightarrow> 'g driver \<Rightarrow> 'g driver" where
  "emit_string gl zero_term s st =
     (if zero_term then emit gl (emit_u8 0) (emit gl (bytes_of_string s) st)
      else emit gl (bytes_of_string s) st)"

lemma emit_ascii_loop_step:
  "emit_ascii_loop gl d args z f (quoted s @ t) st =
     emit_ascii_loop gl d args z True (after_operand t) (emit_string gl z s st)"
  by (subst emit_ascii_loop.simps)
    (simp add: quoted_def isspace_def read_quoted_escaped emit_string_def Let_def)

lemma emit_ascii_loop_end [simp]: "emit_ascii_loop gl d args z True [] st = st"
  by (subst emit_ascii_loop.simps) simp

lemma emit_ascii_loop_list:
  "ss \<noteq> [] \<Longrightarrow> emit_ascii_loop gl d args z f (quoted_list ss) st = fold (emit_string gl z) ss st"
proof (induction ss arbitrary: f st rule: quoted_list.induct)
  case (2 s)
  then show ?case using emit_ascii_loop_step [of gl d args z f s "[]" st]
    by (simp add: after_operand_def)
next
  case (3 s t ss)
  have "after_operand (CHR '','' # quoted_list (t # ss)) = quoted_list (t # ss)"
    by (simp add: after_operand_def)
  with 3 show ?case by (simp add: emit_ascii_loop_step)
qed simp

text \<open>Strings round-trip: for any non-empty list of byte strings, written as literals with
  quotes and backslashes escaped, \<open>emit_ascii\<close> emits exactly these bytes, in order, each followed
  by a zero byte for \<open>.asciz\<close>, and reports no error.\<close>

theorem emit_ascii_roundtrip:
  assumes "ss \<noteq> []"
  shows "emit_ascii gl d (quoted_list ss) zero_term st = fold (emit_string gl zero_term) ss st"
  using assms by (simp add: emit_ascii_def emit_ascii_loop_list)

theorem emit_ascii_roundtrip_witness:
  "[''a;b'', [QUOTE]] \<noteq> [] \<and>
   gas (emit_ascii recorder ''.asciz'' (quoted_list [''a;b'', [QUOTE]]) True
     \<lparr>gas = [], g_section_violation = False, g_directive_error = []\<rparr>)
     = [Emit_bytes [97, 59, 98], Emit_bytes [0], Emit_bytes [34], Emit_bytes [0]]"
  using emit_ascii_roundtrip [of "[''a;b'', [QUOTE]]" recorder "''.asciz''" True]
  by (simp add: emit_string_def emit_def bytes_of_string_def emit_u8_def)

subsection \<open>Alignment operands\<close>

lemma and_pred_rec:
  "(2 * w) AND (2 * w - 1) = 2 * (w AND (w - 1))" "(2 * w + 1) AND (2 * w) = 2 * w" for w :: int
proof -
  have "(2 * w - 1) div 2 = w - 1" by presburger
  then show "(2 * w) AND (2 * w - 1) = 2 * (w AND (w - 1))"
    by (subst and_int_rec) simp
  show "(2 * w + 1) AND (2 * w) = 2 * w"
    by (subst and_int_rec) simp
qed

lemma power_of_two_test: "0 < v \<Longrightarrow> (v AND (v - 1) = 0) = (\<exists>p. v = 2 ^ p)" for v :: int
proof (induction "nat v" arbitrary: v rule: less_induct)
  case less
  show ?case
  proof (cases "even v")
    case True
    then obtain w where w: "v = 2 * w" by (elim evenE)
    with less.prems less.hyps [of w] have "(w AND (w - 1) = 0) = (\<exists>p. w = 2 ^ p)" by simp
    moreover have "(\<exists>p. w = 2 ^ p) = (\<exists>p. v = 2 ^ p)"
    proof
      assume "\<exists>p. w = 2 ^ p"
      then obtain p where "w = 2 ^ p" ..
      with w have "v = 2 ^ Suc p" by simp
      then show "\<exists>p. v = 2 ^ p" ..
    next
      assume "\<exists>p. v = 2 ^ p"
      then obtain p where p: "v = 2 ^ p" ..
      with True obtain q where "p = Suc q" by (cases p) auto
      with p w show "\<exists>p. w = 2 ^ p" by auto
    qed
    ultimately show ?thesis using w by (simp add: and_pred_rec)
  next
    case False
    then obtain w where w: "v = 2 * w + 1" by (elim oddE)
    have "(v = 2 ^ p) = (v = 1 \<and> p = 0)" for p
      using False by (cases p) auto
    with w show ?thesis by (auto simp: and_pred_rec)
  qed
qed

lemma exponent_from_power: "q \<le> p \<Longrightarrow> exponent_from (2 ^ p) q = p"
proof (induction "p - q" arbitrary: q)
  case 0
  then show ?case by (subst exponent_from.simps) simp
next
  case (Suc k)
  then show ?case by (subst exponent_from.simps) auto
qed

text \<open>The operand of \<open>.balign\<close> is accepted exactly when it is a power of two, and then
  the exponent handed to gas is its logarithm, at most 62 for an \<open>int64_t\<close>, so the shift in the
  loop never overflows; \<open>.align\<close> and \<open>.p2align\<close> accept exactly the exponents 0 to 30.\<close>

theorem align_exponent_spec:
  assumes "v < 2 ^ 63"
  shows "(align_exponent ''.balign'' v = Inr p) = (v = 2 ^ p \<and> p \<le> 62) \<and>
    (align_exponent ''.align'' v = Inr p) = (v = int p \<and> p \<le> 30) \<and>
    (align_exponent ''.p2align'' v = Inr p) = (v = int p \<and> p \<le> 30)"
proof -
  have bound: "p \<le> 62" if "v = 2 ^ p"
  proof -
    have "(2::int) ^ p < 2 ^ 63" using that assms by simp
    then have "p < 63" by (rule power_less_imp_less_exp [rotated]) simp
    then show ?thesis by simp
  qed
  have "(align_exponent ''.balign'' v = Inr p) = (v = 2 ^ p \<and> p \<le> 62)"
    using power_of_two_test [of v] exponent_from_power [of 0] bound
    by (auto simp: align_exponent_def)
  moreover have "(align_exponent ''.align'' v = Inr p) = (v = int p \<and> p \<le> 30)"
    and "(align_exponent ''.p2align'' v = Inr p) = (v = int p \<and> p \<le> 30)"
    by (auto simp: align_exponent_def)
  ultimately show ?thesis by blast
qed

theorem align_exponent_spec_witness:
  "(16::int) < 2 ^ 63 \<and> align_exponent ''.balign'' 16 = Inr 4"
  using align_exponent_spec [of 16 4] by simp

subsection \<open>Only text sections, first error wins\<close>

definition selects_other_section :: "string \<Rightarrow> bool" where
  "selects_other_section line \<longleftrightarrow>
     directive_word line \<in> set section_directives \<or>
     (directive_word line = ''.section'' \<and> \<not> is_text_section (section_name (directive_args line)))"

lemma emit_flags [simp]:
  "g_section_violation (emit gl bs st) = g_section_violation st"
  "g_directive_error (emit gl bs st) = g_directive_error st"
  by (simp_all add: emit_def)

lemma violation_frame [simp]: "g_section_violation (directive_error msg st) = g_section_violation st"
  by (simp add: directive_error_def)

lemma violation_fold_emit [simp]: "g_section_violation (fold (emit gl) bss st) = g_section_violation st"
  by (induction bss arbitrary: st) simp_all

lemma violation_emit_ascii [simp]:
  "g_section_violation (emit_ascii_loop gl d args z f p st) = g_section_violation st"
  by (induction gl d args z f p st rule: emit_ascii_loop.induct)
    (subst emit_ascii_loop.simps, auto simp: Let_def case_prod_unfold)

lemma violation_handlers [simp]:
  "g_section_violation (emit_ascii gl d args z st) = g_section_violation st"
  "g_section_violation (handle_data gl args w st) = g_section_violation st"
  "g_section_violation (handle_skip gl d args st) = g_section_violation st"
  "g_section_violation (handle_org gl d args st) = g_section_violation st"
  "g_section_violation (handle_align gl d args st) = g_section_violation st"
  "g_section_violation (handle_set gl d args st) = g_section_violation st"
  by (simp_all add: emit_ascii_def handle_data_def handle_skip_def handle_org_def handle_align_def
      handle_set_def Let_def case_prod_unfold split: sum.splits)

text \<open>The section flag is raised by exactly the directives that select a section other than
  \<open>.text\<close> or \<open>.text.*\<close>, and no directive clears it.\<close>

lemma violation_directive [simp]:
  "g_section_violation (snd (handle_directive gl line st)) =
     (g_section_violation st \<or> selects_other_section line)"
  by (auto simp: handle_directive_def Let_def selects_other_section_def violate_section_def
      data_width_def section_directives_def split: if_splits)

end
