(* ===== verification/Parse.thy ===== *)
theory Parse
  imports Scanner Directives
begin

text \<open>
  The parse phase of \<open>do_assemble\<close> in \<^verbatim>\<open>src/src/nyxstone.cpp\<close>: the \<open>process\<close> lambda
  (comment and blank removal, all leading label prefixes, dispatch to a directive or to the
  encoder) run over the statements of the comment-free source. The theory proves that what the
  parse phase calls is a function of the source text alone (the trace), that its error flags are
  sticky, and how comments and quotes interact across statements.
\<close>

subsection \<open>Label prefixes\<close>

definition label_char :: "char \<Rightarrow> bool" where
  "label_char c \<longleftrightarrow> isalnum c \<or> c = CHR ''_'' \<or> c = CHR ''.'' \<or> c = CHR ''$''"

text \<open>\<open>static_cast<unsigned int>(std::strtoul(name, nullptr, 10))\<close> for a digit string: the value
  clamps at \<open>ULONG_MAX\<close> and is then cut to 32 bits.\<close>

definition label_number :: "string \<Rightarrow> u32" where
  "label_number name = of_nat (min (fst (scan_digits 10 0 name)) (2 ^ 64 - 1))"

definition define_label :: "'g glue \<Rightarrow> string \<Rightarrow> 'g driver \<Rightarrow> 'g driver" where
  "define_label gl name =
     (if \<forall>c \<in> set name. isdigit c then on_gas (g_fb_label gl (label_number name))
      else on_gas (g_colon gl name))"

text \<open>The label loop: what is left of the line once no label prefix is in front of it.\<close>

function strip_labels :: "'g glue \<Rightarrow> string \<Rightarrow> 'g driver \<Rightarrow> string \<times> 'g driver" where
  "strip_labels gl line st =
     (let name = takeWhile label_char line; rest = dropWhile label_char line in
      if name = [] \<or> rest = [] \<or> hd rest \<noteq> CHR '':'' then (line, st)
      else strip_labels gl (ltrim (tl rest)) (define_label gl name st))"
  by pat_completeness auto
termination
proof (relation "measure (\<lambda>(gl, line, st). length line)", goal_cases)
  case (2 gl line st name rest)
  have "length (ltrim (tl rest)) \<le> length (tl rest)" by (rule length_ltrim)
  also have "\<dots> < length rest" using 2 by simp
  also have "length rest \<le> length line" using 2 by (simp add: length_dropWhile_le)
  finally show ?case by simp
qed simp

declare strip_labels.simps [simp del]

subsection \<open>Statements\<close>

definition statement_text :: "string \<Rightarrow> string" where
  "statement_text line = rtrim (strip_comment (ltrim line))"

definition dispatch :: "'g glue \<Rightarrow> string \<Rightarrow> 'g driver \<Rightarrow> 'g driver" where
  "dispatch gl line st =
     (if hd line = CHR ''.'' then
        (let (known, st') = handle_directive gl line st
         in if known then st'
            else directive_error (''unsupported directive '' @ [CHR 0x27] @ directive_word line @ [CHR 0x27]) st')
      else on_gas (g_md_assemble gl (c_str line)) st)"

definition process :: "'g glue \<Rightarrow> string \<Rightarrow> 'g driver \<Rightarrow> 'g driver" where
  "process gl raw st =
     (let line = statement_text raw in
      if line = [] then st
      else (let (line', st') = strip_labels gl line st
            in if line' = [] then st' else dispatch gl line' st'))"

definition parse_source :: "'g glue \<Rightarrow> string \<Rightarrow> 'g driver \<Rightarrow> 'g driver" where
  "parse_source gl source st = fold (process gl) (split_statements (strip_block_comments source)) st"

subsection \<open>The trace of a source text\<close>

context glue_simulation
begin

lemma lift_define_label [frame_simps]: "lift (define_label src name s) = define_label dst name (lift s)"
  by (simp add: define_label_def frame_simps)

lemma lift_strip_labels:
  "strip_labels dst line (lift s) = map_prod id lift (strip_labels src line s)"
proof (induction gl\<equiv>src line s rule: strip_labels.induct)
  case (1 line s)
  then show ?case
    by (subst (1 2) strip_labels.simps) (simp add: Let_def frame_simps)
qed

lemma lift_dispatch [frame_simps]: "lift (dispatch src line s) = dispatch dst line (lift s)"
  by (simp add: dispatch_def lift_handle_directive Let_def case_prod_unfold frame_simps)

lemma lift_process [frame_simps]: "lift (process src raw s) = process dst raw (lift s)"
  by (simp add: process_def Let_def lift_strip_labels case_prod_unfold frame_simps)

lemma lift_parse_source: "lift (parse_source src source s) = parse_source dst source (lift s)"
proof -
  have "lift (fold (process src) ss s) = fold (process dst) ss (lift s)" for ss
    by (induction ss arbitrary: s) (simp_all add: frame_simps)
  then show ?thesis by (simp add: parse_source_def)
qed

end

text \<open>The driver state \<open>do_assemble\<close> starts to parse in.\<close>

definition fresh :: "'g \<Rightarrow> 'g driver" where
  "fresh g = \<lparr>gas = g, g_section_violation = False, g_directive_error = []\<rparr>"

definition parsed :: "string \<Rightarrow> glue_call list driver" where
  "parsed source = parse_source recorder source (fresh [])"

lemma parse_source_trace:
  "parse_source gl source (fresh g) =
     \<lparr>gas = fold (perform gl) (gas (parsed source)) g,
      g_section_violation = g_section_violation (parsed source),
      g_directive_error = g_directive_error (parsed source)\<rparr>"
proof -
  have "fresh g = replay.lift gl g (fresh [])"
    by (simp add: replay.lift_def fresh_def replay_def)
  then show ?thesis
    using replay.lift_parse_source [of gl g source "fresh []"]
    by (simp add: parsed_def replay.lift_def replay_def)
qed

text \<open>C13. The parse phase is a function of the source text: on any implementation of the glue it
  performs exactly the recorded calls, in their order, and ends with the same error flags. It
  never looks at gas before all of the source is read.\<close>

theorem parse_replays_trace:
  "parse_source gl source (fresh g) =
     \<lparr>gas = fold (perform gl) (gas (parsed source)) g,
      g_section_violation = g_section_violation (parsed source),
      g_directive_error = g_directive_error (parsed source)\<rparr>"
  by (rule parse_source_trace)

subsection \<open>Sticky flags\<close>

text \<open>An operation keeps a reported error when it leaves the message of a state that has one.\<close>

definition keeps_error :: "('g driver \<Rightarrow> 'g driver) \<Rightarrow> bool" where
  "keeps_error f \<longleftrightarrow>
     (\<forall>st. g_directive_error st \<noteq> [] \<longrightarrow> g_directive_error (f st) = g_directive_error st)"

lemma keeps_errorD:
  "keeps_error f \<Longrightarrow> g_directive_error st \<noteq> [] \<Longrightarrow> g_directive_error (f st) = g_directive_error st"
  by (simp add: keeps_error_def)

lemma keeps_error_basic [intro, simp]:
  "keeps_error (directive_error msg)" "keeps_error (on_gas f)" "keeps_error (emit gl bs)"
  "keeps_error violate_section" "keeps_error (\<lambda>st. st)"
  by (simp_all add: keeps_error_def directive_error_def violate_section_def)

lemma keeps_error_fold: "(\<And>x. keeps_error (f x)) \<Longrightarrow> keeps_error (fold f xs)"
  by (induction xs) (auto simp: keeps_error_def)

lemma keeps_error_ascii_loop:
  "g_directive_error st \<noteq> [] \<Longrightarrow>
   g_directive_error (emit_ascii_loop gl d args z f p st) = g_directive_error st"
  by (induction gl d args z f p st rule: emit_ascii_loop.induct)
    (subst emit_ascii_loop.simps, auto simp: Let_def case_prod_unfold directive_error_def)

lemma keeps_error_handlers:
  assumes "g_directive_error st \<noteq> []"
  shows "g_directive_error (handle_data gl args w st) = g_directive_error st"
    and "g_directive_error (emit_ascii gl d args z st) = g_directive_error st"
    and "g_directive_error (handle_skip gl d args st) = g_directive_error st"
    and "g_directive_error (handle_org gl d args st) = g_directive_error st"
    and "g_directive_error (handle_align gl d args st) = g_directive_error st"
    and "g_directive_error (handle_set gl d args st) = g_directive_error st"
  using assms keeps_error_fold [of "emit gl", OF keeps_error_basic(3), THEN keeps_errorD]
  by (simp_all add: handle_data_def emit_ascii_def keeps_error_ascii_loop handle_skip_def
      handle_org_def handle_align_def handle_set_def Let_def case_prod_unfold directive_error_def
      split: sum.splits)

lemma keeps_error_directive:
  "g_directive_error st \<noteq> [] \<Longrightarrow>
   g_directive_error (snd (handle_directive gl line st)) = g_directive_error st"
  by (simp add: handle_directive_def Let_def keeps_error_handlers violate_section_def)

lemma keeps_error_strip_labels:
  "g_directive_error (snd (strip_labels gl line st)) = g_directive_error st"
  by (induction gl line st rule: strip_labels.induct)
    (subst strip_labels.simps, auto simp: Let_def define_label_def)

lemma keeps_error_dispatch:
  "g_directive_error st \<noteq> [] \<Longrightarrow> g_directive_error (dispatch gl line st) = g_directive_error st"
  by (simp add: dispatch_def case_prod_unfold Let_def keeps_error_directive directive_error_def)

lemma keeps_error_process: "keeps_error (process gl raw)"
  unfolding keeps_error_def process_def Let_def case_prod_unfold
  by (simp add: keeps_error_strip_labels keeps_error_dispatch)

text \<open>The first directive error wins: once one is reported, the rest of the parse leaves
  the message alone.\<close>

theorem first_directive_error_wins:
  assumes "g_directive_error st \<noteq> []"
  shows "g_directive_error (parse_source gl source st) = g_directive_error st"
  using keeps_error_fold [of "process gl", OF keeps_error_process, THEN keeps_errorD] assms
  by (simp add: parse_source_def)

theorem first_directive_error_wins_witness:
  "g_directive_error (directive_error ''a'' (fresh [])) \<noteq> [] \<and>
   g_directive_error (parse_source recorder ''.bogus'' (directive_error ''a'' (fresh []))) = ''a''"
proof -
  have h: "g_directive_error (directive_error ''a'' (fresh [])) \<noteq> []"
    by (simp add: directive_error_def fresh_def)
  show ?thesis using h first_directive_error_wins [OF h]
    by (simp add: directive_error_def fresh_def)
qed

text \<open>The line of a statement that is dispatched, with its labels gone.\<close>

definition unlabelled :: "string \<Rightarrow> string" where
  "unlabelled raw = fst (strip_labels recorder (statement_text raw) (fresh []))"

lemma strip_labels_unlabelled: "fst (strip_labels gl line st) = fst (strip_labels gl' line st')"
proof (induction gl line st arbitrary: st' rule: strip_labels.induct)
  case (1 gl line st)
  then show ?case by (subst (1 2) strip_labels.simps) (simp add: Let_def)
qed

lemma strip_labels_Nil: "strip_labels gl [] st = ([], st)"
  by (subst strip_labels.simps) simp

lemma violation_strip_labels [simp]:
  "g_section_violation (snd (strip_labels gl line st)) = g_section_violation st"
  by (induction gl line st rule: strip_labels.induct)
    (subst strip_labels.simps, auto simp: Let_def define_label_def)

definition statement_violates :: "string \<Rightarrow> bool" where
  "statement_violates raw \<longleftrightarrow>
     (let line = unlabelled raw
      in line \<noteq> [] \<and> hd line = CHR ''.'' \<and> selects_other_section line)"

lemma violation_process:
  "g_section_violation (process gl raw st) = (g_section_violation st \<or> statement_violates raw)"
  using strip_labels_unlabelled [of gl "statement_text raw" st recorder "fresh []"]
  by (auto simp: process_def Let_def dispatch_def case_prod_unfold statement_violates_def
      unlabelled_def strip_labels_Nil)

lemma parsed_violation:
  "g_section_violation (parsed source) =
     (\<exists>raw \<in> set (split_statements (strip_block_comments source)). statement_violates raw)"
proof -
  have "g_section_violation (fold (process gl) ss st) =
      (g_section_violation st \<or> (\<exists>raw \<in> set ss. statement_violates raw))"
    for gl :: "glue_call list glue" and ss st
    by (induction ss arbitrary: st) (auto simp: violation_process)
  then show ?thesis by (simp add: parsed_def parse_source_def fresh_def)
qed

subsection \<open>Comments against the statement split\<close>

text \<open>Line comments are removed statement by statement, after the split and after block
  comments are gone. So the split, and block-comment removal, still see what is written in a
  line comment.\<close>

lemma clean_hash: "clean line_start (CHR ''#'' # u) b p = clean line_start [] b p"
  by (induction line_start "[] :: string" b p rule: clean.induct)
    (auto simp: line_start_def hd_append split: list.splits)

lemma clean_ltrim: "clean stop t False p \<Longrightarrow> clean stop t False (ltrim p)"
  by (induction p) (auto simp: isspace_def split: if_splits)

lemma ltrim_append: "ltrim (p @ t) = (if ltrim p = [] then ltrim t else ltrim p @ t)"
  by (induction p) auto

lemma strip_line_clean:
  assumes "clean line_start [] False p"
  shows "strip_line False (p @ CHR ''#'' # u) = p" and "strip_line False p = p"
  using line_scan.clean_prefix [of "CHR ''#'' # u" False p] line_scan.clean_prefix [OF assms] assms
  by (simp_all add: clean_hash)

lemma statement_text_comment:
  assumes "clean line_start [] False p"
  shows "statement_text (p @ CHR ''#'' # u) = statement_text p"
  using strip_line_clean [OF clean_ltrim [OF assms]]
  by (simp add: statement_text_def strip_comment_def ltrim_append isspace_def)

lemma process_comment:
  assumes "clean line_start [] False p"
  shows "process gl (p @ CHR ''#'' # u) st = process gl p st"
  by (simp add: process_def statement_text_comment [OF assms])

lemma pieces_in_quotes: "QUOTE \<notin> set s \<Longrightarrow> pieces True s = [s]"
  by (induction s rule: induct_list012) auto

text \<open>C39. A quote in a line comment opens a string as far as the split is concerned: with no
  other quote behind it, everything that follows, the next lines included, belongs to the
  commented statement and is dropped without an error.\<close>

theorem quote_in_comment_hides_rest:
  assumes "clean line_start [] False p"
    and "clean separator_start [] False (p @ CHR ''#'' # c)"
    and "QUOTE \<notin> set rest"
    and "strip_block_comments (p @ CHR ''#'' # c @ QUOTE # rest) = p @ CHR ''#'' # c @ QUOTE # rest"
  shows "parse_source gl (p @ CHR ''#'' # c @ QUOTE # rest) st = process gl p st"
proof -
  let ?x = "p @ CHR ''#'' # c"
  have "pieces False (?x @ QUOTE # rest) = glue_on ?x (pieces False (QUOTE # rest))"
    using assms(2) clean_separator_start [of "[]" False ?x "QUOTE # rest"]
    by (intro split_at_separator) blast
  then have "split_statements (?x @ QUOTE # rest) = [?x @ QUOTE # rest]"
    using assms(3) by (simp add: split_statements_pieces pieces_in_quotes) (simp add: drop_last_empty_def)
  then show ?thesis
    using assms(4) by (simp add: parse_source_def process_comment [OF assms(1)])
qed

theorem quote_in_comment_hides_rest_witness:
  "gas (parse_source recorder (''nop '' @ CHR ''#'' # '' 3'' @ QUOTE # '' wide'' @ NEWLINE # ''ret'') (fresh []))
     = [Md_assemble ''nop'']"
proof -
  have p: "clean line_start [] False ''nop ''" by (simp add: line_start_def)
  have c: "clean separator_start [] False (''nop '' @ CHR ''#'' # '' 3'')"
    by (simp add: separator_start_def is_separator_def)
  have r: "QUOTE \<notin> set ('' wide'' @ NEWLINE # ''ret'')" by simp
  have b: "strip_block_comments (''nop '' @ CHR ''#'' # '' 3'' @ QUOTE # '' wide'' @ NEWLINE # ''ret'')
      = ''nop '' @ CHR ''#'' # '' 3'' @ QUOTE # '' wide'' @ NEWLINE # ''ret''"
    by (simp add: strip_block_comments_def)
  have "process recorder ''nop '' (fresh []) = on_gas (g_md_assemble recorder ''nop'') (fresh [])"
    by code_simp
  then show ?thesis
    using quote_in_comment_hides_rest [OF p c r b, of recorder "fresh []"] by (simp add: fresh_def)
qed

text \<open>A semicolon in a line comment ends the comment: what stands behind it on the same
  line is parsed as statements of its own.\<close>

theorem semicolon_ends_comment:
  assumes "clean line_start [] False p"
    and "clean separator_start [] False (p @ CHR ''#'' # c)"
    and "strip_block_comments (p @ CHR ''#'' # c @ CHR '';'' # t) = p @ CHR ''#'' # c @ CHR '';'' # t"
  shows "parse_source gl (p @ CHR ''#'' # c @ CHR '';'' # t) st
    = fold (process gl) (split_statements t) (process gl p st)"
proof -
  let ?x = "p @ CHR ''#'' # c"
  have "pieces False (?x @ CHR '';'' # t) = glue_on ?x (pieces False (CHR '';'' # t))"
    using assms(2) clean_separator_start [of "[]" False ?x "CHR '';'' # t"]
    by (intro split_at_separator) blast
  then have "split_statements (?x @ CHR '';'' # t) = ?x # split_statements t"
    by (simp add: split_statements_pieces is_separator_def)
  then show ?thesis
    using assms(3) by (simp add: parse_source_def process_comment [OF assms(1)])
qed

theorem semicolon_ends_comment_witness:
  "gas (parse_source recorder (''nop '' @ CHR ''#'' # '' no'' @ CHR '';'' # ''ret'') (fresh []))
     = [Md_assemble ''nop'', Md_assemble ''ret'']"
proof -
  have p: "clean line_start [] False ''nop ''" by (simp add: line_start_def)
  have c: "clean separator_start [] False (''nop '' @ CHR ''#'' # '' no'')"
    by (simp add: separator_start_def is_separator_def)
  have b: "strip_block_comments (''nop '' @ CHR ''#'' # '' no'' @ CHR '';'' # ''ret'')
      = ''nop '' @ CHR ''#'' # '' no'' @ CHR '';'' # ''ret''"
    by (simp add: strip_block_comments_def)
  have "fold (process recorder) (split_statements ''ret'') (process recorder ''nop '' (fresh []))
      = on_gas (g_md_assemble recorder ''ret'') (on_gas (g_md_assemble recorder ''nop'') (fresh []))"
    by code_simp
  then show ?thesis
    using semicolon_ends_comment [OF p c b, of recorder "fresh []"] by (simp add: fresh_def)
qed

end
