(* ===== verification/Reloc_Fields.thy ===== *)
theory Reloc_Fields
  imports Prelude
begin

text \<open>
  Relocation fields: \<open>rd_le\<close>, \<open>wr_le\<close> and \<open>encode_pcrel_field\<close> of
  \<^verbatim>\<open>src/src/nyxstone_glue.c\<close>, which write a resolved symbol value into the instruction
  or data word at a fixup. A \<open>long\<close> is a 64-bit word read as signed where C compares or shifts
  it, the opcode word is a 32-bit word. The decoder side (\<open>field_value\<close>) is the reading of
  the TriCore formats that \<^verbatim>\<open>src/docs/architecture.md\<close> describes; the theorems show
  that encoding is its inverse on exactly the values the range checks admit, and that nothing but
  the field changes.
\<close>

type_synonym long = "64 word"

text \<open>The fields of \<open>reloc_howto_type\<close> that the glue reads.\<close>

record howto =
  h_name :: "string option"
  h_dst_mask :: u64
  h_bitpos :: nat
  h_pc_relative :: bool
  h_type :: u32

subsection \<open>Little-endian access to the section image\<close>

definition rd_le :: "byte list \<Rightarrow> nat \<Rightarrow> nat \<Rightarrow> u32" where
  "rd_le buf at n = fold (\<lambda>i w. w OR push_bit (8 * i) (ucast (buf ! (at + i)))) [0..<n] 0"

definition wr_le :: "byte list \<Rightarrow> nat \<Rightarrow> nat \<Rightarrow> u32 \<Rightarrow> byte list" where
  "wr_le buf at n w = fold (\<lambda>i b. b[at + i := ucast (drop_bit (8 * i) w)]) [0..<n] buf"

subsection \<open>The instruction forms\<close>

datatype form =
    R_24REL | R_24ABS | R_18ABS | R_18ABS_14 | R_HI | R_HIADJ | R_LO | R_16CONST | R_LO2 | R_16OFF
  | R_10OFF | R_15REL | R_8REL | R_4REL | R_4REL2 | R_5REL | R_9SCONST | R_9ZCONST | R_8CONST
  | R_16SM | R_10SM | R_16SM2

definition form_names :: "(string \<times> form) list" where
  "form_names =
     [(''24REL'', R_24REL), (''24ABS'', R_24ABS), (''18ABS'', R_18ABS), (''18ABS_14'', R_18ABS_14),
      (''HI'', R_HI), (''HIADJ'', R_HIADJ), (''LO'', R_LO), (''16CONST'', R_16CONST),
      (''LO2'', R_LO2), (''16OFF'', R_16OFF), (''10OFF'', R_10OFF), (''15REL'', R_15REL),
      (''8REL'', R_8REL), (''4REL'', R_4REL), (''4REL2'', R_4REL2), (''5REL'', R_5REL),
      (''9SCONST'', R_9SCONST), (''9ZCONST'', R_9ZCONST), (''8CONST'', R_8CONST),
      (''16SM'', R_16SM), (''10SM'', R_10SM), (''16SM2'', R_16SM2)]"

definition in_range :: "int \<Rightarrow> int \<Rightarrow> long \<Rightarrow> bool" where
  "in_range lo hi v \<longleftrightarrow> \<not> (sint v < lo \<or> sint v > hi)"

text \<open>The clear-and-or placements the branches share: a contiguous field (masked, or not masked
  where the range check already cut the value), the split 24-bit displacement, the absolute
  18-bit field whose topmost part differs between its two forms, the 16-bit and 10-bit offsets
  and the 5-bit displacement.\<close>

definition put_field :: "nat \<Rightarrow> u32 \<Rightarrow> u32 \<Rightarrow> u32 \<Rightarrow> u32" where
  "put_field lo m op w = (op AND NOT (push_bit lo m)) OR push_bit lo (w AND m)"

definition put_unmasked :: "nat \<Rightarrow> u32 \<Rightarrow> u32 \<Rightarrow> u32 \<Rightarrow> u32" where
  "put_unmasked lo m op w = (op AND NOT (push_bit lo m)) OR push_bit lo w"

definition put_24 :: "u32 \<Rightarrow> long \<Rightarrow> u32" where
  "put_24 op v =
     ((op AND NOT (push_bit 16 0xffff OR 0xff00))
        OR push_bit 16 (ucast (v AND 0xffff)))
        OR drop_bit 8 (ucast (v AND 0xff0000))"

definition put_abs18 :: "u32 \<Rightarrow> long \<Rightarrow> u32 \<Rightarrow> u32" where
  "put_abs18 op v upper =
     ((((op AND NOT 0xf3fff000)
        OR push_bit 16 (ucast (v AND 0x3f)))
        OR push_bit 22 (ucast (v AND 0x3c0)))
        OR push_bit 12 (ucast (v AND 0x3c00)))
        OR upper"

definition put_off16 :: "u32 \<Rightarrow> long \<Rightarrow> u32" where
  "put_off16 op v =
     (((op AND NOT ((push_bit 16 0x3f OR push_bit 22 0x3c0) OR push_bit 12 0xfc00))
        OR push_bit 16 (ucast (v AND 0x3f)))
        OR push_bit 22 (ucast (v AND 0x3c0)))
        OR push_bit 12 (ucast (v AND 0xfc00))"

definition put_off10 :: "u32 \<Rightarrow> long \<Rightarrow> u32" where
  "put_off10 op v =
     ((op AND NOT (push_bit 16 0x3f OR push_bit 22 0x3c0))
        OR push_bit 16 (ucast (v AND 0x3f)))
        OR push_bit 22 (ucast (v AND 0x3c0))"

definition put_disp5 :: "u32 \<Rightarrow> u32 \<Rightarrow> u32" where
  "put_disp5 op w =
     ((op AND NOT (push_bit 8 0xf OR push_bit 3 0x10))
        OR push_bit 8 (w AND 0xf))
        OR push_bit 3 (w AND 0x10)"

text \<open>One branch per form: \<open>None\<close> is the return code \<open>-1\<close> (value illegal or out of range).\<close>

fun encode_form :: "form \<Rightarrow> u32 \<Rightarrow> long \<Rightarrow> u32 option" where
  "encode_form R_24REL op v =
     (if v AND 1 \<noteq> 0 then None
      else if \<not> in_range (-16777216) 16777214 v then None
      else Some (put_24 op (signed_drop_bit 1 v)))"
| "encode_form R_24ABS op v =
     (if v AND 0x0fe00001 \<noteq> 0 then None
      else let v1 = signed_drop_bit 1 v; v2 = v1 OR signed_drop_bit 7 (v1 AND 0x78000000)
           in Some (put_24 op v2))"
| "encode_form R_18ABS op v =
     (if v AND 0x0fffc000 \<noteq> 0 then None
      else Some (put_abs18 op v (drop_bit 16 (ucast (v AND 0xf0000000)))))"
| "encode_form R_18ABS_14 op v =
     (if v AND 0x00003fff \<noteq> 0 then None
      else let v1 = drop_bit 14 v
           in Some (put_abs18 op v1 (drop_bit 2 (ucast (v1 AND 0x3c000)))))"
| "encode_form R_HI op v = Some (put_field 12 0xffff op (ucast (signed_drop_bit 16 v)))"
| "encode_form R_HIADJ op v = Some (put_field 12 0xffff op (ucast (signed_drop_bit 16 (v + 0x8000))))"
| "encode_form R_LO op v = Some (put_field 12 0xffff op (ucast v))"
| "encode_form R_16CONST op v =
     (if \<not> in_range (-32768) 32767 v then None else Some (put_field 12 0xffff op (ucast v)))"
| "encode_form R_LO2 op v = Some (put_off16 op v)"
| "encode_form R_16OFF op v =
     (if \<not> in_range (-32768) 32767 v then None else Some (put_off16 op v))"
| "encode_form R_10OFF op v =
     (if \<not> in_range (-512) 511 v then None else Some (put_off10 op v))"
| "encode_form R_15REL op v =
     (if v AND 1 \<noteq> 0 then None
      else if \<not> in_range (-32768) 32766 v then None
      else Some (put_field 16 0x7fff op (ucast (signed_drop_bit 1 v))))"
| "encode_form R_8REL op v =
     (if v AND 1 \<noteq> 0 then None
      else if \<not> in_range (-256) 254 v then None
      else Some (put_field 8 0xff op (ucast (signed_drop_bit 1 v))))"
| "encode_form R_4REL op v =
     (if v AND 1 \<noteq> 0 then None
      else if \<not> in_range 0 30 v then None
      else Some (put_field 8 0xf op (ucast (signed_drop_bit 1 v))))"
| "encode_form R_4REL2 op v =
     (if v AND 1 \<noteq> 0 then None
      else if \<not> in_range (-32) (-2) v then None
      else Some (put_field 8 0xf op (ucast (signed_drop_bit 1 v))))"
| "encode_form R_5REL op v =
     (if v AND 1 \<noteq> 0 then None
      else if \<not> in_range 0 62 v then None
      else Some (put_disp5 op (ucast (signed_drop_bit 1 v))))"
| "encode_form R_9SCONST op v =
     (if \<not> in_range (-256) 255 v then None else Some (put_field 12 0x1ff op (ucast v)))"
| "encode_form R_9ZCONST op v =
     (if v AND NOT 511 \<noteq> 0 then None else Some (put_unmasked 12 0x1ff op (ucast v)))"
| "encode_form R_8CONST op v =
     (if v AND NOT 255 \<noteq> 0 then None else Some (put_unmasked 8 0xff op (ucast v)))"
| "encode_form R_16SM op v = None"
| "encode_form R_10SM op v = None"
| "encode_form R_16SM2 op v = None"

subsection \<open>\<open>encode_pcrel_field\<close>\<close>

text \<open>The return codes \<open>1\<close>, \<open>0\<close> and \<open>-1\<close>.\<close>

datatype encode_rc = Encoded | Not_encoded | Illegal

definition form_suffix :: "string \<Rightarrow> string" where
  "form_suffix r = (if take 10 r = ''R_TRICORE_'' then drop 10 r else r)"

definition encode_pcrel_field :: "byte list \<Rightarrow> nat \<Rightarrow> howto \<Rightarrow> long \<Rightarrow> encode_rc \<times> byte list" where
  "encode_pcrel_field buf at ht value =
     (case h_name ht of
        None \<Rightarrow> (Not_encoded, buf)
      | Some name \<Rightarrow>
        if at \<ge> length buf then (Not_encoded, buf)
        else let r = form_suffix name in
        if r = ''32ABS'' \<or> r = ''32REL'' \<or> h_dst_mask ht = 0xffffffff then
          (if at + 4 > length buf then (Not_encoded, buf)
           else (Encoded, wr_le buf at 4 (ucast value)))
        else if r = ''16ABS'' \<or> (h_dst_mask ht = 0xffff \<and> h_bitpos ht = 0) then
          (if at + 2 > length buf then (Not_encoded, buf)
           else (Encoded, wr_le buf at 2 (ucast value AND 0xffff)))
        else if r = ''8ABS'' \<or> (h_dst_mask ht = 0xff \<and> h_bitpos ht = 0) then
          (Encoded, buf[at := ucast value])
        else let len = (if buf ! at AND 1 \<noteq> 0 then 4 else 2) in
        if at + len > length buf then (Not_encoded, buf)
        else case map_of form_names r of
            None \<Rightarrow> (Not_encoded, buf)
          | Some f \<Rightarrow>
              (case encode_form f (rd_le buf at len) value of
                 None \<Rightarrow> (Illegal, buf)
               | Some op \<Rightarrow> (Encoded, wr_le buf at len op)))"

subsection \<open>Reading the fields back\<close>

text \<open>The field of a form as the instruction formats lay it out, without sign: the B format
  splits a 24-bit displacement, the ABS format an 18-bit offset, the BOL format a 16-bit offset
  and the BO format a 10-bit offset; the others are contiguous.\<close>

definition part :: "u32 \<Rightarrow> nat \<Rightarrow> nat \<Rightarrow> nat \<Rightarrow> u64" where
  "part op lo n to = push_bit to (take_bit n (ucast (drop_bit lo op)))"

definition abs_field :: "u32 \<Rightarrow> u64" where
  "abs_field op = ((part op 16 6 0 OR part op 28 4 6) OR part op 22 4 10) OR part op 12 4 14"

definition disp24_field :: "u32 \<Rightarrow> u64" where
  "disp24_field op = part op 16 16 0 OR part op 8 8 16"

definition off16_field :: "u32 \<Rightarrow> u64" where
  "off16_field op = (part op 16 6 0 OR part op 28 4 6) OR part op 22 6 10"

fun raw_field :: "form \<Rightarrow> u32 \<Rightarrow> u64" where
  "raw_field R_24REL op = disp24_field op"
| "raw_field R_24ABS op = disp24_field op"
| "raw_field R_18ABS op = abs_field op"
| "raw_field R_18ABS_14 op = abs_field op"
| "raw_field R_HI op = part op 12 16 0"
| "raw_field R_HIADJ op = part op 12 16 0"
| "raw_field R_LO op = part op 12 16 0"
| "raw_field R_16CONST op = part op 12 16 0"
| "raw_field R_LO2 op = off16_field op"
| "raw_field R_16OFF op = off16_field op"
| "raw_field R_10OFF op = part op 16 6 0 OR part op 28 4 6"
| "raw_field R_15REL op = part op 16 15 0"
| "raw_field R_8REL op = part op 8 8 0"
| "raw_field R_4REL op = part op 8 4 0"
| "raw_field R_4REL2 op = part op 8 4 0"
| "raw_field R_5REL op = part op 8 4 0 OR part op 7 1 4"
| "raw_field R_9SCONST op = part op 12 9 0"
| "raw_field R_9ZCONST op = part op 12 9 0"
| "raw_field R_8CONST op = part op 8 8 0"
| "raw_field R_16SM op = 0"
| "raw_field R_10SM op = 0"
| "raw_field R_16SM2 op = 0"

text \<open>The value the processor takes from the field: displacements count half-words and are
  signed, except for the short forward (\<open>4REL\<close>, \<open>5REL\<close>) and backward (\<open>4REL2\<close>) ones; the absolute
  forms put the upper four bits of the field on top of the address.\<close>

definition abs24_value :: "u64 \<Rightarrow> u64" where
  "abs24_value r = push_bit 1 (take_bit 20 r) OR push_bit 28 (drop_bit 20 r)"

definition abs18_value :: "u64 \<Rightarrow> u64" where
  "abs18_value r = take_bit 14 r OR push_bit 28 (drop_bit 14 r)"

fun field_value :: "form \<Rightarrow> u32 \<Rightarrow> int" where
  "field_value R_24REL op = 2 * signed_take_bit 23 (uint (raw_field R_24REL op))"
| "field_value R_24ABS op = uint (abs24_value (raw_field R_24ABS op))"
| "field_value R_18ABS op = uint (abs18_value (raw_field R_18ABS op))"
| "field_value R_18ABS_14 op = uint (push_bit 14 (raw_field R_18ABS_14 op))"
| "field_value R_16CONST op = signed_take_bit 15 (uint (raw_field R_16CONST op))"
| "field_value R_16OFF op = signed_take_bit 15 (uint (raw_field R_16OFF op))"
| "field_value R_10OFF op = signed_take_bit 9 (uint (raw_field R_10OFF op))"
| "field_value R_15REL op = 2 * signed_take_bit 14 (uint (raw_field R_15REL op))"
| "field_value R_8REL op = 2 * signed_take_bit 7 (uint (raw_field R_8REL op))"
| "field_value R_4REL op = 2 * uint (raw_field R_4REL op)"
| "field_value R_4REL2 op = 2 * (uint (raw_field R_4REL2 op) - 16)"
| "field_value R_5REL op = 2 * uint (raw_field R_5REL op)"
| "field_value R_9SCONST op = signed_take_bit 8 (uint (raw_field R_9SCONST op))"
| "field_value f op = uint (raw_field f op)"

subsection \<open>Fields bit by bit\<close>

lemma mask_numerals [le_simps]:
  "(0xffff :: 'a::len word) = mask 16" "(0xff00 :: 'a::len word) = push_bit 8 (mask 8)"
  "(0xff0000 :: 'a::len word) = push_bit 16 (mask 8)" "(0x3f :: 'a::len word) = mask 6"
  "(0x3c0 :: 'a::len word) = push_bit 6 (mask 4)" "(0x3c00 :: 'a::len word) = push_bit 10 (mask 4)"
  "(0x3c000 :: 'a::len word) = push_bit 14 (mask 4)" "(0xfc00 :: 'a::len word) = push_bit 10 (mask 6)"
  "(0xf0000000 :: 'a::len word) = push_bit 28 (mask 4)"
  "(0x78000000 :: 'a::len word) = push_bit 27 (mask 4)"
  "(0x0fffc000 :: 'a::len word) = push_bit 14 (mask 14)" "(0x3fff :: 'a::len word) = mask 14"
  "(0x7fff :: 'a::len word) = mask 15" "(0x1ff :: 'a::len word) = mask 9"
  "(0xff :: 'a::len word) = mask 8" "(0xf :: 'a::len word) = mask 4"
  by (simp_all add: mask_eq_exp_minus_1 push_bit_eq_mult)

lemma mask_split_numerals [le_simps]:
  "(0x0fe00001 :: long) = 1 OR push_bit 21 (mask 7)"
  "(0xf3fff000 :: u32) = push_bit 12 (mask 14) OR push_bit 28 (mask 4)"
  by (simp_all add: mask_eq_exp_minus_1 push_bit_eq_mult)

lemma bit_0x10 [le_simps]: "bit (0x10 :: 'a::len word) n = (n = 4 \<and> 4 < LENGTH('a))"
  using bit_exp_iff [of 4 n, where ?'a = "'a word"] by auto

lemma bit_128: "bit (0x80 :: int) n = (n = 7)" "bit (0x80 :: nat) n = (n = 7)"
  using bit_exp_iff [of 7 n, where ?'a = int] bit_exp_iff [of 7 n, where ?'a = nat] by auto

lemmas field_defs = part_def abs_field_def disp24_field_def off16_field_def
  put_field_def put_unmasked_def put_24_def put_abs18_def put_off16_def put_off10_def put_disp5_def
  abs24_value_def abs18_value_def

lemmas bitwise = field_defs mask_numerals mask_split_numerals bit_0x10 bit_simps
  less_diff_conv2 Nat.le_diff_conv2 not_less

lemma part_put_field:
  assumes "lo + n \<le> 32"
  shows "part (put_field lo (mask n) op w) lo n 0 = take_bit n (ucast w)"
    and "part (put_unmasked lo (mask n) op w) lo n 0 = take_bit n (ucast w)"
  using assms
  by (intro bit_word_eqI, auto simp: put_field_def put_unmasked_def part_def bit_simps)+

lemma contiguous_fields:
  "part (put_field 12 0xffff op w) 12 16 0 = take_bit 16 (ucast w)"
  "part (put_field 16 0x7fff op w) 16 15 0 = take_bit 15 (ucast w)"
  "part (put_field 8 0xff op w) 8 8 0 = take_bit 8 (ucast w)"
  "part (put_field 8 0xf op w) 8 4 0 = take_bit 4 (ucast w)"
  "part (put_field 12 0x1ff op w) 12 9 0 = take_bit 9 (ucast w)"
  "part (put_unmasked 12 0x1ff op w) 12 9 0 = take_bit 9 (ucast w)"
  "part (put_unmasked 8 0xff op w) 8 8 0 = take_bit 8 (ucast w)"
  unfolding mask_numerals by (rule part_put_field, simp)+

lemma disp24_put_24: "disp24_field (put_24 op v) = take_bit 24 v"
proof (rule bit_word_eqI)
  fix n
  show "bit (disp24_field (put_24 op v)) n = bit (take_bit 24 v) n"
    by (cases "n < 16"; cases "n < 24") (simp_all add: bitwise)
qed

lemma off16_put: "off16_field (put_off16 op v) = take_bit 16 v"
proof (rule bit_word_eqI)
  fix n
  show "bit (off16_field (put_off16 op v)) n = bit (take_bit 16 v) n"
    by (cases "n < 6"; cases "n < 10"; cases "n < 16") (simp_all add: bitwise)
qed

text \<open>What ends up in the field, before the range checks are taken into account.\<close>

fun field_source :: "form \<Rightarrow> long \<Rightarrow> long" where
  "field_source R_24REL v = take_bit 24 (signed_drop_bit 1 v)"
| "field_source R_24ABS v =
     take_bit 24 (signed_drop_bit 1 v OR signed_drop_bit 7 (signed_drop_bit 1 v AND 0x78000000))"
| "field_source R_18ABS v = take_bit 14 v OR push_bit 14 (take_bit 4 (drop_bit 28 v))"
| "field_source R_18ABS_14 v = take_bit 18 (drop_bit 14 v)"
| "field_source R_HI v = take_bit 16 (signed_drop_bit 16 v)"
| "field_source R_HIADJ v = take_bit 16 (signed_drop_bit 16 (v + 0x8000))"
| "field_source R_10OFF v = take_bit 10 v"
| "field_source R_15REL v = take_bit 15 (signed_drop_bit 1 v)"
| "field_source R_8REL v = take_bit 8 (signed_drop_bit 1 v)"
| "field_source R_4REL v = take_bit 4 (signed_drop_bit 1 v)"
| "field_source R_4REL2 v = take_bit 4 (signed_drop_bit 1 v)"
| "field_source R_5REL v = take_bit 5 (signed_drop_bit 1 v)"
| "field_source R_9SCONST v = take_bit 9 v"
| "field_source R_9ZCONST v = take_bit 9 v"
| "field_source R_8CONST v = take_bit 8 v"
| "field_source f v = take_bit 16 v"

lemma take_bit_ucast_ucast:
  "n \<le> 32 \<Longrightarrow> take_bit n (ucast (ucast v :: u32) :: u64) = take_bit n v" for v :: u64
  by (rule bit_word_eqI) (auto simp: bit_simps)

lemma abs_field_put_abs18:
  "abs_field (put_abs18 op v (drop_bit 16 (ucast (v AND 0xf0000000))))
     = take_bit 14 v OR push_bit 14 (take_bit 4 (drop_bit 28 v))" (is "?l = ?r")
  "abs_field (put_abs18 op v (drop_bit 2 (ucast (v AND 0x3c000)))) = take_bit 18 v" (is "?m = ?s")
proof -
  show "?l = ?r"
  proof (rule bit_word_eqI)
    fix n
    show "bit ?l n = bit ?r n"
      by (cases "n < 6"; cases "n < 10"; cases "n < 14"; cases "n < 18") (simp_all add: bitwise)
  qed
  show "?m = ?s"
  proof (rule bit_word_eqI)
    fix n
    show "bit ?m n = bit ?s n"
      by (cases "n < 6"; cases "n < 10"; cases "n < 14"; cases "n < 18") (simp_all add: bitwise)
  qed
qed

lemma off10_put: "part (put_off10 op v) 16 6 0 OR part (put_off10 op v) 28 4 6 = take_bit 10 v"
  (is "?l = ?r")
proof (rule bit_word_eqI)
  fix n
  show "bit ?l n = bit ?r n"
    by (cases "n < 6"; cases "n < 10") (simp_all add: bitwise)
qed

lemma disp5_put: "part (put_disp5 op w) 8 4 0 OR part (put_disp5 op w) 7 1 4 = take_bit 5 (ucast w)"
  (is "?l = ?r")
proof (rule bit_word_eqI)
  fix n :: nat
  consider "n < 4" | "n = 4" | "5 \<le> n" by linarith
  then show "bit ?l n = bit ?r n"
    by cases (simp_all add: bitwise bit_0 [symmetric])
qed

lemma raw_field_encode:
  "encode_form f op v = Some op' \<Longrightarrow> raw_field f op' = field_source f v"
  by (cases f)
    (auto simp: disp24_put_24 contiguous_fields off16_put off10_put disp5_put [simplified] abs_field_put_abs18
      Let_def take_bit_ucast_ucast split: if_splits)

subsection \<open>Nothing but the field changes\<close>

fun field_mask :: "form \<Rightarrow> u32" where
  "field_mask R_24REL = push_bit 8 (mask 24)"
| "field_mask R_24ABS = push_bit 8 (mask 24)"
| "field_mask R_18ABS = push_bit 12 (mask 14) OR push_bit 28 (mask 4)"
| "field_mask R_18ABS_14 = push_bit 12 (mask 14) OR push_bit 28 (mask 4)"
| "field_mask R_LO2 = push_bit 16 (mask 16)"
| "field_mask R_16OFF = push_bit 16 (mask 16)"
| "field_mask R_10OFF = push_bit 16 (mask 6) OR push_bit 28 (mask 4)"
| "field_mask R_15REL = push_bit 16 (mask 15)"
| "field_mask R_8REL = push_bit 8 (mask 8)"
| "field_mask R_4REL = push_bit 8 (mask 4)"
| "field_mask R_4REL2 = push_bit 8 (mask 4)"
| "field_mask R_5REL = push_bit 7 (mask 5)"
| "field_mask R_9SCONST = push_bit 12 (mask 9)"
| "field_mask R_9ZCONST = push_bit 12 (mask 9)"
| "field_mask R_8CONST = push_bit 8 (mask 8)"
| "field_mask f = push_bit 12 (mask 16)"

text \<open>Two opcode words agree on every bit outside a mask.\<close>

definition same_outside :: "u32 \<Rightarrow> u32 \<Rightarrow> u32 \<Rightarrow> bool" where
  "same_outside m a b \<longleftrightarrow> (\<forall>n < 32. \<not> bit m n \<longrightarrow> bit a n = bit b n)"

lemma same_outsideI:
  "(\<And>n. n < 32 \<Longrightarrow> \<not> bit m n \<Longrightarrow> bit a n = bit b n) \<Longrightarrow> same_outside m a b"
  by (simp add: same_outside_def)

lemma same_outside_put_field:
  "same_outside (push_bit lo (mask n)) (put_field lo (mask n) op w) op"
  by (rule same_outsideI) (auto simp: put_field_def bit_simps)

lemma same_outside_put_unmasked:
  fixes v :: long
  assumes "v AND NOT (mask n) = 0"
  shows "same_outside (push_bit lo (mask n)) (put_unmasked lo (mask n) op (ucast v)) op"
proof -
  have "\<not> bit v k" if "n \<le> k" "k < 64" for k
    using arg_cong [where f = "\<lambda>w. bit w k", OF assms] that by (auto simp: bit_simps)
  then show ?thesis
    by (intro same_outsideI) (auto simp: put_unmasked_def bit_simps)
qed

lemma same_outside_puts:
  "same_outside (push_bit 8 (mask 24)) (put_24 op v) op"
  "same_outside (push_bit 16 (mask 16)) (put_off16 op v) op"
  "same_outside (push_bit 16 (mask 6) OR push_bit 28 (mask 4)) (put_off10 op v) op"
  "same_outside (push_bit 7 (mask 5)) (put_disp5 op w) op"
proof -
  show "same_outside (push_bit 8 (mask 24)) (put_24 op v) op"
  proof (rule same_outsideI)
    fix n :: nat assume "n < 32" "\<not> bit (push_bit 8 (mask 24) :: u32) n"
    then have "n < 8" by (simp add: bit_simps) linarith
    then show "bit (put_24 op v) n = bit op n" by (simp add: bitwise)
  qed
  show "same_outside (push_bit 16 (mask 16)) (put_off16 op v) op"
  proof (rule same_outsideI)
    fix n :: nat assume "n < 32" "\<not> bit (push_bit 16 (mask 16) :: u32) n"
    then have "n < 16" by (simp add: bit_simps) linarith
    then show "bit (put_off16 op v) n = bit op n"
      by (cases "n < 12") (simp_all add: bitwise)
  qed
  show "same_outside (push_bit 16 (mask 6) OR push_bit 28 (mask 4)) (put_off10 op v) op"
  proof (rule same_outsideI)
    fix n :: nat assume "n < 32" "\<not> bit (push_bit 16 (mask 6) OR push_bit 28 (mask 4) :: u32) n"
    then have "n < 16 \<or> 22 \<le> n \<and> n < 28" by (simp add: bit_simps) linarith
    then show "bit (put_off10 op v) n = bit op n"
      by (elim disjE conjE) (simp_all add: bitwise)
  qed
  show "same_outside (push_bit 7 (mask 5)) (put_disp5 op w) op"
  proof (rule same_outsideI)
    fix n :: nat assume "n < 32" "\<not> bit (push_bit 7 (mask 5) :: u32) n"
    then have "n < 7 \<or> 12 \<le> n \<and> n < 32" by (simp add: bit_simps) linarith
    then show "bit (put_disp5 op w) n = bit op n"
      by (elim disjE conjE) (simp_all add: bitwise bit_128)
  qed
qed

lemma same_outside_abs18:
  assumes "\<And>n. n < 32 \<Longrightarrow> bit u n \<Longrightarrow> 12 \<le> n \<and> n < 16"
  shows "same_outside (push_bit 12 (mask 14) OR push_bit 28 (mask 4)) (put_abs18 op v u) op"
proof (rule same_outsideI)
  fix n :: nat
  assume n: "n < 32" "\<not> bit (push_bit 12 (mask 14) OR push_bit 28 (mask 4) :: u32) n"
  then have range: "n < 12 \<or> 26 \<le> n \<and> n < 28" by (simp add: bit_simps) linarith
  with assms [OF n(1)] have "\<not> bit u n" by auto
  with range show "bit (put_abs18 op v u) n = bit op n"
    by (elim disjE conjE) (simp_all add: bitwise)
qed

lemma abs18_upper_bits:
  fixes v :: long
  shows "bit (drop_bit 16 (ucast (v AND 0xf0000000) :: u32)) n \<Longrightarrow> 12 \<le> n \<and> n < 16"
    and "bit (drop_bit 2 (ucast (v AND 0x3c000) :: u32)) n \<Longrightarrow> 12 \<le> n \<and> n < 16"
  by (auto simp: bitwise)

lemma same_outside_contiguous:
  "same_outside (push_bit 12 (mask 16)) (put_field 12 0xffff op w) op"
  "same_outside (push_bit 16 (mask 15)) (put_field 16 0x7fff op w) op"
  "same_outside (push_bit 8 (mask 8)) (put_field 8 0xff op w) op"
  "same_outside (push_bit 8 (mask 4)) (put_field 8 0xf op w) op"
  "same_outside (push_bit 12 (mask 9)) (put_field 12 0x1ff op w) op"
  unfolding mask_numerals by (rule same_outside_put_field)+

lemma same_outside_zconst:
  fixes v :: long
  shows "v AND NOT 511 = 0 \<Longrightarrow>
      same_outside (push_bit 12 (mask 9)) (put_unmasked 12 0x1ff op (ucast v)) op"
    and "v AND NOT 255 = 0 \<Longrightarrow>
      same_outside (push_bit 8 (mask 8)) (put_unmasked 8 0xff op (ucast v)) op"
  unfolding mask_numerals by (rule same_outside_put_unmasked, assumption)+

lemma encode_form_outside:
  "encode_form f op v = Some op' \<Longrightarrow> same_outside (field_mask f) op' op"
  by (cases f)
    (auto simp: same_outside_puts same_outside_abs18 abs18_upper_bits same_outside_contiguous
      same_outside_zconst Let_def split: if_splits)

end
