(* ===== verification/Frags.thy ===== *)
theory Frags
  imports Glue_Interface Reloc_Fields
begin

text \<open>
  The section in gas's memory: the frag chain and its layout. The theory models \<open>frag_fix_size\<close>,
  \<open>frag_fill_size\<close>, \<open>layout\<close> and \<open>finalize_align_org\<close> of \<^verbatim>\<open>src/src/nyxstone_glue.c\<close>. The frags of
  all chains of the section stand in one list, in chain order, which is the order every nested
  loop of the glue visits them in; \<open>tails\<close> holds the position of each chain's \<open>frch_last\<close>. A frag
  or fixup pointer is a position. What gas itself does (its symbol table, encoder, relaxer and
  diagnostics) is a record of operations, a parameter of every definition that calls it, over a
  state \<open>ext\<close> of its own.
\<close>

subsection \<open>The data the glue shares with gas\<close>

text \<open>\<open>relax_stateT\<close>: zero, the states the glue tests, and the others.\<close>

datatype rs_type =
  Rs_zero | Rs_fill | Rs_align | Rs_align_code | Rs_org | Rs_machine_dependent | Rs_other

record 'y frag =
  fr_address :: u64
  fr_fix :: u64
  fr_var :: i64
  fr_offset :: i64
  fr_subtype :: u32
  fr_type :: rs_type
  fr_symbol :: "'y option"
  fr_literal :: "byte list"

record 'y fixup =
  fx_frag :: nat
  fx_where :: u64
  fx_addsy :: "'y option"
  fx_offset :: u64
  fx_pcrel :: bool
  fx_done :: bool
  fx_addnumber :: u64
  fx_r_type :: nat

record ('y, 'x) segment =
  frags :: "'y frag list"
  tails :: "nat list"
  frag_now :: nat
  fixups :: "'y fixup list"
  unsupported_reloc :: "string option"
  ext :: 'x

text \<open>What the glue calls in gas and bfd. \<open>gas_value\<close> and the like take the section where gas reads
  it (a symbol of the section has its value through a frag); \<open>gas_now_fix\<close> is
  \<open>frag_now_fix\<close>, which looks at the obstack only. \<open>c_malloc\<close> says whether an allocation
  succeeds.\<close>

record ('y, 'x) gas_ops =
  gas_now_fix :: "'x \<Rightarrow> u64"
  gas_as_bad :: "string \<Rightarrow> 'x \<Rightarrow> 'x"
  gas_had_errors :: "'x \<Rightarrow> int"
  gas_value :: "'y \<Rightarrow> ('y, 'x) segment \<Rightarrow> u64"
  gas_in_text :: "'y \<Rightarrow> 'x \<Rightarrow> bool"
  gas_is_defined :: "'y \<Rightarrow> 'x \<Rightarrow> bool"
  gas_name :: "'y \<Rightarrow> string"
  gas_resolve_value :: "'y \<Rightarrow> ('y, 'x) segment \<Rightarrow> ('y, 'x) segment"
  gas_pcrel_from :: "'y fixup \<Rightarrow> ('y, 'x) segment \<Rightarrow> u64"
  gas_md_apply_fix :: "nat \<Rightarrow> u64 \<Rightarrow> ('y, 'x) segment \<Rightarrow> ('y, 'x) segment"
  gas_md_convert_frag :: "nat \<Rightarrow> ('y, 'x) segment \<Rightarrow> ('y, 'x) segment"
  gas_relax_segment :: "nat \<Rightarrow> ('y, 'x) segment \<Rightarrow> bool \<times> ('y, 'x) segment"
  gas_rlx_more :: "u32 \<Rightarrow> u32"
  gas_howto :: "nat \<Rightarrow> howto option"
  c_malloc :: "nat \<Rightarrow> bool"

definition update_frag :: "nat \<Rightarrow> ('y frag \<Rightarrow> 'y frag) \<Rightarrow> ('y, 'x) segment \<Rightarrow> ('y, 'x) segment" where
  "update_frag i f s = s\<lparr>frags := (frags s)[i := f (frags s ! i)]\<rparr>"

definition as_bad :: "('y, 'x) gas_ops \<Rightarrow> string \<Rightarrow> ('y, 'x) segment \<Rightarrow> ('y, 'x) segment" where
  "as_bad g msg s = s\<lparr>ext := gas_as_bad g msg (ext s)\<rparr>"

subsection \<open>Sizes\<close>

text \<open>\<open>frag_fix_size\<close>: the live tail frag is measured on the obstack, a closed one holds its size.\<close>

definition frag_fix_size :: "('y, 'x) gas_ops \<Rightarrow> ('y, 'x) segment \<Rightarrow> nat \<Rightarrow> u64" where
  "frag_fix_size g s i =
     (if i \<in> set (tails s) \<and> i = frag_now s then gas_now_fix g (ext s) else fr_fix (frags s ! i))"

definition frag_fill_size :: "'y frag \<Rightarrow> u64" where
  "frag_fill_size fr =
     (if fr_type fr = Rs_fill \<and> 0 < sint (fr_var fr) \<and> 0 < sint (fr_offset fr)
      then fr_offset fr * fr_var fr else 0)"

subsection \<open>\<open>layout\<close>\<close>

definition layout_frag ::
    "('y, 'x) gas_ops \<Rightarrow> nat \<Rightarrow> u64 \<times> ('y, 'x) segment \<Rightarrow> u64 \<times> ('y, 'x) segment" where
  "layout_frag g i = (\<lambda>(addr, s).
     (addr + (frag_fix_size g s i + frag_fill_size (frags s ! i)),
      update_frag i (fr_address_update (\<lambda>_. addr)) s))"

definition layout :: "('y, 'x) gas_ops \<Rightarrow> ('y, 'x) segment \<Rightarrow> ('y, 'x) segment" where
  "layout g s = snd (fold (layout_frag g) [0..<length (frags s)] (0, s))"

subsection \<open>\<open>finalize_align_org\<close>\<close>

definition align_pad :: "'y frag \<Rightarrow> u64 \<Rightarrow> u64" where
  "align_pad fr off =
     (let boundary = push_bit (unat (fr_offset fr)) 1;
          pad = (boundary - (off AND (boundary - 1))) AND (boundary - 1)
      in if fr_subtype fr \<noteq> 0 \<and> pad > ucast (fr_subtype fr) then 0 else pad)"

definition org_target :: "('y, 'x) gas_ops \<Rightarrow> ('y, 'x) segment \<Rightarrow> 'y frag \<Rightarrow> u64" where
  "org_target g s fr =
     fr_offset fr + (case fr_symbol fr of None \<Rightarrow> 0 | Some y \<Rightarrow> gas_value g y s)"

definition settle_fill :: "u64 \<Rightarrow> 'y frag \<Rightarrow> 'y frag" where
  "settle_fill pad fr = fr\<lparr>fr_type := Rs_fill, fr_offset := pad, fr_var := 1\<rparr>"

definition finalize_frag ::
    "('y, 'x) gas_ops \<Rightarrow> nat \<Rightarrow> u64 \<times> ('y, 'x) segment \<Rightarrow> u64 \<times> ('y, 'x) segment" where
  "finalize_frag g i = (\<lambda>(addr, s0).
     let s = update_frag i (fr_address_update (\<lambda>_. addr)) s0;
         fr = frags s ! i;
         fixed = frag_fix_size g s i;
         off = addr + fixed
     in if fr_type fr = Rs_align \<or> fr_type fr = Rs_align_code then
          let pad = align_pad fr off
          in (addr + (fixed + pad), update_frag i (settle_fill pad) s)
        else if fr_type fr = Rs_org then
          let target = org_target g s fr;
              (pad, s') = (if target < off then (0, as_bad g ''attempt to move .org backwards'' s)
                           else (target - off, s))
          in (addr + (fixed + pad), update_frag i (settle_fill pad) s')
        else (addr + (fixed + frag_fill_size fr), s))"

definition finalize_align_org :: "('y, 'x) gas_ops \<Rightarrow> ('y, 'x) segment \<Rightarrow> ('y, 'x) segment" where
  "finalize_align_org g s = snd (fold (finalize_frag g) [0..<length (frags s)] (0, s))"

subsection \<open>A pass that settles one frag at a time\<close>

text \<open>The total size of a frag, the sum of the sizes in front of it, and what a pass must not
  touch.\<close>

definition frag_size :: "('y, 'x) gas_ops \<Rightarrow> ('y, 'x) segment \<Rightarrow> nat \<Rightarrow> u64" where
  "frag_size g s i = frag_fix_size g s i + frag_fill_size (frags s ! i)"

definition prefix_size :: "('y, 'x) gas_ops \<Rightarrow> ('y, 'x) segment \<Rightarrow> nat \<Rightarrow> u64" where
  "prefix_size g s i = sum_list (map (frag_size g s) [0..<i])"

text \<open>Reporting an error leaves the obstack alone.\<close>

definition quiet_errors :: "('y, 'x) gas_ops \<Rightarrow> bool" where
  "quiet_errors g \<longleftrightarrow> (\<forall>msg x. gas_now_fix g (gas_as_bad g msg x) = gas_now_fix g x)"

definition same_but :: "('y, 'x) gas_ops \<Rightarrow> nat set \<Rightarrow> ('y, 'x) segment \<Rightarrow> ('y, 'x) segment \<Rightarrow> bool" where
  "same_but g I s s' \<longleftrightarrow>
     length (frags s') = length (frags s) \<and> tails s' = tails s \<and> frag_now s' = frag_now s \<and>
     fixups s' = fixups s \<and> gas_now_fix g (ext s') = gas_now_fix g (ext s) \<and>
     (\<forall>j. j \<notin> I \<longrightarrow> frags s' ! j = frags s ! j) \<and>
     (\<forall>j < length (frags s). fr_fix (frags s' ! j) = fr_fix (frags s ! j) \<and>
        fr_literal (frags s' ! j) = fr_literal (frags s ! j))"

lemma same_but_refl [intro, simp]: "same_but g I s s"
  by (simp add: same_but_def)

lemma same_but_trans: "same_but g I s t \<Longrightarrow> same_but g J t u \<Longrightarrow> same_but g (I \<union> J) s u"
  by (auto simp: same_but_def)

lemma same_but_mono: "same_but g I s t \<Longrightarrow> I \<subseteq> J \<Longrightarrow> same_but g J s t"
  by (auto simp: same_but_def)

lemma same_but_fix_size: "same_but g I s t \<Longrightarrow> i < length (frags s) \<Longrightarrow> frag_fix_size g t i = frag_fix_size g s i"
  by (auto simp: same_but_def frag_fix_size_def)

lemma same_but_size: "same_but g I s t \<Longrightarrow> i \<notin> I \<Longrightarrow> frag_size g t i = frag_size g s i"
  by (auto simp: same_but_def frag_size_def frag_fix_size_def)

lemma same_but_prefix: "same_but g I s t \<Longrightarrow> (\<And>j. j < i \<Longrightarrow> j \<notin> I) \<Longrightarrow> prefix_size g t i = prefix_size g s i"
  unfolding prefix_size_def by (intro arg_cong [where f = sum_list] map_cong) (auto simp: same_but_size)

lemma same_but_update:
  "(\<And>fr. fr_fix (f fr) = fr_fix fr) \<Longrightarrow> (\<And>fr. fr_literal (f fr) = fr_literal fr) \<Longrightarrow>
    same_but g {i} s (update_frag i f s)"
  by (cases "i < length (frags s)") (auto simp: same_but_def update_frag_def nth_list_update)

lemma same_but_as_bad: "quiet_errors g \<Longrightarrow> same_but g I s (as_bad g msg s)"
  by (simp add: same_but_def as_bad_def quiet_errors_def)

text \<open>The contract \<open>layout\<close> and \<open>finalize_align_org\<close> share: the step at frag \<open>i\<close> touches frag \<open>i\<close>
  only, gives it the running address, and advances the address by the size the frag ends up
  with. \<open>good\<close> is what the step needs of the frag for the last of these.\<close>

locale frag_sweep =
  fixes g :: "('y, 'x) gas_ops"
    and ok :: bool
    and good :: "'y frag \<Rightarrow> bool"
    and step :: "nat \<Rightarrow> u64 \<times> ('y, 'x) segment \<Rightarrow> u64 \<times> ('y, 'x) segment"
  assumes step_frame: "ok \<Longrightarrow> same_but g {i} s (snd (step i (addr, s)))"
    and step_address: "i < length (frags s) \<Longrightarrow> fr_address (frags (snd (step i (addr, s))) ! i) = addr"
    and step_advance: "ok \<Longrightarrow> i < length (frags s) \<Longrightarrow> good (frags s ! i) \<Longrightarrow>
      fst (step i (addr, s)) = addr + frag_size g (snd (step i (addr, s))) i"
begin

definition sweep :: "nat \<Rightarrow> ('y, 'x) segment \<Rightarrow> u64 \<times> ('y, 'x) segment" where
  "sweep k s = fold step [0..<k] (0, s)"

lemma sweep_0 [simp]: "sweep 0 s = (0, s)"
  by (simp add: sweep_def)

lemma sweep_Suc: "sweep (Suc k) s = step k (sweep k s)"
  by (simp add: sweep_def)

lemma sweep_frame: "ok \<Longrightarrow> same_but g {0..<k} s (snd (sweep k s))"
proof (induction k)
  case (Suc k)
  have "{0..<k} \<union> {k} = {0..<Suc k}" by auto
  then show ?case
    using same_but_trans [OF Suc.IH step_frame] Suc.prems
    by (metis sweep_Suc prod.collapse)
qed simp

lemma sweep_address:
  assumes ok "\<And>j. j < k \<Longrightarrow> good (frags s ! j)" "k \<le> length (frags s)"
  shows "fst (sweep k s) = prefix_size g (snd (sweep k s)) k \<and>
    (\<forall>j < k. fr_address (frags (snd (sweep k s)) ! j) = prefix_size g (snd (sweep k s)) j)"
  using assms(2,3)
proof (induction k)
  case 0
  then show ?case by (simp add: prefix_size_def)
next
  case (Suc k)
  obtain a t where t: "sweep k s = (a, t)" by fastforce
  let ?u = "snd (step k (a, t))"
  have frame: "same_but g {0..<k} s t" and here: "same_but g {k} t ?u"
    using sweep_frame [OF assms(1), of k s] step_frame [OF assms(1), of k t a] t by simp_all
  have len: "k < length (frags t)" and good: "good (frags t ! k)"
    using frame Suc.prems by (auto simp: same_but_def)
  have below: "prefix_size g ?u j = prefix_size g t j" if "j \<le> k" for j
    using that by (intro same_but_prefix [OF here]) auto
  have kept: "frags ?u ! j = frags t ! j" if "j < k" for j
    using here that by (auto simp: same_but_def)
  have "fst (step k (a, t)) = prefix_size g ?u (Suc k)"
    using step_advance [OF assms(1) len good, of a] Suc t below by (simp add: prefix_size_def)
  moreover have "fr_address (frags ?u ! j) = prefix_size g ?u j" if "j < Suc k" for j
    using that Suc t below kept step_address [OF len, of a] by (cases "j = k") auto
  ultimately show ?case by (simp add: sweep_Suc t)
qed

lemma sweep_frag:
  assumes ok "i < k"
  shows "frags (snd (sweep k s)) ! i = frags (snd (step i (sweep i s))) ! i \<and>
    prefix_size g (snd (sweep k s)) i = prefix_size g (snd (sweep i s)) i"
  using assms(2)
proof (induction k)
  case (Suc k)
  obtain a t where t: "sweep k s = (a, t)" by fastforce
  have here: "same_but g {k} t (snd (step k (a, t)))"
    using step_frame [OF assms(1)] .
  then have prefix: "prefix_size g (snd (step k (a, t))) i = prefix_size g t i"
    using Suc.prems by (intro same_but_prefix) auto
  show ?case
  proof (cases "i = k")
    case True
    then show ?thesis using prefix by (simp add: sweep_Suc t)
  next
    case False
    then have "frags (snd (step k (a, t))) ! i = frags t ! i"
      using here by (simp add: same_but_def)
    then show ?thesis
      using Suc False prefix by (simp add: sweep_Suc t)
  qed
qed simp

text \<open>The frag the step at \<open>i\<close> leaves is the final one, and the address it was given is the sum
  of the final sizes in front of it.\<close>

lemma sweep_final:
  assumes ok "\<And>j. j < length (frags s) \<Longrightarrow> good (frags s ! j)" "i < length (frags s)"
  shows "\<exists>t. same_but g {0..<i} s t \<and>
    frags (snd (sweep (length (frags s)) s)) ! i =
      frags (snd (step i (prefix_size g (snd (sweep (length (frags s)) s)) i, t))) ! i"
proof -
  obtain a t where t: "sweep i s = (a, t)" by fastforce
  have "a = prefix_size g t i"
    using sweep_address [OF assms(1), of i s] assms(2,3) by (simp add: t)
  then show ?thesis
    using sweep_frag [OF assms(1,3), of s] sweep_frame [OF assms(1), of i s]
    by (intro exI [of _ t]) (simp add: t)
qed

end

subsection \<open>The passes meet the contract\<close>

lemma update_frag_simps [simp]:
  "length (frags (update_frag i f s)) = length (frags s)"
  "i < length (frags s) \<Longrightarrow> frags (update_frag i f s) ! i = f (frags s ! i)"
  "i \<noteq> j \<Longrightarrow> frags (update_frag i f s) ! j = frags s ! j"
  "tails (update_frag i f s) = tails s" "frag_now (update_frag i f s) = frag_now s"
  "ext (update_frag i f s) = ext s"
  by (simp_all add: update_frag_def)

lemma fix_size_update [simp]:
  assumes "\<And>fr. fr_fix (f fr) = fr_fix fr"
  shows "frag_fix_size g (update_frag i f s) j = frag_fix_size g s j"
proof -
  have "fr_fix (frags (update_frag i f s) ! j) = fr_fix (frags s ! j)"
    using assms by (cases "i < length (frags s)"; cases "i = j") (simp_all add: update_frag_def list_update_beyond)
  then show ?thesis by (auto simp: frag_fix_size_def)
qed

lemma as_bad_simps [simp]: "frags (as_bad g msg s) = frags s"
  by (simp add: as_bad_def)

interpretation lay: frag_sweep g True "\<lambda>fr. True" "layout_frag g" for g
proof
  fix i addr s
  show "same_but g {i} s (snd (layout_frag g i (addr, s)))"
    by (simp add: layout_frag_def same_but_update)
  assume i: "i < length (frags s)"
  then show "fr_address (frags (snd (layout_frag g i (addr, s))) ! i) = addr"
    by (simp add: layout_frag_def)
  show "fst (layout_frag g i (addr, s)) = addr + frag_size g (snd (layout_frag g i (addr, s))) i"
    using i by (simp add: layout_frag_def frag_size_def frag_fill_size_def)
qed

text \<open>The frags the glue creates: alignments up to $2^{62}$ bytes, and non-negative \<open>.org\<close> targets
  without a symbol.\<close>

definition good_frag :: "'y frag \<Rightarrow> bool" where
  "good_frag fr \<longleftrightarrow>
     (fr_type fr \<in> {Rs_align, Rs_align_code} \<longrightarrow> unat (fr_offset fr) \<le> 62) \<and>
     (fr_type fr = Rs_org \<longrightarrow> fr_symbol fr = None \<and> 0 \<le> sint (fr_offset fr))"

lemma settled_size: "0 \<le> sint pad \<Longrightarrow> frag_fill_size (settle_fill pad fr) = pad"
  using signed_eq_0_iff [of pad]
  by (cases "sint pad = 0") (auto simp: frag_fill_size_def settle_fill_def)

lemma settle_fill_simps [simp]:
  "fr_fix (settle_fill pad fr) = fr_fix fr" "fr_literal (settle_fill pad fr) = fr_literal fr"
  "fr_address (settle_fill pad fr) = fr_address fr" "fr_type (settle_fill pad fr) = Rs_fill"
  "fr_offset (settle_fill pad fr) = pad" "fr_var (settle_fill pad fr) = 1"
  by (simp_all add: settle_fill_def)

text \<open>The padding up to the next multiple of $2^p$.\<close>

definition needed_pad :: "nat \<Rightarrow> u64 \<Rightarrow> u64" where
  "needed_pad p off = take_bit p (push_bit p 1 - take_bit p off)"

lemma align_pad_needed:
  assumes "unat (fr_offset fr) \<le> 62"
  shows "align_pad fr off =
    (let pad = needed_pad (unat (fr_offset fr)) off
     in if fr_subtype fr \<noteq> 0 \<and> pad > ucast (fr_subtype fr) then 0 else pad)"
proof -
  have "push_bit p 1 - 1 = (mask p :: u64)" for p
    by (simp add: mask_eq_exp_minus_1 push_bit_eq_mult)
  then show ?thesis
    by (simp only: align_pad_def needed_pad_def Let_def flip: take_bit_eq_mask)
qed

lemma take_bit_add_word: "take_bit n (take_bit n a + take_bit n b) = take_bit n (a + b)"
  for a b :: "'a::len word"
  by transfer (simp add: take_bit_add)

lemma needed_pad_aligns: "take_bit p (off + needed_pad p off) = 0" if "p \<le> 62"
proof -
  have "take_bit p (a + take_bit p x) = take_bit p (take_bit p a + x)" for a x :: u64
    using take_bit_add_word [of p a "take_bit p x"] take_bit_add_word [of p "take_bit p a" x] by simp
  then have "take_bit p (off + needed_pad p off) = take_bit p (push_bit p 1)"
    by (simp add: needed_pad_def)
  also have "\<dots> = 0" by (simp only: take_bit_push_bit) simp
  finally show ?thesis .
qed

lemma needed_pad_less: "p \<le> 62 \<Longrightarrow> uint (needed_pad p off) < 2 ^ p"
  by (simp add: needed_pad_def unsigned_take_bit_eq)

lemma sint_of_small: "uint w < 2 ^ 63 \<Longrightarrow> sint w = uint w" for w :: u64
  unfolding sint_uint
  by (rule signed_take_bit_int_eq_self) (auto intro: order_trans [OF _ uint_ge_0])

lemma align_pad_sint:
  assumes "unat (fr_offset fr) \<le> 62"
  shows "0 \<le> sint (align_pad fr off)"
proof -
  have "(2 :: int) ^ unat (fr_offset fr) \<le> 2 ^ 63" using assms by (intro power_increasing) auto
  then have "sint (needed_pad (unat (fr_offset fr)) off) = uint (needed_pad (unat (fr_offset fr)) off)"
    using needed_pad_less [OF assms, of off] by (intro sint_of_small) linarith
  then show ?thesis
    by (simp add: align_pad_needed [OF assms] Let_def)
qed

lemma uint_of_nonneg: "0 \<le> sint w \<Longrightarrow> uint w = sint w \<and> uint w < 2 ^ 63" for w :: u64
proof -
  assume "0 \<le> sint w"
  moreover have "sint w < 2 ^ 63" using sint_less [of w] by simp
  moreover have "take_bit 64 (sint w) = uint w"
    by (simp add: sint_uint take_bit_signed_take_bit take_bit_word_eq_self flip: unsigned_take_bit_eq)
  ultimately show ?thesis using take_bit_int_eq_self [of "sint w" 64] by simp
qed

lemma org_pad_sint:
  fixes target off :: u64
  assumes "\<not> target < off" "0 \<le> sint target"
  shows "0 \<le> sint (target - off)"
proof -
  have "uint (target - off) = uint target - uint off"
    using assms(1) by (simp add: uint_sub_if' word_less_def)
  then have "uint (target - off) < 2 ^ 63"
    using uint_of_nonneg [OF assms(2)] uint_ge_0 [of off] by linarith
  then show ?thesis by (simp add: sint_of_small)
qed

interpretation fin: frag_sweep g "quiet_errors g" good_frag "finalize_frag g" for g
proof
  fix i addr s
  show frame: "same_but g {i} s (snd (finalize_frag g i (addr, s)))" if "quiet_errors g"
  proof -
    let ?s = "update_frag i (fr_address_update (\<lambda>_. addr)) s"
    have 1: "same_but g {i} s ?s" by (rule same_but_update) simp_all
    have 2: "same_but g {i} s (update_frag i (settle_fill pad) ?s)" for pad
      using same_but_trans [OF 1 same_but_update [where i = i and f = "settle_fill pad"]] by simp
    have 3: "same_but g {i} s (update_frag i (settle_fill pad) (as_bad g msg ?s))" for pad msg
      using same_but_trans [OF 1 same_but_trans [OF same_but_as_bad [OF that, of "{i}"]
            same_but_update [where i = i and f = "settle_fill pad"]]] by simp
    show ?thesis by (simp add: finalize_frag_def Let_def 1 2 3)
  qed
  assume i: "i < length (frags s)"
  then show "fr_address (frags (snd (finalize_frag g i (addr, s))) ! i) = addr"
    by (simp add: finalize_frag_def Let_def)
  show "fst (finalize_frag g i (addr, s)) = addr + frag_size g (snd (finalize_frag g i (addr, s))) i"
    if quiet: "quiet_errors g" and good: "good_frag (frags s ! i)"
  proof -
    have "frag_fix_size g (snd (finalize_frag g i (addr, s))) i = frag_fix_size g s i"
      using same_but_fix_size [OF frame [OF quiet] i] .
    then show ?thesis
      using good i
      by (auto simp: finalize_frag_def Let_def frag_size_def good_frag_def settled_size align_pad_sint
          org_pad_sint org_target_def)
  qed
qed

subsection \<open>What the passes establish\<close>

lemma layout_sweep: "layout g s = snd (lay.sweep g (length (frags s)) s)"
  by (simp add: layout_def lay.sweep_def)

lemma finalize_sweep: "finalize_align_org g s = snd (fin.sweep g (length (frags s)) s)"
  by (simp add: finalize_align_org_def fin.sweep_def)

lemma layout_frag_rest:
  "frags (snd (layout_frag g i (addr, s))) = (frags s)[i := (frags s ! i)\<lparr>fr_address := addr\<rparr>]"
  "ext (snd (layout_frag g i (addr, s))) = ext s"
  by (simp_all add: layout_frag_def update_frag_def)

end
