(* ===== verification/Layout.thy ===== *)
theory Layout
  imports Frags
begin

text \<open>
  What the layout passes establish: \<open>layout\<close> gives every frag the sum of the sizes in front of
  it; \<open>finalize_align_org\<close> turns each alignment and \<open>.org\<close> frag into a fill of exactly the padding
  it needs, and leaves the section laid out.
\<close>

lemma prefix_size_0 [simp]: "prefix_size g s 0 = 0"
  by (simp add: prefix_size_def)

lemma prefix_size_Suc: "prefix_size g s (Suc i) = prefix_size g s i + frag_size g s i"
  by (simp add: prefix_size_def)

lemma layout_step_keeps:
  "tails (snd (layout_frag g i p)) = tails (snd p)" "frag_now (snd (layout_frag g i p)) = frag_now (snd p)"
  "fixups (snd (layout_frag g i p)) = fixups (snd p)" "ext (snd (layout_frag g i p)) = ext (snd p)"
  "unsupported_reloc (snd (layout_frag g i p)) = unsupported_reloc (snd p)"
  by (cases p; simp add: layout_frag_def update_frag_def)+

lemma layout_keeps:
  "tails (snd (lay.sweep g k s)) = tails s \<and> frag_now (snd (lay.sweep g k s)) = frag_now s \<and>
   fixups (snd (lay.sweep g k s)) = fixups s \<and>
   unsupported_reloc (snd (lay.sweep g k s)) = unsupported_reloc s \<and> ext (snd (lay.sweep g k s)) = ext s"
  by (induction k) (simp_all add: lay.sweep_Suc layout_step_keeps)

lemma layout_step_size: "frag_size g (snd (layout_frag g j p)) i = frag_size g (snd p) i"
proof (cases p)
  case (Pair a s)
  have "frag_fill_size (frags (update_frag j (fr_address_update (\<lambda>_. a)) s) ! i) = frag_fill_size (frags s ! i)"
    by (cases "j < length (frags s)"; cases "i = j")
      (simp_all add: update_frag_def list_update_beyond frag_fill_size_def)
  then show ?thesis by (simp add: Pair frag_size_def layout_frag_def)
qed

lemma layout_sizes: "frag_size g (snd (lay.sweep g k s)) i = frag_size g s i"
  by (induction k) (simp_all add: lay.sweep_Suc layout_step_size)

lemma layout_prefix: "prefix_size g (snd (lay.sweep g k s)) i = prefix_size g s i"
  unfolding prefix_size_def by (intro arg_cong [where f = sum_list] map_cong refl layout_sizes)

lemma layout_frags:
  assumes "i < length (frags s)"
  shows "frags (layout g s) ! i = (frags s ! i)\<lparr>fr_address := prefix_size g s i\<rparr>"
proof -
  obtain t where "same_but g {0..<i} s t"
    and "frags (layout g s) ! i = frags (snd (layout_frag g i (prefix_size g s i, t))) ! i"
    using lay.sweep_final [of s i g] assms by (auto simp: layout_sweep layout_prefix)
  then show ?thesis
    using assms by (auto simp: layout_frag_def same_but_def)
qed

text \<open>\<open>layout\<close> writes into every frag the running sum of the sizes of the frags in front of
  it, modulo $2^{64}$, and changes nothing else.\<close>

lemma layout_addresses:
  "layout g s = s\<lparr>frags := map (\<lambda>i. (frags s ! i)\<lparr>fr_address := prefix_size g s i\<rparr>) [0..<length (frags s)]\<rparr>"
proof -
  have "length (frags (layout g s)) = length (frags s)"
    using lay.sweep_frame [of g "length (frags s)" s] by (simp add: layout_sweep same_but_def)
  then have "frags (layout g s) = map (\<lambda>i. (frags s ! i)\<lparr>fr_address := prefix_size g s i\<rparr>) [0..<length (frags s)]"
    by (intro nth_equalityI) (simp_all add: layout_frags)
  then show ?thesis
    using layout_keeps [of g "length (frags s)" s] by (simp add: layout_sweep)
qed

text \<open>The frag addresses are the running sums of the sizes in front of them.\<close>

definition addressed :: "('y, 'x) gas_ops \<Rightarrow> ('y, 'x) segment \<Rightarrow> bool" where
  "addressed g s \<longleftrightarrow> (\<forall>i < length (frags s). fr_address (frags s ! i) = prefix_size g s i)"

lemma layout_addressed:
  assumes "addressed g s"
  shows "layout g s = s"
proof -
  have "map (\<lambda>i. (frags s ! i)\<lparr>fr_address := prefix_size g s i\<rparr>) [0..<length (frags s)]
      = map (\<lambda>i. frags s ! i) [0..<length (frags s)]"
    using assms by (intro map_cong refl) (simp add: addressed_def frag.equality)
  then show ?thesis by (simp add: layout_addresses map_nth)
qed

subsection \<open>\<open>finalize_align_org\<close>\<close>

definition all_good :: "('y, 'x) segment \<Rightarrow> bool" where
  "all_good s \<longleftrightarrow> (\<forall>fr \<in> set (frags s). good_frag fr)"

definition is_align :: "'y frag \<Rightarrow> bool" where
  "is_align fr \<longleftrightarrow> fr_type fr = Rs_align \<or> fr_type fr = Rs_align_code"

lemma finalize_frag_result:
  "i < length (frags t) \<Longrightarrow> frags (snd (finalize_frag g i (a, t))) ! i =
    (let fr = (frags t ! i)\<lparr>fr_address := a\<rparr>; off = a + frag_fix_size g t i
     in if is_align fr then settle_fill (align_pad fr off) fr
        else if fr_type fr = Rs_org then
          let target = org_target g (update_frag i (fr_address_update (\<lambda>_. a)) t) fr
          in settle_fill (if target < off then 0 else target - off) fr
        else fr)"
  by (simp add: finalize_frag_def is_align_def Let_def)

lemma finalized:
  assumes "quiet_errors g" "all_good s" "i < length (frags s)"
  shows "frags (finalize_align_org g s) ! i =
    (let fr = (frags s ! i)\<lparr>fr_address := prefix_size g (finalize_align_org g s) i\<rparr>;
         off = fr_address fr + frag_fix_size g s i
     in if is_align fr then settle_fill (align_pad fr off) fr
        else if fr_type fr = Rs_org then
          settle_fill (if fr_offset fr < off then 0 else fr_offset fr - off) fr
        else fr)"
proof -
  have good: "\<And>j. j < length (frags s) \<Longrightarrow> good_frag (frags s ! j)"
    using assms(2) by (simp add: all_good_def)
  obtain t where t: "same_but g {0..<i} s t" and final: "frags (finalize_align_org g s) ! i =
      frags (snd (finalize_frag g i (prefix_size g (finalize_align_org g s) i, t))) ! i"
    using fin.sweep_final [OF assms(1) good assms(3)] by (auto simp: finalize_sweep)
  have same: "frags t ! i = frags s ! i" "i < length (frags t)" "frag_fix_size g t i = frag_fix_size g s i"
    using t assms(3) same_but_fix_size [OF t assms(3)] by (auto simp: same_but_def)
  have "org_target g u fr = fr_offset (frags s ! i)"
    if "fr_type (frags s ! i) = Rs_org" "fr_offset fr = fr_offset (frags s ! i)"
      "fr_symbol fr = fr_symbol (frags s ! i)" for u fr
    using good [OF assms(3)] that by (simp add: good_frag_def org_target_def)
  then show ?thesis
    unfolding final finalize_frag_result [OF same(2)] by (simp add: same Let_def is_align_def)
qed

lemma finalize_frame: "quiet_errors g \<Longrightarrow> same_but g UNIV s (finalize_align_org g s)"
  unfolding finalize_sweep by (rule same_but_mono [OF fin.sweep_frame subset_UNIV])

lemma finalize_addressed:
  assumes "quiet_errors g" "all_good s"
  shows "addressed g (finalize_align_org g s)"
  using fin.sweep_address [OF assms(1), of "length (frags s)" s] assms
    finalize_frame [OF assms(1), of s]
  by (auto simp: addressed_def all_good_def finalize_sweep same_but_def)

text \<open>C25. After \<open>finalize_align_org\<close> no alignment or \<open>.org\<close> frag is left, every frag has the
  address the sizes in front of it add up to, fixed parts and their contents are as before, and
  the \<open>layout\<close> that follows it in \<open>nyxstone_glue_resolve_text_fixups\<close> changes nothing more.\<close>

theorem finalize_settles_layout:
  assumes "quiet_errors g" "all_good s"
  shows "addressed g (finalize_align_org g s) \<and>
    layout g (finalize_align_org g s) = finalize_align_org g s \<and>
    same_but g UNIV s (finalize_align_org g s) \<and>
    (\<forall>fr \<in> set (frags (finalize_align_org g s)). \<not> is_align fr \<and> fr_type fr \<noteq> Rs_org)"
proof -
  let ?t = "finalize_align_org g s"
  have "\<not> is_align (frags ?t ! i) \<and> fr_type (frags ?t ! i) \<noteq> Rs_org" if "i < length (frags ?t)" for i
    using finalized [OF assms, of i] that finalize_frame [OF assms(1), of s]
    by (auto simp: same_but_def Let_def is_align_def)
  then have "\<forall>fr \<in> set (frags ?t). \<not> is_align fr \<and> fr_type fr \<noteq> Rs_org"
    by (auto simp: in_set_conv_nth)
  then show ?thesis
    using finalize_addressed [OF assms] finalize_frame [OF assms(1)] by (simp add: layout_addressed)
qed

text \<open>A concrete gas to evaluate on: symbols are numbers, a symbol's value is its number, and the
  state counts the errors; together with a section of three bytes, a branch-free alignment to 8
  and an \<open>.org\<close>.\<close>

definition sample_gas :: "(nat, int) gas_ops" where
  "sample_gas = \<lparr>
     gas_now_fix = (\<lambda>_. 0), gas_as_bad = (\<lambda>_ n. n + 1), gas_had_errors = (\<lambda>n. n),
     gas_value = (\<lambda>y _. of_nat y), gas_in_text = (\<lambda>y _. y < 100),
     gas_is_defined = (\<lambda>y _. y < 200), gas_name = (\<lambda>_. ''sym''),
     gas_resolve_value = (\<lambda>_ s. s), gas_pcrel_from = (\<lambda>fx _. fx_where fx),
     gas_md_apply_fix = (\<lambda>_ _ s. s), gas_md_convert_frag = (\<lambda>_ s. s),
     gas_relax_segment = (\<lambda>_ s. (False, s)), gas_rlx_more = (\<lambda>_. 0),
     gas_howto = (\<lambda>_. Some \<lparr>h_name = Some ''R_TRICORE_32ABS'', h_dst_mask = 0xffffffff, h_bitpos = 0,
       h_pc_relative = False, h_type = 2\<rparr>), c_malloc = (\<lambda>_. True)\<rparr>"

definition sample_frag :: "rs_type \<Rightarrow> i64 \<Rightarrow> byte list \<Rightarrow> nat frag" where
  "sample_frag ty off bytes = \<lparr>fr_address = 0, fr_fix = of_nat (length bytes), fr_var = 0,
     fr_offset = off, fr_subtype = 0, fr_type = ty, fr_symbol = None, fr_literal = bytes @ [0]\<rparr>"

definition sample_section :: "i64 \<Rightarrow> (nat, int) segment" where
  "sample_section target = \<lparr>
     frags = [sample_frag Rs_fill 0 [1, 2, 3], sample_frag Rs_align 3 [4, 5], sample_frag Rs_org target [6],
              sample_frag Rs_fill 0 [7]],
     tails = [3], frag_now = 4, fixups = [], unsupported_reloc = None, ext = 0\<rparr>"

lemma sample_gas_good: "quiet_errors sample_gas" "0 \<le> sint target \<Longrightarrow> all_good (sample_section target)"
  by (simp_all add: quiet_errors_def sample_gas_def all_good_def sample_section_def sample_frag_def
      good_frag_def)

theorem finalize_settles_layout_witness:
  "map fr_address (frags (finalize_align_org sample_gas (sample_section 12))) = [0, 3, 8, 12] \<and>
   layout sample_gas (finalize_align_org sample_gas (sample_section 12))
     = finalize_align_org sample_gas (sample_section 12)"
proof -
  have "map fr_address (frags (finalize_align_org sample_gas (sample_section 12))) = [0, 3, 8, 12]"
    by code_simp
  then show ?thesis
    using finalize_settles_layout [OF sample_gas_good, of 12] by simp
qed

lemma ucast_u32_eq_0: "(ucast x :: u64) = 0 \<longleftrightarrow> x = 0" for x :: u32
  using bit_imp_le_length [of x] by (fastforce simp: bit_eq_iff bit_simps)

text \<open>C26. An alignment frag ends on a multiple of its boundary with less than a boundary of
  padding, unless that padding exceeds its maximum (when it has one): then it gets none.\<close>

theorem align_frag_aligned:
  assumes "quiet_errors g" "all_good s" "i < length (frags s)" "is_align (frags s ! i)"
  shows "let t = finalize_align_org g s; p = unat (fr_offset (frags s ! i));
      m = ucast (fr_subtype (frags s ! i)); off = prefix_size g t i + frag_fix_size g s i
    in if m \<noteq> 0 \<and> m < needed_pad p off then prefix_size g t (Suc i) = off
       else take_bit p (prefix_size g t (Suc i)) = 0 \<and> prefix_size g t (Suc i) - off = needed_pad p off \<and>
         uint (needed_pad p off) < 2 ^ p"
proof -
  define t p and m :: u64 and off where defs: "t = finalize_align_org g s"
    "p = unat (fr_offset (frags s ! i))" "m = ucast (fr_subtype (frags s ! i))"
    "off = prefix_size g t i + frag_fix_size g s i"
  have p: "unat (fr_offset (frags s ! i)) \<le> 62" and fix_t: "frag_fix_size g t i = frag_fix_size g s i"
    using assms same_but_fix_size [OF finalize_frame [OF assms(1)] assms(3)]
    by (auto simp: all_good_def good_frag_def is_align_def defs)
  define pad where "pad = (if m \<noteq> 0 \<and> m < needed_pad p off then 0 else needed_pad p off)"
  have pad: "align_pad ((frags s ! i)\<lparr>fr_address := prefix_size g t i\<rparr>) off = pad"
    using p by (simp add: align_pad_needed defs(2,3) Let_def ucast_u32_eq_0 pad_def)
  have "frags t ! i = settle_fill pad ((frags s ! i)\<lparr>fr_address := prefix_size g t i\<rparr>)"
    using finalized [OF assms(1-3)] assms(4) by (simp add: Let_def is_align_def pad flip: defs)
  moreover have "0 \<le> sint pad"
    using align_pad_sint [of "(frags s ! i)\<lparr>fr_address := prefix_size g t i\<rparr>" off] p by (simp add: pad)
  ultimately have "frag_fill_size (frags t ! i) = pad"
    by (simp add: settled_size)
  then have "prefix_size g t (Suc i) = off + pad"
    by (simp add: prefix_size_Suc frag_size_def fix_t defs(4))
  moreover have "p \<le> 62" using p by (simp add: defs(2))
  ultimately show ?thesis
    unfolding Let_def defs(1-3) [symmetric] defs(4) [symmetric]
    by (simp add: pad_def needed_pad_aligns needed_pad_less)
qed

theorem align_frag_aligned_witness:
  "is_align (frags (sample_section 12) ! 1) \<and>
   take_bit 3 (prefix_size sample_gas (finalize_align_org sample_gas (sample_section 12)) 2) = 0"
proof -
  have "is_align (frags (sample_section 12) ! 1)" "1 < length (frags (sample_section 12))"
    "fr_subtype (frags (sample_section 12) ! 1) = 0" "unat (fr_offset (frags (sample_section 12) ! 1)) = 3"
    by code_simp+
  then show ?thesis
    using align_frag_aligned [OF sample_gas_good, of 12 1] by (simp add: Let_def numeral_2_eq_2)
qed

text \<open>Reporting an error counts it.\<close>

definition counts_errors :: "('y, 'x) gas_ops \<Rightarrow> bool" where
  "counts_errors g \<longleftrightarrow> (\<forall>msg x. gas_had_errors g (gas_as_bad g msg x) = gas_had_errors g x + 1)"

definition errors :: "('y, 'x) gas_ops \<Rightarrow> ('y, 'x) segment \<Rightarrow> int" where
  "errors g s = gas_had_errors g (ext s)"

text \<open>The \<open>.org\<close> frags whose target lies behind the offset reached, by position.\<close>

definition moves_backwards :: "('y, 'x) gas_ops \<Rightarrow> ('y, 'x) segment \<Rightarrow> ('y, 'x) segment \<Rightarrow> nat \<Rightarrow> bool" where
  "moves_backwards g s t i \<longleftrightarrow> \<not> is_align (frags s ! i) \<and> fr_type (frags s ! i) = Rs_org \<and>
     fr_offset (frags s ! i) < prefix_size g t i + frag_fix_size g s i"

lemma finalize_frag_errors:
  assumes "counts_errors g" "good_frag (frags t ! i)" "i < length (frags t)"
  shows "errors g (snd (finalize_frag g i (a, t))) = errors g t +
    of_bool (\<not> is_align (frags t ! i) \<and> fr_type (frags t ! i) = Rs_org \<and>
      fr_offset (frags t ! i) < a + frag_fix_size g t i)"
  using assms
  by (auto simp: finalize_frag_def Let_def errors_def as_bad_def counts_errors_def is_align_def
      good_frag_def org_target_def)

lemma finalize_errors:
  assumes "quiet_errors g" "counts_errors g" "all_good s" "k \<le> length (frags s)"
  shows "errors g (snd (fin.sweep g k s)) =
    errors g s + int (card {i. i < k \<and> moves_backwards g s (snd (fin.sweep g k s)) i})"
  using assms(4)
proof (induction k)
  case (Suc k)
  obtain a t where t: "fin.sweep g k s = (a, t)" by fastforce
  have good: "\<And>j. j < length (frags s) \<Longrightarrow> good_frag (frags s ! j)"
    using assms(3) by (simp add: all_good_def)
  have frame: "same_but g {0..<k} s t" using fin.sweep_frame [OF assms(1), of k s] by (simp add: t)
  have here: "k < length (frags t)" "frags t ! k = frags s ! k"
    "frag_fix_size g t k = frag_fix_size g s k"
    using frame Suc.prems same_but_fix_size [OF frame] by (auto simp: same_but_def)
  have a: "a = prefix_size g t k"
    using fin.sweep_address [OF assms(1), of k s] good Suc.prems by (simp add: t)
  let ?u = "snd (finalize_frag g k (a, t))"
  have stable: "moves_backwards g s ?u i = moves_backwards g s t i" if "i \<le> k" for i
    using same_but_prefix [OF fin.step_frame [OF assms(1), where i = k and addr = a and s = t]] that
    by (simp add: moves_backwards_def)
  have eq: "{i. i < Suc k \<and> moves_backwards g s ?u i} =
      {i. i < k \<and> moves_backwards g s t i} \<union> {i. i = k \<and> moves_backwards g s t k}"
    using stable by (auto simp: less_Suc_eq)
  have "card {i. i < Suc k \<and> moves_backwards g s ?u i} =
      card {i. i < k \<and> moves_backwards g s t i} + of_bool (moves_backwards g s t k)"
    unfolding eq by (cases "moves_backwards g s t k") simp_all
  moreover have "errors g ?u = errors g t + of_bool (moves_backwards g s t k)"
    using finalize_frag_errors [OF assms(2) _ here(1), of a] good [of k] Suc.prems
    by (simp add: here moves_backwards_def a)
  ultimately show ?case
    using Suc by (simp add: fin.sweep_Suc t)
qed simp

text \<open>An \<open>.org\<close> frag ends exactly at its target, or, when the target lies behind the offset
  reached, adds nothing and is reported: the error count grows by the number of such frags, so
  without a new error every \<open>.org\<close> reached its target.\<close>

theorem org_frags_reach_target:
  assumes "quiet_errors g" "counts_errors g" "all_good s"
  shows "let t = finalize_align_org g s
    in errors g t = errors g s + int (card {i. i < length (frags s) \<and> moves_backwards g s t i}) \<and>
       (\<forall>i < length (frags s). fr_type (frags s ! i) = Rs_org \<longrightarrow>
          prefix_size g t (Suc i) =
            (if moves_backwards g s t i then prefix_size g t i + frag_fix_size g s i
             else fr_offset (frags s ! i)))"
proof -
  define t where t: "t = finalize_align_org g s"
  have "prefix_size g t (Suc i) = (if moves_backwards g s t i then prefix_size g t i + frag_fix_size g s i
      else fr_offset (frags s ! i))"
    if i: "i < length (frags s)" "fr_type (frags s ! i) = Rs_org" for i
  proof -
    define off where off: "off = prefix_size g t i + frag_fix_size g s i"
    define pad where pad: "pad = (if fr_offset (frags s ! i) < off then 0 else fr_offset (frags s ! i) - off)"
    have "0 \<le> sint pad"
      using assms(3) i org_pad_sint [of "fr_offset (frags s ! i)" off]
      by (simp add: pad all_good_def good_frag_def)
    moreover have "frags t ! i = settle_fill pad ((frags s ! i)\<lparr>fr_address := prefix_size g t i\<rparr>)"
      using finalized [OF assms(1,3) i(1)] i(2)
      by (simp add: Let_def is_align_def pad off flip: t)
    ultimately have "frag_fill_size (frags t ! i) = pad"
      by (simp add: settled_size)
    moreover have "frag_fix_size g t i = frag_fix_size g s i"
      using same_but_fix_size [OF finalize_frame [OF assms(1)] i(1)] by (simp add: t)
    ultimately have "prefix_size g t (Suc i) = off + pad"
      by (simp add: prefix_size_Suc frag_size_def off)
    then show ?thesis
      using i(2) by (simp add: pad moves_backwards_def is_align_def off)
  qed
  then show ?thesis
    using finalize_errors [OF assms order_refl] by (simp add: Let_def t finalize_sweep)
qed

theorem org_frags_reach_target_witness:
  "errors sample_gas (finalize_align_org sample_gas (sample_section 12)) = 0 \<and>
   prefix_size sample_gas (finalize_align_org sample_gas (sample_section 12)) 3 = 12 \<and>
   errors sample_gas (finalize_align_org sample_gas (sample_section 7)) = 1"
proof -
  have counts: "counts_errors sample_gas" by (simp add: counts_errors_def sample_gas_def)
  have "errors sample_gas (finalize_align_org sample_gas (sample_section 12)) = 0"
    "errors sample_gas (finalize_align_org sample_gas (sample_section 7)) = 1"
    "\<not> moves_backwards sample_gas (sample_section 12) (finalize_align_org sample_gas (sample_section 12)) 2"
    "2 < length (frags (sample_section 12))" "fr_type (frags (sample_section 12) ! 2) = Rs_org"
    "fr_offset (frags (sample_section 12) ! 2) = 12"
    by code_simp+
  then show ?thesis
    using org_frags_reach_target [OF sample_gas_good(1) counts sample_gas_good(2), of 12]
    by (auto simp: Let_def numeral_3_eq_3 numeral_2_eq_2)
qed

end
