(* ===== verification/Extract.thy ===== *)
theory Extract
  imports Layout
begin

text \<open>
  Reading the section out: \<open>nyxstone_glue_extract_text_bytes\<close> and \<open>nyxstone_glue_collect_relocs\<close>
  of \<^verbatim>\<open>src/src/nyxstone_glue.c\<close>. Both are called twice by the driver, first without a buffer
  for the size, then with a buffer of that size; the locale \<open>two_pass\<close> is that protocol.
\<close>

subsection \<open>The query-then-fill protocol\<close>

text \<open>\<open>fetch\<close> is the client: the buffer \<open>std::vector\<close> allocates holds default values, and no second
  call is made for size 0.\<close>

definition fetch :: "('a list option \<Rightarrow> 's \<Rightarrow> nat \<times> 'a list option) \<Rightarrow> 'a \<Rightarrow> 's \<Rightarrow> 'a list" where
  "fetch call z s =
     (let n = fst (call None s)
      in if n = 0 then []
         else case snd (call (Some (replicate n z)) s) of Some buf \<Rightarrow> buf | None \<Rightarrow> [])"

locale two_pass =
  fixes call :: "'a list option \<Rightarrow> 's \<Rightarrow> nat \<times> 'a list option"
    and items :: "'s \<Rightarrow> 'a list"
    and ok :: "'s \<Rightarrow> bool"
  assumes query: "ok s \<Longrightarrow> call None s = (length (items s), None)"
    and fill: "ok s \<Longrightarrow> length buf = length (items s) \<Longrightarrow>
      call (Some buf) s = (length (items s), Some (items s))"
begin

lemma fetch_items: "ok s \<Longrightarrow> fetch call z s = items s"
  by (simp add: fetch_def query fill Let_def)

end

subsection \<open>\<open>nyxstone_glue_extract_text_bytes\<close>\<close>

text \<open>\<open>memcpy\<close> into the output, and the loop that repeats the pattern of a fill frag.\<close>

definition overwrite :: "'a list \<Rightarrow> nat \<Rightarrow> 'a list \<Rightarrow> 'a list" where
  "overwrite out at bs = take at out @ bs @ drop (at + length bs) out"

function fill_loop :: "byte list \<Rightarrow> nat \<Rightarrow> nat \<Rightarrow> nat \<Rightarrow> nat \<Rightarrow> byte list \<Rightarrow> byte list" where
  "fill_loop pat var fill at i out =
     (if var = 0 \<or> fill \<le> i then out
      else fill_loop pat var fill at (i + var) (overwrite out (at + i) pat))"
  by pat_completeness auto

termination
  by (relation "measure (\<lambda>(pat, var, fill, at, i, out). fill - i)") auto

declare fill_loop.simps [simp del]

text \<open>A write happens when there is a buffer and it fits; the count advances either way.\<close>

definition put :: "u64 \<Rightarrow> u64 \<Rightarrow> (byte list \<Rightarrow> byte list) \<Rightarrow> u64 \<times> byte list option \<Rightarrow> u64 \<times> byte list option" where
  "put cap n write = (\<lambda>(pos, out).
     (pos + n,
      case out of None \<Rightarrow> None | Some buf \<Rightarrow> Some (if pos + n \<le> cap then write buf else buf)))"

definition extract_frag ::
    "('y, 'x) gas_ops \<Rightarrow> ('y, 'x) segment \<Rightarrow> u64 \<Rightarrow> nat \<Rightarrow> u64 \<times> byte list option \<Rightarrow> u64 \<times> byte list option" where
  "extract_frag g s cap i acc =
     (let fr = frags s ! i;
          n = frag_fix_size g s i;
          acc1 = (if n \<noteq> 0
                  then put cap n (\<lambda>buf. overwrite buf (unat (fst acc)) (take (unat n) (fr_literal fr))) acc
                  else acc);
          fill = frag_fill_size fr;
          var = fr_var fr
      in if fill \<noteq> 0
         then put cap fill
                (fill_loop (take (unat var) (drop (unat (fr_fix fr)) (fr_literal fr)))
                  (unat var) (unat fill) (unat (fst acc1)) 0) acc1
         else acc1)"

definition extract_text_bytes ::
    "('y, 'x) gas_ops \<Rightarrow> byte list option \<Rightarrow> u64 \<Rightarrow> ('y, 'x) segment \<Rightarrow> u64 \<times> byte list option" where
  "extract_text_bytes g out cap s = fold (extract_frag g s cap) [0..<length (frags s)] (0, out)"

text \<open>The capacity the driver passes is the size of its buffer, 0 without one.\<close>

definition extract_call ::
    "('y, 'x) gas_ops \<Rightarrow> byte list option \<Rightarrow> ('y, 'x) segment \<Rightarrow> nat \<times> byte list option" where
  "extract_call g out s =
     (case extract_text_bytes g out (case out of None \<Rightarrow> 0 | Some buf \<Rightarrow> of_nat (length buf)) s of
        (pos, out') \<Rightarrow> (unat pos, out'))"

subsection \<open>The bytes of the section\<close>

definition fill_count :: "'y frag \<Rightarrow> nat" where
  "fill_count fr = (if frag_fill_size fr = 0 then 0 else unat (fr_offset fr))"

definition fill_pattern :: "'y frag \<Rightarrow> byte list" where
  "fill_pattern fr = take (unat (fr_var fr)) (drop (unat (fr_fix fr)) (fr_literal fr))"

definition frag_bytes :: "('y, 'x) gas_ops \<Rightarrow> ('y, 'x) segment \<Rightarrow> nat \<Rightarrow> byte list" where
  "frag_bytes g s i =
     (let fr = frags s ! i
      in take (unat (frag_fix_size g s i)) (fr_literal fr) @ concat (replicate (fill_count fr) (fill_pattern fr)))"

definition section_bytes :: "('y, 'x) gas_ops \<Rightarrow> ('y, 'x) segment \<Rightarrow> byte list" where
  "section_bytes g s = concat (map (frag_bytes g s) [0..<length (frags s)])"

text \<open>The frags hold their contents, and the section fits the address space.\<close>

definition literal_ok :: "('y, 'x) gas_ops \<Rightarrow> ('y, 'x) segment \<Rightarrow> nat \<Rightarrow> bool" where
  "literal_ok g s i \<longleftrightarrow>
     (let fr = frags s ! i
      in unat (frag_fix_size g s i) \<le> length (fr_literal fr) \<and>
         (frag_fill_size fr \<noteq> 0 \<longrightarrow>
            unat (fr_fix fr) + unat (fr_var fr) \<le> length (fr_literal fr) \<and>
            unat (fr_offset fr) * unat (fr_var fr) < 2 ^ 64))"

definition extractable :: "('y, 'x) gas_ops \<Rightarrow> ('y, 'x) segment \<Rightarrow> bool" where
  "extractable g s \<longleftrightarrow>
     list_all (literal_ok g s) [0..<length (frags s)] \<and> length (section_bytes g s) < 2 ^ 64"

subsection \<open>One frag\<close>

lemma overwrite_prefix:
  "overwrite (pre @ drop (length pre) buf) (length pre) bs = (pre @ bs) @ drop (length (pre @ bs)) buf"
  by (simp add: overwrite_def add.commute)

lemma fill_loop_replicate:
  assumes "length pat = var" "0 < var" "k \<le> c"
  shows "fill_loop pat var (c * var) (length pre) (k * var)
      ((pre @ concat (replicate k pat)) @ drop (length (pre @ concat (replicate k pat))) buf)
    = (pre @ concat (replicate c pat)) @ drop (length (pre @ concat (replicate c pat))) buf"
  using assms(3)
proof (induction "c - k" arbitrary: k)
  case 0
  then show ?case using assms(2) by (simp add: fill_loop.simps)
next
  case (Suc m)
  let ?p = "pre @ concat (replicate k pat)"
  have len: "length (concat (replicate j pat)) = j * var" for j
    using assms(1) by (simp add: length_concat sum_list_replicate)
  have "\<not> c * var \<le> k * var" using Suc assms(2) by simp
  moreover have "concat (replicate (Suc k) pat) = concat (replicate k pat) @ pat"
    using replicate_append_same [of k pat] by (metis concat.simps concat_append append_Nil2 replicate_Suc)
  ultimately show ?case
    using Suc.hyps(1) [of "Suc k"] Suc assms(2) overwrite_prefix [of ?p buf pat]
    by (subst fill_loop.simps) (simp add: len ac_simps)
qed

lemma fill_size_count:
  assumes "literal_ok g s i" "frag_fill_size (frags s ! i) \<noteq> 0"
  shows "unat (frag_fill_size (frags s ! i)) = fill_count (frags s ! i) * unat (fr_var (frags s ! i))"
    and "length (fill_pattern (frags s ! i)) = unat (fr_var (frags s ! i))"
    and "0 < unat (fr_var (frags s ! i))"
  using assms unat_mult_lem [of "fr_offset (frags s ! i)" "fr_var (frags s ! i)"]
  by (auto simp: literal_ok_def Let_def fill_count_def fill_pattern_def frag_fill_size_def
      unat_gt_0 split: if_splits)

lemma length_frag_bytes:
  assumes "literal_ok g s i"
  shows "length (frag_bytes g s i) = unat (frag_fix_size g s i) + unat (frag_fill_size (frags s ! i))"
proof (cases "frag_fill_size (frags s ! i) = 0")
  case True
  then show ?thesis using assms
    by (simp add: frag_bytes_def Let_def literal_ok_def fill_count_def)
next
  case False
  then show ?thesis using assms fill_size_count [OF assms False]
    by (simp add: frag_bytes_def Let_def literal_ok_def length_concat sum_list_replicate)
qed

lemma unat_small [simp]: "m < 2 ^ 64 \<Longrightarrow> unat (of_nat m :: u64) = m"
  by (simp add: unsigned_of_nat take_bit_nat_eq_self)

text \<open>A frag's step from the state in which \<open>pre\<close> has been written.\<close>

definition written :: "byte list option \<Rightarrow> byte list \<Rightarrow> u64 \<times> byte list option" where
  "written out pre = (of_nat (length pre), map_option (\<lambda>buf. pre @ drop (length pre) buf) out)"

lemma put_written:
  assumes "length pre + length bs \<le> cap" "cap < 2 ^ 64" "n = of_nat (length bs)"
    "\<And>buf. out = Some buf \<Longrightarrow> write (pre @ drop (length pre) buf) = (pre @ bs) @ drop (length (pre @ bs)) buf"
  shows "put (of_nat cap) n write (written out pre) = written out (pre @ bs)"
proof -
  have "(of_nat (length pre + length bs) :: u64) \<le> of_nat cap"
    using assms(1,2) unat_small [of "length pre + length bs"] by (simp only: word_le_nat_alt) simp
  then show ?thesis
    using assms(3,4) by (cases out) (simp_all add: put_def written_def)
qed

lemma extract_frag_written:
  assumes "literal_ok g s i" "length pre + length (frag_bytes g s i) \<le> cap" "cap < 2 ^ 64"
  shows "extract_frag g s (of_nat cap) i (written out pre) = written out (pre @ frag_bytes g s i)"
proof -
  let ?fr = "frags s ! i" and ?n = "frag_fix_size g s i"
  define pre1 where "pre1 = pre @ take (unat ?n) (fr_literal ?fr)"
  have lens: "length (take (unat ?n) (fr_literal ?fr)) = unat ?n"
    using assms(1) by (simp add: literal_ok_def Let_def)
  have pos: "unat (of_nat (length p) :: u64) = length p" if "length p \<le> cap" for p :: "byte list"
    using that assms(3) by (intro unat_small) simp
  have room: "length pre \<le> cap" "length pre1 \<le> cap"
    using assms(2) length_frag_bytes [OF assms(1)] lens by (simp_all add: pre1_def)
  have fixed: "(if ?n \<noteq> 0 then put (of_nat cap) ?n
        (\<lambda>buf. overwrite buf (unat (fst (written out pre))) (take (unat ?n) (fr_literal ?fr))) (written out pre)
      else written out pre) = written out pre1"
  proof (cases "?n = 0")
    case False
    then show ?thesis
      using put_written [of pre "take (unat ?n) (fr_literal ?fr)" cap ?n out] assms(2,3) lens room(2)
        overwrite_prefix [of pre _ "take (unat ?n) (fr_literal ?fr)"] pos [OF room(1)]
      by (simp add: pre1_def written_def [of out pre])
  qed (simp add: pre1_def)
  have bytes: "pre @ frag_bytes g s i = pre1 @ concat (replicate (fill_count ?fr) (fill_pattern ?fr))"
    by (simp add: frag_bytes_def pre1_def Let_def)
  show ?thesis
  proof (cases "frag_fill_size ?fr = 0")
    case True
    then show ?thesis
      using fixed bytes by (simp add: extract_frag_def Let_def fill_count_def)
  next
    case False
    note fill = fill_size_count [OF assms(1) False]
    let ?fills = "concat (replicate (fill_count ?fr) (fill_pattern ?fr))"
    have len: "length ?fills = unat (frag_fill_size ?fr)"
      using fill by (simp add: length_concat sum_list_replicate)
    have "put (of_nat cap) (frag_fill_size ?fr)
        (fill_loop (fill_pattern ?fr) (unat (fr_var ?fr)) (unat (frag_fill_size ?fr)) (length pre1) 0)
        (written out pre1) = written out (pre1 @ ?fills)"
    proof (rule put_written [OF _ assms(3)])
      show "length pre1 + length ?fills \<le> cap"
        using assms(2) bytes by (metis length_append)
      show "frag_fill_size ?fr = of_nat (length ?fills)" by (simp add: len)
      show "fill_loop (fill_pattern ?fr) (unat (fr_var ?fr)) (unat (frag_fill_size ?fr)) (length pre1) 0
          (pre1 @ drop (length pre1) buf) = (pre1 @ ?fills) @ drop (length (pre1 @ ?fills)) buf" for buf
        using fill_loop_replicate [OF fill(2,3), of 0 "fill_count ?fr" pre1 buf] fill(1) by simp
    qed
    moreover have "unat (fst (written out pre1)) = length pre1"
      using pos [OF room(2)] by (simp add: written_def)
    ultimately show ?thesis
      using False fixed bytes by (simp add: extract_frag_def Let_def fill_pattern_def)
  qed
qed

subsection \<open>The whole section\<close>

lemma extract_written:
  assumes "extractable g s" "k \<le> length (frags s)" "length (section_bytes g s) \<le> cap" "cap < 2 ^ 64"
  shows "fold (extract_frag g s (of_nat cap)) [0..<k] (0, out) =
    written out (concat (map (frag_bytes g s) [0..<k]))"
  using assms(2)
proof (induction k)
  case 0
  then show ?case by (cases out) (simp_all add: written_def)
next
  case (Suc k)
  have "section_bytes g s = concat (map (frag_bytes g s) [0..<Suc k]) @
      concat (map (frag_bytes g s) [Suc k..<length (frags s)])"
    using Suc.prems unfolding section_bytes_def
    by (metis concat_append le_add_diff_inverse map_append upt_add_eq_append zero_le)
  then have "length (concat (map (frag_bytes g s) [0..<k])) + length (frag_bytes g s k) \<le> cap"
    using assms(3) by simp
  moreover have "literal_ok g s k"
    using assms(1) Suc.prems by (simp add: extractable_def list_all_iff)
  ultimately show ?case
    using Suc assms(4) by (simp add: extract_frag_written)
qed

lemma query_cap: "fold (extract_frag g s cap) is (p, None) = fold (extract_frag g s cap') is (p, None)"
proof (induction "is" arbitrary: p)
  case (Cons i "is")
  have "extract_frag g s cap i (p, None) = extract_frag g s cap' i (p, None)"
    "snd (extract_frag g s cap i (p, None)) = None"
    by (simp_all add: extract_frag_def put_def Let_def)
  then show ?case using Cons.IH by (metis fold_simps(2) prod.collapse)
qed simp

interpretation bytes: two_pass "extract_call g" "section_bytes g" "extractable g" for g
proof
  fix s and buf :: "byte list"
  assume ok: "extractable g s"
  then have fits: "length (section_bytes g s) < 2 ^ 64" by (simp add: extractable_def)
  have all: "fold (extract_frag g s (of_nat cap)) [0..<length (frags s)] (0, out) =
      written out (section_bytes g s)" if "length (section_bytes g s) \<le> cap" "cap < 2 ^ 64" for cap out
    using extract_written [OF ok order_refl that] by (simp add: section_bytes_def)
  show "extract_call g (Some buf) s = (length (section_bytes g s), Some (section_bytes g s))"
    if "length buf = length (section_bytes g s)"
    using all [of "length buf" "Some buf"] that fits
    by (simp add: extract_call_def extract_text_bytes_def written_def)
  show "extract_call g None s = (length (section_bytes g s), None)"
    using all [of "length (section_bytes g s)" None] fits
      query_cap [of g s 0 "[0..<length (frags s)]" 0 "of_nat (length (section_bytes g s))"]
    by (simp add: extract_call_def extract_text_bytes_def written_def)
qed

subsection \<open>\<open>nyxstone_glue_collect_relocs\<close>\<close>

definition unresolved :: "('y, 'x) gas_ops \<Rightarrow> ('y, 'x) segment \<Rightarrow> 'y fixup \<Rightarrow> bool" where
  "unresolved g s fx \<longleftrightarrow>
     \<not> fx_done fx \<and> (case fx_addsy fx of None \<Rightarrow> False | Some y \<Rightarrow> \<not> gas_is_defined g y (ext s))"

definition fixup_address :: "('y, 'x) segment \<Rightarrow> 'y fixup \<Rightarrow> u64" where
  "fixup_address s fx = fr_address (frags s ! fx_frag fx) + fx_where fx"

definition reloc_entry :: "('y, 'x) gas_ops \<Rightarrow> ('y, 'x) segment \<Rightarrow> 'y fixup \<Rightarrow> glue_reloc" where
  "reloc_entry g s fx = \<lparr>
     gr_offset = fixup_address s fx,
     gr_addend = fx_addnumber fx,
     gr_has_addend = True,
     gr_symbol_name = map_option (gas_name g) (fx_addsy fx),
     gr_reloc_type = (case gas_howto g (fx_r_type fx) of None \<Rightarrow> 0 | Some ht \<Rightarrow> h_type ht)\<rparr>"

definition collect_fix ::
    "('y, 'x) gas_ops \<Rightarrow> ('y, 'x) segment \<Rightarrow> nat \<Rightarrow> 'y fixup \<Rightarrow>
     nat \<times> glue_reloc list option \<Rightarrow> nat \<times> glue_reloc list option" where
  "collect_fix g s cap fx = (\<lambda>(count, out).
     if fx_done fx then (count, out)
     else case fx_addsy fx of
       None \<Rightarrow> (count, out)
     | Some y \<Rightarrow>
         if gas_is_defined g y (ext s) then (count, out)
         else (Suc count,
           case out of
             None \<Rightarrow> None
           | Some buf \<Rightarrow> Some (if count < cap then buf[count := reloc_entry g s fx] else buf)))"

definition collect_relocs ::
    "('y, 'x) gas_ops \<Rightarrow> glue_reloc list option \<Rightarrow> ('y, 'x) segment \<Rightarrow> nat \<times> glue_reloc list option" where
  "collect_relocs g out s =
     fold (collect_fix g s (case out of None \<Rightarrow> 0 | Some buf \<Rightarrow> length buf)) (fixups s) (0, out)"

definition relocs :: "('y, 'x) gas_ops \<Rightarrow> ('y, 'x) segment \<Rightarrow> glue_reloc list" where
  "relocs g s = map (reloc_entry g s) (filter (unresolved g s) (fixups s))"

lemma collect_prefix:
  assumes "length (filter (unresolved g s) fs) + length rs \<le> cap"
    and "\<And>buf. out = Some buf \<Longrightarrow> length buf = cap"
  shows "fold (collect_fix g s cap) fs (length rs, map_option (\<lambda>buf. rs @ drop (length rs) buf) out) =
    (length rs + length (filter (unresolved g s) fs),
     map_option (\<lambda>buf. rs @ map (reloc_entry g s) (filter (unresolved g s) fs) @
       drop (length rs + length (filter (unresolved g s) fs)) buf) out)"
  using assms(1)
proof (induction fs arbitrary: rs)
  case (Cons fx fs)
  show ?case
  proof (cases "unresolved g s fx")
    case False
    then have "collect_fix g s cap fx = id"
      by (auto simp: collect_fix_def unresolved_def fun_eq_iff split: option.splits)
    then show ?thesis using False Cons by simp
  next
    case True
    have "(rs @ drop (length rs) buf)[length rs := e] = (rs @ [e]) @ drop (length (rs @ [e])) buf"
      if "length rs < length buf" for e and buf :: "glue_reloc list"
      using that by (simp add: list_update_append Cons_nth_drop_Suc [symmetric])
    then have "collect_fix g s cap fx (length rs, map_option (\<lambda>buf. rs @ drop (length rs) buf) out) =
        (length (rs @ [reloc_entry g s fx]),
         map_option (\<lambda>buf. (rs @ [reloc_entry g s fx]) @ drop (length (rs @ [reloc_entry g s fx])) buf) out)"
      using True Cons.prems assms(2)
      by (cases out) (auto simp: collect_fix_def unresolved_def split: option.splits)
    then show ?thesis
      using Cons.IH [of "rs @ [reloc_entry g s fx]"] Cons.prems True by simp
  qed
qed (cases out; simp)

text \<open>The entries of the driver's vector before the second call.\<close>

definition null_reloc :: glue_reloc where
  "null_reloc = \<lparr>gr_offset = 0, gr_addend = 0, gr_has_addend = False, gr_symbol_name = None, gr_reloc_type = 0\<rparr>"

lemma collect_query: "fold (collect_fix g s cap) fs (c, None) = fold (collect_fix g s cap') fs (c, None)"
proof (induction fs arbitrary: c)
  case (Cons fx fs)
  have "collect_fix g s cap fx (c, None) = collect_fix g s cap' fx (c, None)"
    "snd (collect_fix g s cap fx (c, None)) = None"
    by (simp_all add: collect_fix_def split: option.splits)
  then show ?case using Cons.IH by (metis fold_simps(2) prod.collapse)
qed simp

interpretation rel: two_pass "collect_relocs g" "relocs g" "\<lambda>_. True" for g
proof
  fix s and buf :: "glue_reloc list"
  show "collect_relocs g None s = (length (relocs g s), None)"
    using collect_prefix [of g s "fixups s" "[]" "length (relocs g s)" None]
      collect_query [of g s 0 "fixups s" 0 "length (relocs g s)"]
    by (simp add: collect_relocs_def relocs_def)
  show "collect_relocs g (Some buf) s = (length (relocs g s), Some (relocs g s))"
    if "length buf = length (relocs g s)"
    using collect_prefix [of g s "fixups s" "[]" "length buf" "Some buf"] that
    by (simp add: collect_relocs_def relocs_def)
qed

text \<open>Where the bytes of a frag stand.\<close>

definition offset_of :: "('y, 'x) gas_ops \<Rightarrow> ('y, 'x) segment \<Rightarrow> nat \<Rightarrow> nat" where
  "offset_of g s i = length (concat (map (frag_bytes g s) [0..<i]))"

lemma offset_Suc: "offset_of g s (Suc i) = offset_of g s i + length (frag_bytes g s i)"
  by (simp add: offset_of_def)

lemma offset_mono: "i \<le> j \<Longrightarrow> offset_of g s i \<le> offset_of g s j"
  by (induction j rule: dec_induct) (simp_all add: offset_Suc)

lemma offset_end: "offset_of g s (length (frags s)) = length (section_bytes g s)"
  by (simp add: offset_of_def section_bytes_def)

lemma extractable_frag: "extractable g s \<Longrightarrow> i < length (frags s) \<Longrightarrow> literal_ok g s i"
  by (simp add: extractable_def list_all_iff)

lemma prefix_offset:
  assumes "extractable g s" "i \<le> length (frags s)"
  shows "prefix_size g s i = of_nat (offset_of g s i)" "unat (prefix_size g s i) = offset_of g s i"
proof -
  show eq: "prefix_size g s i = of_nat (offset_of g s i)"
    using assms(2)
  proof (induction i)
    case (Suc i)
    then show ?case
      using length_frag_bytes [OF extractable_frag [OF assms(1), of i]]
      by (simp add: prefix_size_Suc frag_size_def offset_Suc)
  qed (simp add: offset_of_def)
  have "offset_of g s i < 2 ^ 64"
    using offset_mono [OF assms(2), of g s] assms(1) by (simp add: offset_end extractable_def)
  then show "unat (prefix_size g s i) = offset_of g s i" unfolding eq by (rule unat_small)
qed

lemma section_split:
  assumes "i < length (frags s)"
  shows "section_bytes g s = concat (map (frag_bytes g s) [0..<i]) @ frag_bytes g s i @
    concat (map (frag_bytes g s) [Suc i..<length (frags s)])"
  using assms upt_add_eq_append [of 0 i "length (frags s) - i"] upt_conv_Cons [of i "length (frags s)"]
  by (simp add: section_bytes_def)

lemma section_frag:
  assumes "i < length (frags s)"
  shows "take (length (frag_bytes g s i)) (drop (offset_of g s i) (section_bytes g s)) = frag_bytes g s i"
  by (simp add: section_split [OF assms] offset_of_def)

lemma frag_bytes_fixed:
  "literal_ok g s i \<Longrightarrow> take (unat (frag_fix_size g s i)) (frag_bytes g s i)
     = take (unat (frag_fix_size g s i)) (fr_literal (frags s ! i))"
  by (simp add: frag_bytes_def Let_def literal_ok_def)

text \<open>Reading the section in two calls gives, in the order of the frags, the contents of every
  frag followed by its fill, and nothing is cut off or left over; in a section that is laid out
  each frag's contents stand at its address.\<close>

theorem extract_two_pass:
  assumes "extractable g s"
  shows "fetch (extract_call g) z s = section_bytes g s \<and>
    (addressed g s \<longrightarrow> (\<forall>i < length (frags s).
       take (unat (frag_fix_size g s i)) (drop (unat (fr_address (frags s ! i))) (fetch (extract_call g) z s))
         = take (unat (frag_fix_size g s i)) (fr_literal (frags s ! i))))"
proof -
  have "take (unat (frag_fix_size g s i)) (drop (unat (prefix_size g s i)) (section_bytes g s))
      = take (unat (frag_fix_size g s i)) (fr_literal (frags s ! i))" if i: "i < length (frags s)" for i
  proof -
    note ok = extractable_frag [OF assms i]
    have "unat (frag_fix_size g s i) \<le> length (frag_bytes g s i)"
      using length_frag_bytes [OF ok] by simp
    then show ?thesis
      using section_frag [OF i, of g] frag_bytes_fixed [OF ok] prefix_offset(2) [OF assms, of i] i
      by (metis less_imp_le min.absorb1 take_take)
  qed
  then show ?thesis using bytes.fetch_items [OF assms] by (simp add: addressed_def)
qed

text \<open>A condition that is decided by evaluation, for the one-byte fills the glue creates.\<close>

definition unit_filled :: "('y, 'x) gas_ops \<Rightarrow> ('y, 'x) segment \<Rightarrow> bool" where
  "unit_filled g s = list_all (\<lambda>i. let fr = frags s ! i
     in unat (frag_fix_size g s i) \<le> length (fr_literal fr) \<and>
        (frag_fill_size fr \<noteq> 0 \<longrightarrow> fr_var fr = 1 \<and> unat (fr_fix fr) < length (fr_literal fr)))
     [0..<length (frags s)]"

lemma unit_filled_extractable:
  assumes "unit_filled g s" "length (section_bytes g s) < 2 ^ 64"
  shows "extractable g s"
proof -
  have "unat (w :: u64) < 2 ^ 64" for w using unsigned_less [of w, where ?'a = nat] by simp
  then show ?thesis
    using assms by (auto simp: unit_filled_def extractable_def list_all_iff literal_ok_def Let_def)
qed

theorem extract_two_pass_witness:
  "fetch (extract_call sample_gas) 0 (finalize_align_org sample_gas (sample_section 12))
     = [1, 2, 3, 4, 5, 0, 0, 0, 6, 0, 0, 0, 7]"
proof -
  let ?t = "finalize_align_org sample_gas (sample_section 12)"
  have unit: "unit_filled sample_gas ?t" by code_simp
  have bytes: "section_bytes sample_gas ?t = [1, 2, 3, 4, 5, 0, 0, 0, 6, 0, 0, 0, 7]"
    by code_simp
  have "extractable sample_gas ?t"
    by (rule unit_filled_extractable [OF unit]) (simp only: bytes, simp)
  then show ?thesis using extract_two_pass [of sample_gas ?t 0] bytes by simp
qed

text \<open>Collecting the relocations in two calls reports one entry for every fixup that is not
  done and whose symbol is undefined, in the order of the fixups, at the address of its frag plus
  its offset, with gas's addend; nothing else is reported and nothing is dropped.\<close>

theorem collect_relocs_complete:
  "fetch (collect_relocs g) null_reloc s = map (reloc_entry g s) (filter (unresolved g s) (fixups s))"
  using rel.fetch_items [of g null_reloc s] by (simp add: relocs_def)

end
