(* ===== verification/Assemble.thy ===== *)
theory Assemble
  imports Api_Types Parse Extract
begin

text \<open>
  \<open>do_assemble\<close> of \<^verbatim>\<open>src/src/nyxstone.cpp\<close>, over any implementation of the glue: reset, capture
  of gas's diagnostics, the parse phase, the caller's labels, the fixup pass, the choice of the
  error to report and the readout of bytes and relocations. What the driver needs of the glue is
  the locale \<open>assembling_glue\<close>; theory \<open>Gas_Glue\<close> provides it.
\<close>

subsection \<open>The window in which gas runs\<close>

definition define_labels :: "'g glue \<Rightarrow> label_definition list \<Rightarrow> 'g \<Rightarrow> 'g" where
  "define_labels gl labels g = fold (\<lambda>l. g_define_abs gl (c_str (l_name l)) (l_address l)) labels g"

text \<open>What is known when the capture ends: the driver with its flags, the error count before,
  whether the parse failed, the number of unresolved references and the cleaned diagnostics.\<close>

record 'g window =
  w_driver :: "'g driver"
  w_errs_before :: int
  w_parse_err :: bool
  w_unresolved :: int
  w_diag :: string

text \<open>From the end of the parse to the end of the capture.\<close>

definition window_rest ::
    "'g glue \<Rightarrow> u64 \<Rightarrow> label_definition list \<Rightarrow> bool \<Rightarrow> int \<Rightarrow> 'g driver \<Rightarrow> 'g window" where
  "window_rest gl address labels with_relocs errs_before st2 =
     (let st3 = (if with_relocs then st2 else on_gas (define_labels gl labels) st2);
          parse_err = (g_had_errors gl (gas st3) \<noteq> errs_before);
          (unresolved, g4) =
            (if \<not> parse_err \<and> \<not> g_section_violation st3 \<and> g_directive_error st3 = []
             then g_resolve_text_fixups gl address (gas st3) else (0, gas st3));
          (log, g5) = g_end_capture gl g4
      in \<lparr>w_driver = st3\<lparr>gas := g5\<rparr>, w_errs_before = errs_before, w_parse_err = parse_err,
          w_unresolved = unresolved, w_diag = clean_gas_diag log\<rparr>)"

definition assemble_window ::
    "'g glue \<Rightarrow> string \<Rightarrow> u64 \<Rightarrow> label_definition list \<Rightarrow> bool \<Rightarrow> 'g driver \<Rightarrow> 'g window" where
  "assemble_window gl source address labels with_relocs st =
     (let g0 = g_reset gl (gas st);
          st0 = fresh g0;
          errs_before = g_had_errors gl g0;
          st1 = on_gas (g_begin_capture gl) st0
      in window_rest gl address labels with_relocs errs_before (parse_source gl source st1))"

lemmas window_defs = assemble_window_def window_rest_def

subsection \<open>The error that is reported\<close>

definition section_message :: string where
  "section_message = ''assemble: directive switches active section (only .text is allowed)''"

definition diag_or :: "string \<Rightarrow> string \<Rightarrow> string" where
  "diag_or otherwise diag = ''assemble: '' @ (if diag = [] then otherwise else diag)"

definition join_name :: "glue_reloc \<Rightarrow> string \<Rightarrow> string" where
  "join_name r names =
     (case gr_symbol_name r of
        None \<Rightarrow> names
      | Some n \<Rightarrow> (if names = [] then names else names @ '', '') @ n)"

definition undefined_message :: "'g glue \<Rightarrow> 'g \<Rightarrow> string" where
  "undefined_message gl g =
     (let names = fold join_name (fetch (g_collect_relocs gl) null_reloc g) []
      in ''assemble: undefined label(s): '' @ (if names = [] then ''<unknown>'' else names) @
         '' (define them in the source or pass a LabelDefinition)'')"

definition verdict :: "'g glue \<Rightarrow> bool \<Rightarrow> 'g window \<Rightarrow> string option" where
  "verdict gl with_relocs w =
     (let st = w_driver w; g = gas st in
      if g_directive_error st \<noteq> [] then Some (''assemble: '' @ g_directive_error st)
      else if g_section_violation st then Some section_message
      else if w_parse_err w then Some (diag_or ''gas parse/encode error'' (w_diag w))
      else case g_unsupported_reloc gl g of
        Some bad \<Rightarrow> Some (''assemble: unsupported relocation '' @ bad @
          '' (local branch displacement could not be encoded)'')
      | None \<Rightarrow>
          if g_had_errors gl g \<noteq> w_errs_before w
          then Some (diag_or ''gas error during relax/fixup'' (w_diag w))
          else if \<not> with_relocs \<and> w_unresolved w > 0 then Some (undefined_message gl g)
          else None)"

subsection \<open>The result\<close>

definition hint_address :: "label_definition list \<Rightarrow> string \<Rightarrow> u64" where
  "hint_address labels name =
     (case find (\<lambda>l. l_name l = name) labels of None \<Rightarrow> 0 | Some l \<Rightarrow> l_address l)"

definition relocation_of :: "u64 \<Rightarrow> label_definition list \<Rightarrow> glue_reloc \<Rightarrow> relocation_info" where
  "relocation_of address labels r =
     (let name = (case gr_symbol_name r of Some n \<Rightarrow> n | None \<Rightarrow> [])
      in \<lparr>ri_offset = address + gr_offset r,
          ri_addend = (if gr_has_addend r then Some (gr_addend r) else None),
          ri_symbol = \<lparr>sym_name = name, sym_address = hint_address labels name\<rparr>,
          ri_relocation_type = gr_reloc_type r\<rparr>)"

definition read_result ::
    "'g glue \<Rightarrow> u64 \<Rightarrow> label_definition list \<Rightarrow> bool \<Rightarrow> 'g \<Rightarrow> assemble_core" where
  "read_result gl address labels with_relocs g =
     \<lparr>core_bytes = fetch (g_extract_text_bytes gl) 0 g,
      core_relocations =
        (if with_relocs
         then map (relocation_of address labels) (fetch (g_collect_relocs gl) null_reloc g) else [])\<rparr>"

definition do_assemble ::
    "'g glue \<Rightarrow> string \<Rightarrow> u64 \<Rightarrow> label_definition list \<Rightarrow> bool \<Rightarrow> 'g driver
      \<Rightarrow> (string + assemble_core) \<times> 'g driver" where
  "do_assemble gl source address labels with_relocs st =
     (let w = assemble_window gl source address labels with_relocs st
      in (case verdict gl with_relocs w of
            Some msg \<Rightarrow> Inl msg
          | None \<Rightarrow> Inr (read_result gl address labels with_relocs (gas (w_driver w))),
          w_driver w))"

definition assemble ::
    "'g glue \<Rightarrow> string \<Rightarrow> u64 \<Rightarrow> label_definition list \<Rightarrow> 'g driver
      \<Rightarrow> (string + byte list) \<times> 'g driver" where
  "assemble gl source address labels st =
     (case do_assemble gl source address labels False st of
        (Inl msg, st') \<Rightarrow> (Inl msg, st')
      | (Inr r, st') \<Rightarrow> (Inr (core_bytes r), st'))"

definition assemble_with_relocs ::
    "'g glue \<Rightarrow> string \<Rightarrow> u64 \<Rightarrow> label_definition list \<Rightarrow> 'g driver
      \<Rightarrow> (string + assemble_with_relocs_result) \<times> 'g driver" where
  "assemble_with_relocs gl source address labels st =
     (case do_assemble gl source address labels True st of
        (Inl msg, st') \<Rightarrow> (Inl msg, st')
      | (Inr r, st') \<Rightarrow> (Inr \<lparr>wr_bytes = core_bytes r, wr_relocations = core_relocations r\<rparr>, st'))"

subsection \<open>What the driver needs of the glue\<close>

text \<open>The two readouts follow the query-then-fill protocol, and ending the capture touches neither section
  nor fixups. Started in a state that is \<open>settling\<close>, the fixup pass counts the relocations that can be
  collected afterwards. \<open>'o\<close> are the parameters of an implementation, \<open>ok\<close> the ones it works for.\<close>

locale assembling_glue =
  fixes gl :: "'o \<Rightarrow> 'g glue" and ok :: "'o \<Rightarrow> bool"
    and settling :: "'o \<Rightarrow> 'g \<Rightarrow> bool" and image :: "'o \<Rightarrow> 'g \<Rightarrow> byte list" and refs :: "'o \<Rightarrow> 'g \<Rightarrow> glue_reloc list" and ready :: "'o \<Rightarrow> 'g \<Rightarrow> bool"
  assumes bytes_protocol: "two_pass (g_extract_text_bytes (gl p)) (image p) (ready p)"
    and refs_protocol: "two_pass (g_collect_relocs (gl p)) (refs p) (\<lambda>_. True)"
    and resolve_counts: "settling p g \<Longrightarrow> g_resolve_text_fixups (gl p) a g = (n, g') \<Longrightarrow> n = int (length (refs p g'))"
    and capture_keeps: "ok p \<Longrightarrow> refs p (snd (g_end_capture (gl p) g)) = refs p g"
begin

definition final :: "'o \<Rightarrow> string \<Rightarrow> u64 \<Rightarrow> label_definition list \<Rightarrow> bool \<Rightarrow> 'g driver \<Rightarrow> 'g" where
  "final p source a ls wr st = gas (snd (do_assemble (gl p) source a ls wr st))"

text \<open>The state the fixup pass starts from.\<close>

definition unresolved_state :: "'o \<Rightarrow> string \<Rightarrow> label_definition list \<Rightarrow> bool \<Rightarrow> 'g driver \<Rightarrow> 'g" where
  "unresolved_state p source ls wr st =
     (let st2 = parse_source (gl p) source (on_gas (g_begin_capture (gl p)) (fresh (g_reset (gl p) (gas st))))
      in gas (if wr then st2 else on_gas (define_labels (gl p) ls) st2))"

lemma fetch_refs: "fetch (g_collect_relocs (gl p)) z g = refs p g"
  by (rule two_pass.fetch_items [OF refs_protocol]) simp

lemma fetch_image: "ready p g \<Longrightarrow> fetch (g_extract_text_bytes (gl p)) z g = image p g"
  by (rule two_pass.fetch_items [OF bytes_protocol])

lemma success:
  assumes "fst (do_assemble (gl p) source a ls wr st) = Inr core"
  defines "g \<equiv> final p source a ls wr st"
  shows "g_unsupported_reloc (gl p) g = None" "g_had_errors (gl p) g = g_had_errors (gl p) (g_reset (gl p) (gas st))"
    "core_relocations core = (if wr then map (relocation_of a ls) (refs p g) else [])"
    "ready p g \<Longrightarrow> core_bytes core = image p g"
    "ok p \<Longrightarrow> settling p (unresolved_state p source ls wr st) \<Longrightarrow> \<not> wr \<Longrightarrow> refs p g = []"
proof -
  define w where "w = assemble_window (gl p) source a ls wr st"
  have v: "verdict (gl p) wr w = None" and core: "core = read_result (gl p) a ls wr g"
    and g: "g = gas (w_driver w)"
    using assms(1) by (simp_all add: do_assemble_def w_def Let_def g_def final_def split: option.splits)
  then show "g_unsupported_reloc (gl p) g = None"
    by (simp add: verdict_def Let_def split: if_splits option.splits)
  have errs: "w_errs_before w = g_had_errors (gl p) (g_reset (gl p) (gas st))"
    by (simp add: w_def window_defs Let_def case_prod_unfold)
  then show "g_had_errors (gl p) g = g_had_errors (gl p) (g_reset (gl p) (gas st))"
    using v by (simp add: verdict_def Let_def g split: if_splits option.splits)
  show "core_relocations core = (if wr then map (relocation_of a ls) (refs p g) else [])"
    by (simp add: core read_result_def fetch_refs)
  show "core_bytes core = image p g" if "ready p g"
    using that by (simp add: core read_result_def fetch_image)
  assume "ok p" and settling: "settling p (unresolved_state p source ls wr st)" and "\<not> wr"
  then have "w_unresolved w \<le> 0" "\<not> w_parse_err w" "g_directive_error (w_driver w) = []"
      "\<not> g_section_violation (w_driver w)"
    using v by (simp_all add: verdict_def Let_def split: if_splits option.splits)
  moreover from this(2-4) have "w_unresolved w = int (length (refs p g))"
    using resolve_counts [OF settling prod.collapse [symmetric], of a]
    by (simp add: unresolved_state_def w_def window_defs Let_def case_prod_unfold g capture_keeps [OF \<open>ok p\<close>] split: if_splits)
  ultimately show "refs p g = []" by simp
qed

end

subsection \<open>Errors that are in the text\<close>

text \<open>The directive error or section violation a source text has, whatever gas does.\<close>

definition textual_error :: "string \<Rightarrow> string option" where
  "textual_error source =
     (if g_directive_error (parsed source) \<noteq> [] then Some (''assemble: '' @ g_directive_error (parsed source))
      else if g_section_violation (parsed source) then Some section_message
      else None)"

lemma on_gas_fresh: "on_gas f (fresh g) = fresh (f g)"
  by (simp add: on_gas_def fresh_def)

lemma window_flags:
  "g_directive_error (w_driver (assemble_window gl source a ls wr st)) = g_directive_error (parsed source)"
  "g_section_violation (w_driver (assemble_window gl source a ls wr st)) = g_section_violation (parsed source)"
  by (simp_all add: window_defs Let_def case_prod_unfold on_gas_fresh parse_source_trace)

text \<open>C11. A text with a directive error, or with a statement that selects another section, is
  rejected with that error by every implementation of the glue: at any address, with any labels,
  in both modes and after any previous call. A directive error goes before a section
  violation, and both go before whatever gas reports.\<close>

theorem textual_errors_first:
  assumes "textual_error source = Some msg"
  shows "fst (do_assemble gl source address labels with_relocs st) = Inl msg"
  using assms
  by (auto simp: do_assemble_def verdict_def Let_def window_flags textual_error_def split: if_splits)

theorem textual_errors_first_witness:
  "fst (do_assemble recorder (''.data'' @ NEWLINE # ''.align 99'') 0 [] False (fresh []))
     = Inl ''assemble: .align: alignment exponent out of range (0..30)'' \<and>
   fst (do_assemble recorder (''nop;'' @ ''a: .data'') 0 [] True (fresh [])) = Inl section_message"
proof -
  have "textual_error (''.data'' @ NEWLINE # ''.align 99'')
      = Some ''assemble: .align: alignment exponent out of range (0..30)''"
    by code_simp
  moreover have "textual_error (''nop;'' @ ''a: .data'') = Some section_message" by code_simp
  ultimately show ?thesis using textual_errors_first by blast
qed

text \<open>C14. The outcome of a call is a function of the trace of its source text and of gas's state
  after the reset: flags of earlier calls do not leak into later ones, and texts with the same
  trace (other comments, blanks or separators) assemble to the same bytes, relocations or error.\<close>

theorem assemble_by_trace:
  assumes "parsed source = parsed source'" "g_reset gl (gas st) = g_reset gl (gas st')"
  shows "do_assemble gl source address labels with_relocs st =
    do_assemble gl source' address labels with_relocs st'"
proof -
  have "parse_source gl source (fresh g) = parse_source gl source' (fresh g)" for g
    by (simp only: parse_source_trace assms(1))
  then have "assemble_window gl source address labels with_relocs st
      = assemble_window gl source' address labels with_relocs st'"
    by (simp only: assemble_window_def Let_def on_gas_fresh assms(2))
  then show ?thesis by (simp only: do_assemble_def)
qed

theorem assemble_by_trace_witness:
  "do_assemble recorder ''nop /* x */ ; ret'' 0 [] False (violate_section (fresh [Colon ''a''])) =
   do_assemble recorder ('' nop'' @ NEWLINE # ''ret'') 0 [] False (fresh [])"
proof -
  have "parsed ''nop /* x */ ; ret'' = parsed ('' nop'' @ NEWLINE # ''ret'')" by code_simp
  moreover have "g_reset recorder g = g_reset recorder g'" for g g' by (simp add: recorder_def)
  ultimately show ?thesis by (rule assemble_by_trace)
qed

end
