(* ===== verification/Buffers.thy ===== *)
theory Buffers
  imports Prelude
begin

text \<open>
  The two growable text buffers of \<^verbatim>\<open>src/src/nyxstone_glue.c\<close>: \<open>growbuf_t\<close> with
  \<open>growbuf_append\<close>, which collects gas's diagnostics, and \<open>dis_ctx_t\<close> with \<open>dis_ensure_cap\<close>,
  \<open>dis_printf\<close> and \<open>dis_printf_styled\<close>, which collects the disassembler's text; and the capture
  of \<open>stderr\<close>. Memory is explicit: the block a buffer points to is a list as long as the
  allocation, \<open>realloc\<close> is a parameter, and a write outside the block is the value \<open>None\<close>.
\<close>

subsection \<open>The blocks\<close>

type_synonym block = "char list"

text \<open>\<open>realloc ptr n\<close>; \<open>None\<close> for the null pointer, as argument and as result.\<close>

type_synonym reallocator = "block option \<Rightarrow> nat \<Rightarrow> block option"

record growbuf =
  buf :: "block option"
  len :: nat
  cap :: nat

definition store :: "nat \<Rightarrow> char list \<Rightarrow> block \<Rightarrow> block option" where
  "store at cs b =
     (if at + length cs \<le> length b then Some (take at b @ cs @ drop (at + length cs) b) else None)"

function double_until :: "nat \<Rightarrow> nat \<Rightarrow> nat" where
  "double_until nc want = (if nc = 0 \<or> want \<le> nc then nc else double_until (nc * 2) want)"
  by pat_completeness auto

termination
  by (relation "measure (\<lambda>(nc, want). want - nc)") auto

declare double_until.simps [simp del]

text \<open>\<open>memcpy\<close> of the text, advance, terminating zero: with a block too small for them the writes
  leave it.\<close>

definition append_text :: "char list \<Rightarrow> growbuf \<Rightarrow> growbuf option" where
  "append_text data g =
     (case buf g of
        None \<Rightarrow> None
      | Some b \<Rightarrow>
          (case store (len g) data b of
             None \<Rightarrow> None
           | Some b1 \<Rightarrow>
               map_option (\<lambda>b2. g\<lparr>buf := Some b2, len := len g + length data\<rparr>)
                 (store (len g + length data) [NUL] b1)))"

definition growbuf_append :: "reallocator \<Rightarrow> char list \<Rightarrow> growbuf \<Rightarrow> growbuf option" where
  "growbuf_append realloc data g =
     (if len g + length data + 1 > cap g then
        let nc = double_until (if cap g \<noteq> 0 then cap g else 256) (len g + length data + 1)
        in case realloc (buf g) nc of
             None \<Rightarrow> Some g
           | Some nb \<Rightarrow> append_text data (g\<lparr>buf := Some nb, cap := nc\<rparr>)
      else append_text data g)"

definition dis_ensure_cap :: "reallocator \<Rightarrow> nat \<Rightarrow> growbuf \<Rightarrow> growbuf" where
  "dis_ensure_cap realloc want c =
     (if cap c \<ge> want then c
      else let nc = double_until (if cap c \<noteq> 0 then cap c else 64) want
           in case realloc (buf c) nc of None \<Rightarrow> c | Some nb \<Rightarrow> c\<lparr>buf := Some nb, cap := nc\<rparr>)"

text \<open>\<open>vsnprintf\<close> into \<open>tmp[256]\<close>: at most 255 characters of what is printed are kept. The
  printed text has no zero character; both callbacks are the same.\<close>

definition dis_printf :: "reallocator \<Rightarrow> string \<Rightarrow> growbuf \<Rightarrow> growbuf option" where
  "dis_printf realloc printed c =
     (if printed = [] then Some c
      else let tmp = take 255 printed;
               c1 = dis_ensure_cap realloc (len c + length tmp + 1) c
           in case buf c1 of None \<Rightarrow> Some c1 | Some _ \<Rightarrow> append_text tmp c1)"

definition dis_printf_styled :: "reallocator \<Rightarrow> nat \<Rightarrow> string \<Rightarrow> growbuf \<Rightarrow> growbuf option" where
  "dis_printf_styled realloc style printed c = dis_printf realloc printed c"

subsection \<open>The contract of an append\<close>

text \<open>What a well-formed buffer is: \<open>cap\<close> is the size of the block and the text in it ends with
  a zero.\<close>

definition wf_buf :: "growbuf \<Rightarrow> bool" where
  "wf_buf g \<longleftrightarrow>
     (case buf g of
        None \<Rightarrow> cap g = 0 \<and> len g = 0
      | Some b \<Rightarrow> length b = cap g \<and> len g < cap g \<and> b ! len g = NUL)"

definition contents :: "growbuf \<Rightarrow> string" where
  "contents g = (case buf g of None \<Rightarrow> [] | Some b \<Rightarrow> take (len g) b)"

definition empty_buf :: growbuf where
  "empty_buf = \<lparr>buf = None, len = 0, cap = 0\<rparr>"

text \<open>The documented behaviour of \<open>realloc\<close>, when it succeeds.\<close>

definition reallocates :: "reallocator \<Rightarrow> bool" where
  "reallocates realloc \<longleftrightarrow>
     (\<forall>p n b. realloc p n = Some b \<longrightarrow> length b = n \<and>
        (\<forall>old. p = Some old \<longrightarrow> take (min n (length old)) b = take n old))"

fun add_all :: "(string \<Rightarrow> growbuf \<Rightarrow> growbuf option) \<Rightarrow> string list \<Rightarrow> growbuf \<Rightarrow> growbuf option" where
  "add_all add [] g = Some g"
| "add_all add (t # ts) g = (case add t g of None \<Rightarrow> None | Some g' \<Rightarrow> add_all add ts g')"

locale text_buffer =
  fixes add :: "reallocator \<Rightarrow> string \<Rightarrow> growbuf \<Rightarrow> growbuf option"
    and shown :: "string \<Rightarrow> string"
    and safe :: "reallocator \<Rightarrow> bool"
  assumes add_keeps: "reallocates realloc \<Longrightarrow> safe realloc \<Longrightarrow> wf_buf g \<Longrightarrow>
    \<exists>g'. add realloc t g = Some g' \<and> wf_buf g' \<and> (contents g' = contents g @ shown t \<or> contents g' = contents g)"
    and add_appends: "reallocates realloc \<Longrightarrow> (\<forall>p n. realloc p n \<noteq> None) \<Longrightarrow> wf_buf g \<Longrightarrow>
    \<exists>g'. add realloc t g = Some g' \<and> wf_buf g' \<and> contents g' = contents g @ shown t"
begin

lemma add_all_appends:
  "reallocates realloc \<Longrightarrow> (\<forall>p n. realloc p n \<noteq> None) \<Longrightarrow> wf_buf g \<Longrightarrow>
    \<exists>g'. add_all (add realloc) ts g = Some g' \<and> wf_buf g' \<and> contents g' = contents g @ concat (map shown ts)"
proof (induction ts arbitrary: g)
  case (Cons t ts)
  then show ?case using add_appends [of realloc g t] by fastforce
qed simp

lemma add_all_safe:
  "reallocates realloc \<Longrightarrow> safe realloc \<Longrightarrow> wf_buf g \<Longrightarrow>
    \<exists>g'. add_all (add realloc) ts g = Some g' \<and> wf_buf g'"
proof (induction ts arbitrary: g)
  case (Cons t ts)
  then show ?case using add_keeps [of realloc g t] by fastforce
qed simp

end

subsection \<open>Both buffers meet it\<close>

lemma double_until_enough: "0 < nc \<Longrightarrow> want \<le> double_until nc want"
  by (induction nc want rule: double_until.induct) (subst double_until.simps, auto)

lemma append_text_fits:
  assumes "buf g = Some b" "length b = cap g" "len g + length data + 1 \<le> cap g"
  shows "\<exists>g'. append_text data g = Some g' \<and> wf_buf g' \<and> contents g' = take (len g) b @ data"
  using assms by (auto simp: append_text_def store_def wf_buf_def contents_def nth_append)

lemma grown:
  assumes "reallocates realloc" "wf_buf g" "realloc (buf g) n = Some nb" "cap g \<le> n"
  shows "length nb = n \<and> take (len g) nb = contents g"
proof (cases "buf g")
  case None
  then show ?thesis using assms by (auto simp: reallocates_def wf_buf_def contents_def)
next
  case (Some b)
  then have b: "length b = cap g" "len g < cap g" using assms(2) by (simp_all add: wf_buf_def)
  have nb: "length nb = n" "take (min n (length b)) nb = take n b"
    using assms(1,3) Some by (auto simp: reallocates_def)
  have "len g \<le> min n (length b)" using b assms(4) by simp
  then have "take (len g) nb = take (len g) (take (min n (length b)) nb)" by (simp add: min.absorb1)
  also have "\<dots> = take (len g) (take n b)" by (simp only: nb(2))
  finally show ?thesis using nb b assms(4) Some by (simp add: contents_def min_def)
qed

lemma growbuf_append_cases:
  assumes "reallocates realloc" "wf_buf g"
  shows "\<exists>g'. growbuf_append realloc data g = Some g' \<and> wf_buf g' \<and>
    (contents g' = contents g @ data \<or>
     contents g' = contents g \<and> (\<exists>n. realloc (buf g) n = None))"
proof (cases "len g + length data + 1 > cap g")
  case True
  define nc where "nc = double_until (if cap g \<noteq> 0 then cap g else 256) (len g + length data + 1)"
  have nc: "len g + length data + 1 \<le> nc" unfolding nc_def by (rule double_until_enough) simp
  have eq: "growbuf_append realloc data g = (case realloc (buf g) nc of None \<Rightarrow> Some g
      | Some nb \<Rightarrow> append_text data (g\<lparr>buf := Some nb, cap := nc\<rparr>))"
    using True by (simp only: growbuf_append_def nc_def Let_def if_True)
  show ?thesis
  proof (cases "realloc (buf g) nc")
    case None
    then show ?thesis using assms(2) by (auto simp: eq)
  next
    case (Some nb)
    then have "length nb = nc" "take (len g) nb = contents g"
      using grown [OF assms Some] True nc by auto
    then show ?thesis
      using append_text_fits [of "g\<lparr>buf := Some nb, cap := nc\<rparr>" nb data] Some nc
      by (auto simp: eq)
  qed
next
  case False
  then obtain b where "buf g = Some b" "length b = cap g"
    using assms(2) by (auto simp: wf_buf_def split: option.splits)
  then show ?thesis
    using append_text_fits [of g b data] False by (auto simp: growbuf_append_def contents_def)
qed

interpretation log_buf: text_buffer growbuf_append "\<lambda>t. t" "\<lambda>_. True"
proof
  fix realloc g t
  assume "reallocates realloc" "wf_buf g"
  note cases = growbuf_append_cases [OF this, of t]
  then show "\<exists>g'. growbuf_append realloc t g = Some g' \<and> wf_buf g' \<and>
      (contents g' = contents g @ t \<or> contents g' = contents g)" by blast
  assume "\<forall>p n. realloc p n \<noteq> None"
  then show "\<exists>g'. growbuf_append realloc t g = Some g' \<and> wf_buf g' \<and> contents g' = contents g @ t"
    using cases by blast
qed

lemma dis_printf_appends:
  assumes "reallocates realloc" "\<forall>p n. realloc p n \<noteq> None" "wf_buf c"
  shows "\<exists>c'. dis_printf realloc t c = Some c' \<and> wf_buf c' \<and> contents c' = contents c @ take 255 t"
proof (cases "t = []")
  case False
  define want where "want = len c + length (take 255 t) + 1"
  define nc where "nc = double_until (if cap c \<noteq> 0 then cap c else 64) want"
  have nc: "want \<le> nc" unfolding nc_def by (rule double_until_enough) simp
  define c1 where "c1 = dis_ensure_cap realloc want c"
  have "\<exists>b. buf c1 = Some b \<and> length b = cap c1 \<and> want \<le> cap c1 \<and> take (len c) b = contents c \<and> len c1 = len c"
  proof (cases "cap c \<ge> want")
    case True
    then show ?thesis using assms(3)
      by (auto simp: c1_def dis_ensure_cap_def wf_buf_def contents_def want_def split: option.splits)
  next
    case False
    obtain nb where nb: "realloc (buf c) nc = Some nb" using assms(2) by fastforce
    then have "c1 = c\<lparr>buf := Some nb, cap := nc\<rparr>"
      using False by (simp only: c1_def dis_ensure_cap_def nc_def Let_def if_False option.case)
    then show ?thesis
      using grown [OF assms(1,3) nb] False nc by simp
  qed
  then obtain b where b: "buf c1 = Some b" "length b = cap c1" "want \<le> cap c1" "take (len c1) b = contents c"
    "len c1 = len c" by metis
  then show ?thesis
    using append_text_fits [of c1 b "take 255 t"] False
    by (auto simp: dis_printf_def Let_def want_def c1_def)
qed (use assms(3) in \<open>simp add: dis_printf_def\<close>)

interpretation dis_buf: text_buffer dis_printf "take 255" "\<lambda>realloc. \<forall>p n. realloc p n \<noteq> None"
  by unfold_locales (use dis_printf_appends in blast)+

text \<open>The diagnostics log is safe whatever the allocator does: from an empty buffer, with any
  sequence of writes and any failures of \<open>realloc\<close>, no write leaves the block and the text stays
  zero-terminated; without failures the log is everything written, in order.\<close>

theorem capture_log_safe:
  assumes "reallocates realloc"
  shows "case add_all (growbuf_append realloc) ts empty_buf of
      None \<Rightarrow> False
    | Some g \<Rightarrow> wf_buf g \<and> ((\<forall>p n. realloc p n \<noteq> None) \<longrightarrow> contents g = concat ts)"
proof -
  have "wf_buf empty_buf" "contents empty_buf = []" by (simp_all add: empty_buf_def wf_buf_def contents_def)
  then show ?thesis
    using log_buf.add_all_safe [OF assms, of empty_buf ts] log_buf.add_all_appends [OF assms, of empty_buf ts]
    by (auto split: option.splits)
qed

text \<open>An allocator that never fails, and one that serves only the first block.\<close>

definition generous :: reallocator where
  "generous p n = Some (take n (case p of None \<Rightarrow> [] | Some b \<Rightarrow> b) @ replicate (n - length (case p of None \<Rightarrow> [] | Some b \<Rightarrow> b)) NUL)"

definition no_growth :: reallocator where
  "no_growth p n = (case p of None \<Rightarrow> generous None n | Some _ \<Rightarrow> None)"

lemma generous_reallocates: "reallocates generous"
  by (auto simp: reallocates_def generous_def min_def split: option.splits)

lemma no_growth_reallocates: "reallocates no_growth"
  using generous_reallocates by (auto simp: reallocates_def no_growth_def split: option.splits)

theorem capture_log_safe_witness:
  "(case add_all (growbuf_append generous) [''a'', ''bc''] empty_buf of
      None \<Rightarrow> False | Some g \<Rightarrow> wf_buf g \<and> contents g = ''abc'')"
  using capture_log_safe [OF generous_reallocates, of "[''a'', ''bc'']"]
  by (auto simp: generous_def split: option.splits)

text \<open>C35. The text of an instruction is collected without leaving the block as long as no
  allocation fails; it is the concatenation of the pieces, each cut to 255 characters. One failing
  \<open>realloc\<close> is enough to lose this: unlike the log, \<open>dis_printf\<close> does not test the new capacity,
  and with a first block of 64 bytes and no second one it writes behind the block.\<close>

theorem disasm_text_safe_unless_realloc_fails:
  assumes "reallocates realloc" "\<forall>p n. realloc p n \<noteq> None"
  shows "(\<exists>c. add_all (dis_printf realloc) ts empty_buf = Some c \<and> wf_buf c \<and>
            contents c = concat (map (take 255) ts)) \<and>
    (\<exists>bad. reallocates bad \<and>
       add_all (dis_printf bad) [''j'', replicate 70 CHR ''x''] empty_buf = None)"
proof
  have "wf_buf empty_buf" "contents empty_buf = []" by (simp_all add: empty_buf_def wf_buf_def contents_def)
  then show "\<exists>c. add_all (dis_printf realloc) ts empty_buf = Some c \<and> wf_buf c \<and>
      contents c = concat (map (take 255) ts)"
    using dis_buf.add_all_appends [OF assms, of empty_buf ts] by auto
  have "add_all (dis_printf no_growth) [''j'', replicate 70 CHR ''x''] empty_buf = None"
    by code_simp
  then show "\<exists>bad. reallocates bad \<and> add_all (dis_printf bad) [''j'', replicate 70 CHR ''x''] empty_buf = None"
    using no_growth_reallocates by blast
qed

theorem disasm_text_safe_unless_realloc_fails_witness:
  "\<exists>c. add_all (dis_printf generous) [''j'', '' 0x0''] empty_buf = Some c \<and> wf_buf c \<and> contents c = ''j 0x0''"
  using disasm_text_safe_unless_realloc_fails [OF generous_reallocates, of "[''j'', '' 0x0'']"]
  by (auto simp: generous_def split: option.splits)

end
