(* ===== verification/Capture.thy ===== *)
theory Capture
  imports Buffers
begin

text \<open>
  The capture of gas's diagnostics in \<^verbatim>\<open>src/src/nyxstone_glue.c\<close>: while it is active the
  \<open>stderr\<close> stream is a cookie stream that appends to the log buffer. The theory proves that the
  host's stream is always put back, that nothing gas prints in between reaches it, and that the
  text handed out is what was printed since the capture began.
\<close>

datatype stream = Cap_stream | Host_stream nat

text \<open>The variables \<open>g_caplog\<close>, \<open>g_cap_stream\<close> (is it open), \<open>g_saved_stderr\<close> and \<open>stderr\<close>,
  and what has been printed to the host's streams.\<close>

record capture =
  caplog :: growbuf
  cap_stream :: bool
  saved_stderr :: "stream option"
  stderr :: stream
  host_output :: string

text \<open>\<open>cap_write\<close>, the write function of the cookie stream (which is unbuffered): it takes all of
  the text.\<close>

definition cap_write :: "reallocator \<Rightarrow> string \<Rightarrow> capture \<Rightarrow> (nat \<times> capture) option" where
  "cap_write realloc data s =
     map_option (\<lambda>log. (length data, s\<lparr>caplog := log\<rparr>)) (growbuf_append realloc data (caplog s))"

definition empty_log :: "growbuf \<Rightarrow> growbuf" where
  "empty_log g = g\<lparr>len := 0, buf := map_option (\<lambda>b. b[0 := NUL]) (buf g)\<rparr>"

definition begin_capture :: "bool \<Rightarrow> capture \<Rightarrow> capture" where
  "begin_capture fopencookie s =
     (let s1 = s\<lparr>caplog := empty_log (caplog s)\<rparr>;
          s2 = (if \<not> cap_stream s1 then s1\<lparr>cap_stream := fopencookie\<rparr> else s1)
      in if cap_stream s2 \<and> saved_stderr s2 = None
         then s2\<lparr>saved_stderr := Some (stderr s2), stderr := Cap_stream\<rparr> else s2)"

definition end_capture :: "capture \<Rightarrow> string \<times> capture" where
  "end_capture s =
     (let s1 = (case saved_stderr s of
                  None \<Rightarrow> s
                | Some h \<Rightarrow> s\<lparr>stderr := h, saved_stderr := None\<rparr>)
      in (case buf (caplog s1) of None \<Rightarrow> [] | Some b \<Rightarrow> c_str b, s1))"

text \<open>Something prints to \<open>stderr\<close>.\<close>

definition print_stderr :: "reallocator \<Rightarrow> string \<Rightarrow> capture \<Rightarrow> capture option" where
  "print_stderr realloc t s =
     (case stderr s of
        Cap_stream \<Rightarrow> map_option snd (cap_write realloc t s)
      | Host_stream h \<Rightarrow> Some (s\<lparr>host_output := host_output s @ t\<rparr>))"

fun prints :: "reallocator \<Rightarrow> string list \<Rightarrow> capture \<Rightarrow> capture option" where
  "prints realloc [] s = Some s"
| "prints realloc (t # ts) s =
     (case print_stderr realloc t s of None \<Rightarrow> None | Some s' \<Rightarrow> prints realloc ts s')"

subsection \<open>The capture window\<close>

text \<open>Between two calls nothing is redirected; a window that was left by an exception has the
  host's stream in \<open>saved_stderr\<close>.\<close>

definition capture_ok :: "nat \<Rightarrow> capture \<Rightarrow> bool" where
  "capture_ok h s \<longleftrightarrow> wf_buf (caplog s) \<and>
     (saved_stderr s = None \<and> stderr s = Host_stream h \<or>
      cap_stream s \<and> saved_stderr s = Some (Host_stream h) \<and> stderr s = Cap_stream)"

definition capturing :: "nat \<Rightarrow> capture \<Rightarrow> bool" where
  "capturing h s \<longleftrightarrow> wf_buf (caplog s) \<and>
     cap_stream s \<and> saved_stderr s = Some (Host_stream h) \<and> stderr s = Cap_stream"

lemma capturing_ok: "capturing h s \<Longrightarrow> capture_ok h s"
  by (simp add: capturing_def capture_ok_def)

lemma empty_log_wf: "wf_buf g \<Longrightarrow> wf_buf (empty_log g) \<and> contents (empty_log g) = []"
  by (auto simp: empty_log_def wf_buf_def contents_def split: option.splits)

lemma begin_captures:
  assumes "capture_ok h s"
  shows "capturing h (begin_capture True s) \<and> contents (caplog (begin_capture True s)) = [] \<and>
    host_output (begin_capture True s) = host_output s"
  using assms empty_log_wf [of "caplog s"]
  by (auto simp: begin_capture_def capturing_def capture_ok_def Let_def)

lemma prints_captured:
  "reallocates realloc \<Longrightarrow> capturing h s \<Longrightarrow>
    \<exists>s'. prints realloc ts s = Some s' \<and> capturing h s' \<and> host_output s' = host_output s \<and>
      ((\<forall>p n. realloc p n \<noteq> None) \<longrightarrow> contents (caplog s') = contents (caplog s) @ concat ts)"
proof (induction ts arbitrary: s)
  case (Cons t ts)
  obtain log where log: "growbuf_append realloc t (caplog s) = Some log" "wf_buf log"
    "(\<forall>p n. realloc p n \<noteq> None) \<longrightarrow> contents log = contents (caplog s) @ t"
    using log_buf.add_keeps [OF Cons.prems(1), of "caplog s" t] log_buf.add_appends [OF Cons.prems(1), of "caplog s" t]
      Cons.prems(2) by (cases "\<forall>p n. realloc p n \<noteq> None") (auto simp: capturing_def)
  have "capturing h (s\<lparr>caplog := log\<rparr>)" using Cons.prems(2) log(2) by (simp add: capturing_def)
  note IH = Cons.IH [OF Cons.prems(1) this]
  have "print_stderr realloc t s = Some (s\<lparr>caplog := log\<rparr>)"
    using Cons.prems(2) log(1) by (simp add: print_stderr_def cap_write_def capturing_def)
  then show ?case using IH log(3) by fastforce
qed simp

lemma end_restores:
  assumes "capture_ok h s"
  shows "saved_stderr (snd (end_capture s)) = None \<and> stderr (snd (end_capture s)) = Host_stream h \<and>
    wf_buf (caplog (snd (end_capture s))) \<and> host_output (snd (end_capture s)) = host_output s"
  using assms by (auto simp: end_capture_def Let_def capture_ok_def)

lemma c_str_log:
  assumes "wf_buf g" "NUL \<notin> set (contents g)"
  shows "(case buf g of None \<Rightarrow> [] | Some b \<Rightarrow> c_str b) = contents g"
proof (cases "buf g")
  case (Some b)
  then have b: "len g < length b" "b ! len g = NUL" using assms(1) by (auto simp: wf_buf_def)
  then have "b = contents g @ NUL # drop (Suc (len g)) b"
    using Some id_take_nth_drop [of "len g" b] by (simp add: contents_def)
  moreover have "takeWhile (\<lambda>c. c \<noteq> NUL) (contents g @ NUL # t) = contents g" for t
    using assms(2) by (subst takeWhile_append2) auto
  ultimately have "c_str b = contents g" by (metis c_str_def)
  then show ?thesis using Some by simp
qed (simp add: contents_def)

text \<open>Whatever gas prints between the two calls, and whatever the allocator does, nothing of it
  reaches the host's stream, no write leaves the log buffer, and afterwards the host's stream is
  back in place; without allocation failures the returned text is all that was printed. This
  also holds when an earlier window was left without its end: the saved stream is not
  overwritten.\<close>

theorem capture_window_restores:
  assumes "reallocates realloc" "capture_ok h s"
  shows "case prints realloc ts (begin_capture True s) of
      None \<Rightarrow> False
    | Some s1 \<Rightarrow>
        let (out, s2) = end_capture s1
        in stderr s2 = Host_stream h \<and> saved_stderr s2 = None \<and> host_output s2 = host_output s \<and>
           ((\<forall>p n. realloc p n \<noteq> None) \<longrightarrow> NUL \<notin> set (concat ts) \<longrightarrow> out = concat ts)"
proof -
  note b = begin_captures [OF assms(2)]
  obtain s1 where s1: "prints realloc ts (begin_capture True s) = Some s1" "capturing h s1"
    "host_output s1 = host_output s"
    "(\<forall>p n. realloc p n \<noteq> None) \<longrightarrow> contents (caplog s1) = concat ts"
    using prints_captured [OF assms(1), of h "begin_capture True s" ts] b by auto
  have "wf_buf (caplog s1)" using s1(2) by (simp add: capturing_def)
  then have "fst (end_capture s1) = contents (caplog s1)" if "NUL \<notin> set (contents (caplog s1))"
    using c_str_log [OF _ that] s1(2) by (simp add: end_capture_def Let_def capturing_def)
  then show ?thesis
    using s1 end_restores [OF capturing_ok [OF s1(2)]] by (auto simp: Let_def case_prod_unfold)
qed

definition idle_capture :: capture where
  "idle_capture = \<lparr>caplog = empty_buf, cap_stream = False, saved_stderr = None, stderr = Host_stream 2,
     host_output = ''> ''\<rparr>"

lemma idle_ok: "capture_ok 2 idle_capture"
  by (simp add: capture_ok_def idle_capture_def empty_buf_def wf_buf_def)

theorem capture_window_restores_witness:
  "\<exists>s1. prints generous [''Error: '', ''bad''] (begin_capture True (begin_capture True idle_capture)) = Some s1 \<and>
     fst (end_capture s1) = ''Error: bad'' \<and> stderr (snd (end_capture s1)) = Host_stream 2 \<and>
     host_output (snd (end_capture s1)) = ''> ''"
proof -
  note ok = capturing_ok [OF conjunct1 [OF begin_captures [OF idle_ok]]]
  have "\<forall>p n. generous p n \<noteq> None" by (simp add: generous_def)
  moreover have "host_output (begin_capture True idle_capture) = ''> ''"
    by (simp add: begin_capture_def idle_capture_def Let_def)
  ultimately show ?thesis
    using capture_window_restores [OF generous_reallocates ok, of "[''Error: '', ''bad'']"]
    by (auto simp: Let_def case_prod_unfold split: option.splits)
qed

end
