(* ===== verification/Reloc_Values.thy ===== *)
theory Reloc_Values
  imports Reloc_Fields
begin

text \<open>
  What the fields mean: the reading of every encoded form gives the value back, a form is refused
  exactly when its field has no reading with that value, and the high and low halves of an address
  recombine. The last part is about \<open>encode_pcrel_field\<close> on the section image.
\<close>

subsection \<open>Signed and unsigned readings of a truncated word\<close>

lemma uint_take_bit_long: "n \<le> 64 \<Longrightarrow> uint (take_bit n w) = take_bit n (sint w)" for w :: long
  by (simp add: unsigned_take_bit_eq sint_uint take_bit_signed_take_bit)

lemma signed_reading:
  fixes w :: long
  assumes "n < 64" "- (2 ^ n) \<le> sint w" "sint w < 2 ^ n"
  shows "signed_take_bit n (uint (take_bit (Suc n) w)) = sint w"
  using assms by (simp add: uint_take_bit_long signed_take_bit_take_bit signed_take_bit_int_eq_self)

lemma unsigned_reading:
  fixes w :: long
  assumes "n \<le> 64" "0 \<le> sint w" "sint w < 2 ^ n"
  shows "uint (take_bit n w) = sint w"
  using assms by (simp add: uint_take_bit_long take_bit_int_eq_self)

lemma and_one_even: "v AND 1 = 0 \<longleftrightarrow> even (sint v)" for v :: long
proof -
  have "even v \<longleftrightarrow> even (sint v)"
    using bit_sint_iff [of v 0] by (simp add: bit_0)
  then show ?thesis
    by (simp add: and_one_eq even_iff_mod_2_eq_zero)
qed

lemma sint_half: "sint (signed_drop_bit (Suc 0) v) = sint v div 2" for v :: long
  by (simp add: sint_signed_drop_bit_eq drop_bit_eq_div)

lemma half_signed:
  fixes v :: long
  assumes "n < 63" "even (sint v)" "- (2 * 2 ^ n) \<le> sint v" "sint v < 2 * 2 ^ n"
  shows "2 * signed_take_bit n (uint (take_bit (Suc n) (signed_drop_bit (Suc 0) v))) = sint v"
  using assms by (subst signed_reading) (auto simp: sint_half)

lemma half_unsigned:
  fixes v :: long
  assumes "n < 64" "even (sint v)" "0 \<le> sint v" "sint v < 2 * 2 ^ n"
  shows "2 * uint (take_bit n (signed_drop_bit (Suc 0) v)) = sint v"
  using assms by (subst unsigned_reading) (auto simp: sint_half)

lemma half_backward:
  fixes v :: long
  assumes "even (sint v)" "-32 \<le> sint v" "sint v < 0"
  shows "2 * (uint (take_bit 4 (signed_drop_bit (Suc 0) v)) - 16) = sint v"
proof -
  have "uint (take_bit 4 (signed_drop_bit (Suc 0) v)) = (sint v div 2) mod 16"
    using uint_take_bit_long [of 4 "signed_drop_bit (Suc 0) v"]
    by (simp only: sint_half take_bit_eq_mod) simp
  then show ?thesis using assms by presburger
qed

lemma and_not_mask_eq_0: "v AND NOT (mask n) = 0 \<longleftrightarrow> take_bit n v = v" for v :: long
  by (auto simp: bit_eq_iff bit_simps)

lemma sint_small: "uint v < 2 ^ 63 \<Longrightarrow> sint v = uint v" for v :: long
  unfolding sint_uint
  by (rule signed_take_bit_int_eq_self) (auto intro: order_trans [OF _ uint_ge_0])

lemma take_bit_range:
  fixes v :: long
  assumes "n < 63"
  shows "take_bit n v = v \<longleftrightarrow> 0 \<le> sint v \<and> sint v < 2 ^ n"
proof
  assume v: "take_bit n v = v"
  have "uint v < 2 ^ n"
    using uint_take_bit_long [of n v] take_bit_int_less_exp [of n "sint v"] assms by (simp add: v)
  moreover have "(2 :: int) ^ n < 2 ^ 63"
    using assms by (intro power_strict_increasing) auto
  ultimately show "0 \<le> sint v \<and> sint v < 2 ^ n"
    using sint_small [of v] by simp
next
  assume "0 \<le> sint v \<and> sint v < 2 ^ n"
  then have "uint (take_bit n v) = sint v"
    using unsigned_reading [of n v] assms by simp
  then have "take_bit n v = word_of_int (sint v)"
    by (metis word_of_int_uint)
  then show "take_bit n v = v" by simp
qed

lemma zconst_range:
  fixes v :: long
  shows "v AND NOT 511 = 0 \<longleftrightarrow> 0 \<le> sint v \<and> sint v < 512"
    and "v AND NOT 255 = 0 \<longleftrightarrow> 0 \<le> sint v \<and> sint v < 256"
  using and_not_mask_eq_0 [of v 9] take_bit_range [of 9 v]
    and_not_mask_eq_0 [of v 8] take_bit_range [of 8 v]
  unfolding mask_numerals by simp_all


subsection \<open>Encoding is exact\<close>

text \<open>The forms whose field determines the whole value, and those of them that hold an address,
  where only 32-bit values make sense.\<close>

definition exact_form :: "form \<Rightarrow> bool" where
  "exact_form f \<longleftrightarrow> f \<notin> {R_HI, R_HIADJ, R_LO, R_LO2, R_16SM, R_10SM, R_16SM2}"

definition address_form :: "form \<Rightarrow> bool" where
  "address_form f \<longleftrightarrow> f \<in> {R_24ABS, R_18ABS, R_18ABS_14}"

definition representable :: "form \<Rightarrow> long \<Rightarrow> bool" where
  "representable f v \<longleftrightarrow> (address_form f \<longrightarrow> uint v < 2 ^ 32)"

lemmas form_class_defs = exact_form_def address_form_def representable_def

lemma high_bits_clear: "uint v < 2 ^ 32 \<Longrightarrow> 32 \<le> n \<Longrightarrow> \<not> bit v n" for v :: long
proof -
  assume "uint v < 2 ^ 32" "32 \<le> n"
  then have "take_bit 32 v = v" using take_bit_range [of 32 v] sint_small [of v] by simp
  then show ?thesis using \<open>32 \<le> n\<close> by (metis bit_take_bit_iff not_le)
qed

lemma and_eq_0_bits: "a AND b = 0 \<Longrightarrow> bit b n \<Longrightarrow> \<not> bit a n" for a :: "'a::len word"
  by (metis bit_and_iff bit_0_eq bot_apply bot_bool_def)

lemma abs24_reading:
  assumes "uint v < 2 ^ 32" "v AND 0x0fe00001 = 0"
  shows "abs24_value (field_source R_24ABS v) = v"
proof (rule bit_word_eqI)
  fix n :: nat assume "n < LENGTH(64)"
  have low: "\<not> bit v 0" and gap: "\<And>k. 21 \<le> k \<Longrightarrow> k < 28 \<Longrightarrow> \<not> bit v k"
    using and_eq_0_bits [OF assms(2)] by (simp_all add: bitwise)
  show "bit (abs24_value (field_source R_24ABS v)) n = bit v n"
  proof (cases "32 \<le> n")
    case True
    then show ?thesis
      using high_bits_clear [OF assms(1), of n]
      by (simp add: bitwise bit_double_iff mult.commute [of _ "2 :: long"])
  next
    case False
    consider "n = 0" | "0 < n" "n < 21" | "21 \<le> n" "n < 28" | "28 \<le> n" "n < 32"
      using False by linarith
    then show ?thesis
      using low gap high_bits_clear [OF assms(1)] by cases
        (simp_all add: bitwise bit_double_iff mult.commute [of _ "2 :: long"])
  qed
qed

lemma abs18_reading:
  assumes "uint v < 2 ^ 32" "v AND 0x0fffc000 = 0"
  shows "abs18_value (field_source R_18ABS v) = v"
proof (rule bit_word_eqI)
  fix n :: nat assume "n < LENGTH(64)"
  have gap: "14 \<le> n \<Longrightarrow> n < 28 \<Longrightarrow> \<not> bit v n"
    using and_eq_0_bits [OF assms(2)] by (simp_all add: bitwise)
  consider "n < 14" | "14 \<le> n" "n < 28" | "28 \<le> n" "n < 32" | "32 \<le> n" by linarith
  then show "bit (abs18_value (field_source R_18ABS v)) n = bit v n"
    using gap high_bits_clear [OF assms(1)] by cases (simp_all add: bitwise)
qed

lemma abs18_14_reading:
  assumes "uint v < 2 ^ 32" "v AND 0x00003fff = 0"
  shows "push_bit 14 (field_source R_18ABS_14 v) = v"
proof (rule bit_word_eqI)
  fix n :: nat assume "n < LENGTH(64)"
  have gap: "n < 14 \<Longrightarrow> \<not> bit v n"
    using and_eq_0_bits [OF assms(2)] by (simp_all add: bitwise)
  consider "n < 14" | "14 \<le> n" "n < 32" | "32 \<le> n" by linarith
  then show "bit (push_bit 14 (field_source R_18ABS_14 v)) n = bit v n"
    using gap high_bits_clear [OF assms(1)] by cases (simp_all add: bitwise)
qed


lemma encode_form_value:
  assumes "encode_form f op v = Some op'" "exact_form f" "representable f v"
  shows "field_value f op' = sint v"
proof -
  note raw = raw_field_encode [OF assms(1)]
  have wide: "address_form f \<Longrightarrow> uint v = sint v"
    using assms(3) sint_small [of v] by (simp add: representable_def)
  show ?thesis
  proof (cases f)
    case R_24ABS
    then show ?thesis using assms wide abs24_reading [of v] raw
      by (auto simp: form_class_defs Let_def split: if_splits)
  next
    case R_18ABS
    then show ?thesis using assms wide abs18_reading [of v] raw
      by (auto simp: form_class_defs Let_def split: if_splits)
  next
    case R_18ABS_14
    then show ?thesis using assms wide abs18_14_reading [of v] raw
      by (auto simp: form_class_defs Let_def split: if_splits)
  qed (use assms(1,2) raw signed_reading [of 15 v] signed_reading [of 9 v] signed_reading [of 8 v]
      half_signed [of 23 v] half_signed [of 14 v] half_signed [of 7 v]
      half_unsigned [of 4 v] half_unsigned [of 5 v] half_backward [of v]
      unsigned_reading [of 9 v] unsigned_reading [of 8 v] in
      \<open>auto simp del: raw_field.simps simp: form_class_defs and_one_even in_range_def zconst_range
        zconst_range [simplified]
        split: if_splits\<close>)
qed


lemma ex_none_iff: "x \<noteq> None \<longleftrightarrow> (\<exists>y. x = Some y)"
  by (cases x) auto

lemma uint_take_bit_less: "n < 64 \<Longrightarrow> uint (take_bit n w) < 2 ^ n" for w :: long
  by (simp add: unsigned_take_bit_eq)

lemma raw_field_less:
  "uint (raw_field R_4REL op) < 16" "uint (raw_field R_4REL2 op) < 16"
  "uint (raw_field R_5REL op) < 32" "uint (raw_field R_9ZCONST op) < 512"
  "uint (raw_field R_8CONST op) < 256"
proof -
  have "raw_field R_5REL op = take_bit 5 (raw_field R_5REL op)"
    by (rule bit_word_eqI) (auto simp: part_def bit_simps)
  then show "uint (raw_field R_5REL op) < 32"
    using uint_take_bit_less [of 5 "raw_field R_5REL op"] by simp
qed (use uint_take_bit_less [of 4 "ucast (drop_bit 8 op)"]
      uint_take_bit_less [of 9 "ucast (drop_bit 12 op)"]
      uint_take_bit_less [of 8 "ucast (drop_bit 8 op)"] in \<open>simp_all add: part_def\<close>)

lemmas signed_bounds = signed_take_bit_int_greater_eq_minus_exp signed_take_bit_int_less_exp

lemma relative_accepts:
  assumes "exact_form f" "\<not> address_form f" and v: "sint v = field_value f w"
  shows "encode_form f op v \<noteq> None"
proof -
  note rdefs = form_class_defs in_range_def and_one_even zconst_range zconst_range [simplified]
  show ?thesis
    using assms raw_field_less [of w]
      signed_bounds [of 23 "uint (raw_field R_24REL w)"] signed_bounds [of 14 "uint (raw_field R_15REL w)"]
      signed_bounds [of 7 "uint (raw_field R_8REL w)"] signed_bounds [of 15 "uint (raw_field f w)"]
      signed_bounds [of 9 "uint (raw_field R_10OFF w)"] signed_bounds [of 8 "uint (raw_field R_9SCONST w)"]
    by (cases f) (simp_all del: raw_field.simps add: rdefs)
qed

lemma abs_values_bits:
  "abs24_value r AND 0x0fe00001 = 0" "abs18_value r AND 0x0fffc000 = 0"
  "push_bit 14 r AND (0x00003fff :: long) = 0"
  by (rule bit_word_eqI, auto simp: bitwise bit_double_iff mult.commute [of _ "2 :: long"])+

lemma address_accepts:
  assumes "address_form f" "uint v = field_value f w"
  shows "encode_form f op v \<noteq> None"
  using assms abs_values_bits
  by (cases f) (auto simp: form_class_defs Let_def simp flip: word_uint_eq_iff)


subsection \<open>The opcode word in the image\<close>

lemma length_wr_le [simp]: "length (wr_le buf at n w) = length buf"
  by (induction n) (simp_all add: wr_le_def)

lemma nth_wr_le:
  "at + n \<le> length buf \<Longrightarrow>
    wr_le buf at n w ! i = (if at \<le> i \<and> i < at + n then ucast (drop_bit (8 * (i - at)) w) else buf ! i)"
proof (induction n)
  case (Suc n)
  have "wr_le buf at (Suc n) w = (wr_le buf at n w)[at + n := ucast (drop_bit (8 * n) w)]"
    by (simp add: wr_le_def)
  with Suc show ?case by (auto simp: nth_list_update)
qed (auto simp: wr_le_def)

lemma bit_placed_byte:
  "n < 4 \<Longrightarrow> bit (push_bit (8 * n) (ucast b) :: u32) k \<longleftrightarrow> k div 8 = n \<and> bit (b :: byte) (k mod 8)"
proof (cases "k div 8 = n")
  case True
  then have "k mod 8 = k - 8 * n" by (simp flip: minus_mult_div_eq_mod)
  moreover assume "n < 4"
  moreover have "8 * n \<le> k" "k < 8 * n + 8" using True by auto
  ultimately show ?thesis using True by (auto simp: bit_simps)
next
  case False
  then have "k < 8 * n \<or> 8 \<le> k - 8 * n" by (auto simp: div_nat_eqI)
  then show ?thesis using False bit_imp_le_length [of b "k - 8 * n"] by (auto simp: bit_simps)
qed

lemma bit_rd_le:
  "n \<le> 4 \<Longrightarrow> bit (rd_le buf at n) k \<longleftrightarrow> k < 8 * n \<and> bit (buf ! (at + k div 8)) (k mod 8)"
proof (induction n)
  case (Suc n)
  have "rd_le buf at (Suc n) = rd_le buf at n OR push_bit (8 * n) (ucast (buf ! (at + n)))"
    by (simp add: rd_le_def)
  moreover have "k < 8 * Suc n \<longleftrightarrow> k < 8 * n \<or> k div 8 = n" by auto
  ultimately show ?case
    using Suc by (auto simp: bit_placed_byte bit_or_iff)
qed (simp add: rd_le_def)

lemma rd_le_wr_le:
  "at + n \<le> length buf \<Longrightarrow> n \<le> 4 \<Longrightarrow> rd_le (wr_le buf at n w) at n = take_bit (8 * n) w"
  by (rule bit_word_eqI) (auto simp: bit_rd_le nth_wr_le bit_simps)


text \<open>C7. Encoding is exact. For every form whose field determines the whole value (all but the
  high and low address halves and the \<open>sm:\<close> forms), a value is accepted precisely when some opcode
  word has a field that reads as that value, and then the word written does; address forms are
  taken on 32-bit addresses.\<close>

theorem encode_form_exact:
  assumes "exact_form f" "representable f v"
  shows "(encode_form f op v \<noteq> None \<longleftrightarrow> (\<exists>w. field_value f w = sint v)) \<and>
    (\<forall>op'. encode_form f op v = Some op' \<longrightarrow> field_value f op' = sint v)"
proof -
  have "uint v = sint v" if "address_form f"
    using that assms(2) sint_small [of v] by (simp add: representable_def)
  then have "encode_form f op v \<noteq> None" if "field_value f w = sint v" for w
    using address_accepts [of f v w op] relative_accepts [of f v w op] assms that by metis
  then show ?thesis
    using encode_form_value [OF _ assms] by (auto simp: ex_none_iff)
qed

theorem encode_form_exact_witness:
  "encode_form R_24REL 0x1d (- 2) = Some 0xffffff1d \<and> field_value R_24REL 0xffffff1d = - 2 \<and>
   encode_form R_24REL 0x1d 0x1000000 = None \<and> \<not> (\<exists>w. field_value R_24REL w = 0x1000000)"
proof -
  have *: "exact_form R_24REL" "representable R_24REL v" for v
    by (simp_all add: form_class_defs)
  have near: "encode_form R_24REL 0x1d (- 2) = Some 0xffffff1d" by code_simp
  have far: "encode_form R_24REL 0x1d 0x1000000 = None" by code_simp
  have "sint (- 2 :: long) = - 2" "sint (0x1000000 :: long) = 0x1000000" by code_simp+
  then show ?thesis
    using encode_form_exact [where f = R_24REL and op = "0x1d" and v = "- 2", OF *]
      encode_form_exact [where f = R_24REL and op = "0x1d" and v = "0x1000000", OF *]
      near far by (simp del: encode_form.simps field_value.simps)
qed

lemma low_half: "uint (take_bit 16 v) = sint v mod 2 ^ 16" for v :: long
  using uint_take_bit_long [of 16 v] by (simp only: take_bit_eq_mod)

lemma halves_mod: "2 ^ 16 * (x div 2 ^ 16 mod 2 ^ 16) = x mod 2 ^ 32 - x mod 2 ^ 16" for x :: int
  using zmod_zmult2_eq [of "2 ^ 16" x "2 ^ 16"] by simp

lemma signed_low_half: "signed_take_bit 15 (x mod 2 ^ 16) = (x + 0x8000) mod 2 ^ 16 - 0x8000" for x :: int
  by (simp add: signed_take_bit_eq_take_bit_shift take_bit_eq_mod mod_simps)

lemma adjusted_sum: "((s + c) mod m - y + (y - c)) mod m = s mod m" for s c m y :: int
proof -
  have "(s + c) mod m - y + (y - c) = (s + c) mod m - c" by simp
  then show ?thesis by (simp only: mod_diff_left_eq) simp
qed

lemma mod_pow_low: "x mod 2 ^ 32 = y mod 2 ^ 32 \<Longrightarrow> x mod 2 ^ 16 = y mod 2 ^ 16" for x y :: int
  using mod_mod_cancel [of "2 ^ 16" "2 ^ 32" x] mod_mod_cancel [of "2 ^ 16" "2 ^ 32" y] by simp

lemma sint_add_mod: "sint (v + w) mod 2 ^ 32 = (sint v + sint w) mod 2 ^ 32" for v w :: long
proof -
  have "sint (v + w) = signed_take_bit 63 (sint v + sint w)"
    by (simp add: sint_word_ariths)
  then show ?thesis
    using take_bit_signed_take_bit [of 32 63 "sint v + sint w"] by (simp add: take_bit_eq_mod)
qed

text \<open>C33. The halves of an address recombine modulo $2^{32}$: \<open>hi:\<close> shifted up plus the unsigned
  \<open>lo:\<close> half, and, for the instruction pairs whose second operand is sign-extended, the adjusted
  \<open>hi:\<close> half plus the signed \<open>lo:\<close> half; the permuted \<open>LO2\<close> field holds the same low half.\<close>

theorem address_halves_recombine:
  "\<exists>hi adj lo lo2.
     encode_form R_HI op v = Some hi \<and> encode_form R_HIADJ op v = Some adj \<and>
     encode_form R_LO op v = Some lo \<and> encode_form R_LO2 op v = Some lo2 \<and>
     (2 ^ 16 * field_value R_HI hi + field_value R_LO lo) mod 2 ^ 32 = sint v mod 2 ^ 32 \<and>
     (2 ^ 16 * field_value R_HIADJ adj + signed_take_bit 15 (field_value R_LO2 lo2)) mod 2 ^ 32
       = sint v mod 2 ^ 32 \<and>
     field_value R_LO2 lo2 = field_value R_LO lo"
proof (intro exI conjI)
  let ?x = "sint (v + 0x8000)"
  have raw: "encode_form f op v = Some w \<Longrightarrow> field_value f w = uint (field_source f v)"
    if "f \<in> {R_HI, R_HIADJ, R_LO, R_LO2}" for f w
    using raw_field_encode [of f op v w] that by (cases f) auto
  show enc: "encode_form R_HI op v = Some (the (encode_form R_HI op v))"
    "encode_form R_HIADJ op v = Some (the (encode_form R_HIADJ op v))"
    "encode_form R_LO op v = Some (the (encode_form R_LO op v))"
    "encode_form R_LO2 op v = Some (the (encode_form R_LO2 op v))"
    by simp_all
  have vals: "field_value R_HI (the (encode_form R_HI op v)) = sint v div 2 ^ 16 mod 2 ^ 16"
    "field_value R_HIADJ (the (encode_form R_HIADJ op v)) = ?x div 2 ^ 16 mod 2 ^ 16"
    "field_value R_LO (the (encode_form R_LO op v)) = sint v mod 2 ^ 16"
    "field_value R_LO2 (the (encode_form R_LO2 op v)) = sint v mod 2 ^ 16"
    by (simp_all only: enc [THEN raw [rotated]] insert_iff field_source.simps low_half
        sint_signed_drop_bit_eq drop_bit_eq_div simp_thms)
  show "(2 ^ 16 * field_value R_HI (the (encode_form R_HI op v))
      + field_value R_LO (the (encode_form R_LO op v))) mod 2 ^ 32 = sint v mod 2 ^ 32"
    by (simp only: vals halves_mod diff_add_cancel mod_mod_trivial)
  have eight: "sint (0x8000 :: long) = 0x8000" by code_simp
  have mods: "?x mod 2 ^ 32 = (sint v + 0x8000) mod 2 ^ 32"
    unfolding sint_add_mod eight ..
  note mods = mods mod_pow_low [OF mods]
  show "(2 ^ 16 * field_value R_HIADJ (the (encode_form R_HIADJ op v))
      + signed_take_bit 15 (field_value R_LO2 (the (encode_form R_LO2 op v)))) mod 2 ^ 32
      = sint v mod 2 ^ 32"
    by (simp only: vals halves_mod signed_low_half mods adjusted_sum)
  show "field_value R_LO2 (the (encode_form R_LO2 op v)) = field_value R_LO (the (encode_form R_LO op v))"
    by (simp only: vals)
qed


subsection \<open>\<open>encode_pcrel_field\<close> on the image\<close>

text \<open>The two widths of an instruction, from the low bit of its first byte, and the fixups whose
  \<open>howto\<close> is a plain data field, which are not read as instructions.\<close>

definition insn_len :: "byte list \<Rightarrow> nat \<Rightarrow> nat" where
  "insn_len buf at = (if buf ! at AND 1 \<noteq> 0 then 4 else 2)"

definition plain_field :: "howto \<Rightarrow> bool" where
  "plain_field ht \<longleftrightarrow> h_dst_mask ht = 0xffffffff \<or>
     (h_dst_mask ht = 0xffff \<or> h_dst_mask ht = 0xff) \<and> h_bitpos ht = 0"

definition fits_width :: "form \<Rightarrow> nat \<Rightarrow> bool" where
  "fits_width f len \<longleftrightarrow> len = 4 \<or> f \<in> {R_8REL, R_4REL, R_4REL2, R_5REL, R_8CONST}"

text \<open>The width of a plain data field, and the number of bytes \<open>encode_pcrel_field\<close> may write.\<close>

definition plain_width :: "howto \<Rightarrow> nat option" where
  "plain_width ht =
     (case h_name ht of
        None \<Rightarrow> None
      | Some name \<Rightarrow>
          let r = form_suffix name
          in if r = ''32ABS'' \<or> r = ''32REL'' \<or> h_dst_mask ht = 0xffffffff then Some 4
             else if r = ''16ABS'' \<or> (h_dst_mask ht = 0xffff \<and> h_bitpos ht = 0) then Some 2
             else if r = ''8ABS'' \<or> (h_dst_mask ht = 0xff \<and> h_bitpos ht = 0) then Some 1
             else None)"

definition site_width :: "byte list \<Rightarrow> nat \<Rightarrow> howto \<Rightarrow> nat" where
  "site_width buf at ht = (case plain_width ht of Some w \<Rightarrow> w | None \<Rightarrow> insn_len buf at)"

lemma wr_le_low: "wr_le buf at 2 (w AND 0xffff) = wr_le buf at 2 w" "wr_le buf at 1 (ucast v) = buf[at := ucast v]"
  for v :: long
proof -
  have "ucast (w AND 0xffff) = (ucast w :: byte)" "ucast (drop_bit 8 (w AND 0xffff)) = (ucast (drop_bit 8 w) :: byte)"
    unfolding mask_numerals by (rule bit_word_eqI, auto simp: bit_simps)+
  then show "wr_le buf at 2 (w AND 0xffff) = wr_le buf at 2 w"
    by (simp add: wr_le_def numeral_2_eq_2)
  have "ucast (ucast v :: u32) = (ucast v :: byte)"
    by (rule bit_word_eqI) (auto simp: bit_simps)
  then show "wr_le buf at 1 (ucast v) = buf[at := ucast v]"
    by (simp add: wr_le_def)
qed

lemma encode_pcrel_field_cases:
  "encode_pcrel_field buf at ht v =
     (case h_name ht of
        None \<Rightarrow> (Not_encoded, buf)
      | Some name \<Rightarrow>
        if at + site_width buf at ht > length buf then (Not_encoded, buf)
        else case plain_width ht of
          Some w \<Rightarrow> (Encoded, wr_le buf at w (ucast v))
        | None \<Rightarrow>
            (case map_of form_names (form_suffix name) of
               None \<Rightarrow> (Not_encoded, buf)
             | Some f \<Rightarrow>
                 (case encode_form f (rd_le buf at (insn_len buf at)) v of
                    None \<Rightarrow> (Illegal, buf)
                  | Some op \<Rightarrow> (Encoded, wr_le buf at (insn_len buf at) op))))"
proof (cases "h_name ht")
  case (Some name)
  have "length buf \<le> at \<Longrightarrow> length buf < at + insn_len buf at" by (auto simp: insn_len_def)
  then show ?thesis
    using Some wr_le_low(2) [of buf at v]
    by (simp add: encode_pcrel_field_def Let_def site_width_def plain_width_def wr_le_low(1) insn_len_def
        split: option.split)
qed (simp add: encode_pcrel_field_def)

lemma encode_local:
  assumes "encode_pcrel_field buf at ht v = (rc, buf')"
  shows "length buf' = length buf \<and> (rc \<noteq> Encoded \<longrightarrow> buf' = buf) \<and>
    (\<forall>i. i < at \<or> at + site_width buf at ht \<le> i \<longrightarrow> buf' ! i = buf ! i)"
  using assms unfolding encode_pcrel_field_cases
  by (auto simp: nth_wr_le site_width_def split: option.splits if_splits)

text \<open>Whatever it returns, \<open>encode_pcrel_field\<close> keeps the size of the image and every byte
  outside the field or instruction at the fixup, and it writes nothing at all unless it reports
  success.\<close>

theorem encode_pcrel_field_local:
  assumes "encode_pcrel_field buf at ht v = (rc, buf')"
  shows "length buf' = length buf \<and> (rc \<noteq> Encoded \<longrightarrow> buf' = buf) \<and>
    (\<forall>i. i < at \<or> at + site_width buf at ht \<le> i \<longrightarrow> buf' ! i = buf ! i)"
  by (rule encode_local [OF assms])

theorem encode_pcrel_field_local_witness:
  "encode_pcrel_field [0xAA, 0x3C, 0x00, 0xBB]  1
     \<lparr>h_name = Some ''R_TRICORE_8REL'', h_dst_mask = 0xff00, h_bitpos = 8, h_pc_relative = True,
      h_type = 11\<rparr> (- 4) = (Encoded, [0xAA, 0x3C, 0xFE, 0xBB]) \<and>
   [0xAA, 0x3C, 0xFE, 0xBB :: byte] ! 0 = [0xAA, 0x3C, 0x00, 0xBB] ! 0"
proof -
  have "encode_pcrel_field [0xAA, 0x3C, 0x00, 0xBB]  1
     \<lparr>h_name = Some ''R_TRICORE_8REL'', h_dst_mask = 0xff00, h_bitpos = 8, h_pc_relative = True,
      h_type = 11\<rparr> (- 4) = (Encoded, [0xAA, 0x3C, 0xFE, 0xBB])"
    by code_simp
  then show ?thesis using encode_pcrel_field_local by blast
qed

lemma insn_len_bit: "insn_len buf at = (if bit (buf ! at) 0 then 4 else 2)"
  by (simp add: insn_len_def and_one_eq bit_0 odd_iff_mod_2_eq_one)

lemma insn_len_cases: "insn_len buf at = 2 \<or> insn_len buf at = 4"
  by (simp add: insn_len_def)

lemma part_take_bit: "lo + n \<le> m \<Longrightarrow> part (take_bit m w) lo n to = part w lo n to"
  unfolding part_def by (intro arg_cong [where f = "push_bit to"] bit_word_eqI)
    (auto simp: bit_simps)

lemma raw_field_take_bit:
  "fits_width f len \<Longrightarrow> len = 2 \<or> len = 4 \<Longrightarrow> raw_field f (take_bit (8 * len) w) = raw_field f w"
proof (elim disjE)
  assume "fits_width f len" "len = 2"
  then show ?thesis by (cases f) (auto simp: fits_width_def part_take_bit)
qed (simp add: take_bit_word_eq_self)

lemma field_value_raw: "raw_field f a = raw_field f b \<Longrightarrow> field_value f a = field_value f b"
  by (cases f) simp_all

lemma same_outside_take_bit:
  "same_outside m a b \<Longrightarrow> same_outside m (take_bit n a) (take_bit n b)"
  by (auto simp: same_outside_def bit_take_bit_iff)

lemma field_mask_low: "\<not> bit (field_mask f) 0"
  by (cases f) (simp_all add: bit_simps)


lemma encode_instruction:
  assumes "encode_pcrel_field buf at ht v = (Encoded, buf')"
    and "h_name ht = Some name" "map_of form_names (form_suffix name) = Some f" "\<not> plain_field ht"
  shows "at + insn_len buf at \<le> length buf \<and>
    (\<exists>w. encode_form f (rd_le buf at (insn_len buf at)) v = Some w \<and>
         buf' = wr_le buf at (insn_len buf at) w)"
proof -
  have "form_suffix name \<notin> {''32ABS'', ''32REL'', ''16ABS'', ''8ABS''}"
    using assms(3) by (auto simp: form_names_def)
  with assms show ?thesis
    by (auto simp: encode_pcrel_field_def insn_len_def plain_field_def Let_def
        split: option.splits if_splits)
qed

lemma instruction_reads_back:
  assumes "encode_pcrel_field buf at ht v = (Encoded, buf')"
    and "h_name ht = Some name" "map_of form_names (form_suffix name) = Some f" "\<not> plain_field ht"
  shows "insn_len buf' at = insn_len buf at \<and>
    same_outside (field_mask f) (rd_le buf' at (insn_len buf at)) (rd_le buf at (insn_len buf at)) \<and>
    (fits_width f (insn_len buf at) \<and> exact_form f \<and> representable f v \<longrightarrow>
       field_value f (rd_le buf' at (insn_len buf at)) = sint v)"
proof -
  define len where "len = insn_len buf at"
  obtain w where room: "at + len \<le> length buf" and w: "encode_form f (rd_le buf at len) v = Some w"
    and buf': "buf' = wr_le buf at len w"
    using encode_instruction [OF assms(1-4)] by (auto simp: len_def)
  have len: "len = 2 \<or> len = 4" by (simp add: len_def insn_len_cases)
  then have read: "rd_le buf' at len = take_bit (8 * len) w"
    using room by (auto simp: buf' rd_le_wr_le)
  have old: "take_bit (8 * len) (rd_le buf at len) = rd_le buf at len"
    using len by (intro bit_word_eqI) (auto simp: bit_take_bit_iff bit_rd_le)
  have same: "same_outside (field_mask f) (rd_le buf' at len) (rd_le buf at len)"
    using same_outside_take_bit [OF encode_form_outside [OF w], of "8 * len"] by (simp add: read old)
  then have "bit (rd_le buf' at len) 0 = bit (rd_le buf at len) 0"
    using field_mask_low [of f] by (simp add: same_outside_def)
  then have "bit (buf' ! at) 0 = bit (buf ! at) 0"
    using len by (auto simp: bit_rd_le simp del: bit_0)
  then have "insn_len buf' at = len"
    by (simp add: insn_len_bit len_def)
  moreover have "field_value f (rd_le buf' at len) = field_value f w" if "fits_width f len"
    unfolding read by (rule field_value_raw [OF raw_field_take_bit [OF that len]])
  ultimately show ?thesis
    using same encode_form_value [OF w] by (simp add: len_def)
qed

text \<open>C8. An instruction fixup that is encoded reads back. In the rewritten image the instruction
  has the same width, its opcode word agrees with the old one outside the field of its form, and
  for the forms that hold the whole value the field reads as the value that was encoded.\<close>

theorem encoded_instruction_reads_back:
  assumes "encode_pcrel_field buf at ht v = (Encoded, buf')"
    and "h_name ht = Some name" "map_of form_names (form_suffix name) = Some f" "\<not> plain_field ht"
  shows "insn_len buf' at = insn_len buf at \<and>
    same_outside (field_mask f) (rd_le buf' at (insn_len buf at)) (rd_le buf at (insn_len buf at)) \<and>
    (fits_width f (insn_len buf at) \<and> exact_form f \<and> representable f v \<longrightarrow>
       field_value f (rd_le buf' at (insn_len buf at)) = sint v)"
  by (rule instruction_reads_back [OF assms])

theorem encoded_instruction_reads_back_witness:
  "field_value R_24REL (rd_le [0x1d, 0xff, 0xfe, 0xff] 0 4) = - 4"
proof -
  let ?ht = "\<lparr>h_name = Some ''R_TRICORE_24REL'', h_dst_mask = 0xffffff00, h_bitpos = 8,
     h_pc_relative = True, h_type = 1\<rparr>"
  have "encode_pcrel_field [0x1d, 0, 0, 0] 0 ?ht (- 4) = (Encoded, [0x1d, 0xff, 0xfe, 0xff])"
    "map_of form_names (form_suffix ''R_TRICORE_24REL'') = Some R_24REL" "\<not> plain_field ?ht"
    "fits_width R_24REL (insn_len [0x1d, 0, 0, 0] 0)" "insn_len [0x1d, 0, 0, 0] 0 = 4"
    "sint (- 4 :: long) = - 4"
    by code_simp+
  then show ?thesis
    using encoded_instruction_reads_back [of "[0x1d, 0, 0, 0]" 0 ?ht "- 4" "[0x1d, 0xff, 0xfe, 0xff]"
        "''R_TRICORE_24REL''" R_24REL]
    by (simp add: form_class_defs del: field_value.simps)
qed

end
