(* ===== verification/Images.thy ===== *)
theory Images
  imports Reloc_Values
begin

text \<open>
  Many fixups on one image: what a single call of \<open>encode_pcrel_field\<close> establishes at its site
  survives the calls for the other sites, as long as the sites do not overlap.
\<close>

type_synonym site = "nat \<times> howto \<times> long"

definition span :: "byte list \<Rightarrow> site \<Rightarrow> nat set" where
  "span buf = (\<lambda>(at, ht, v). {at ..< at + site_width buf at ht})"

definition agree :: "nat set \<Rightarrow> byte list \<Rightarrow> byte list \<Rightarrow> bool" where
  "agree I a b \<longleftrightarrow> length a = length b \<and> (\<forall>i \<in> I. a ! i = b ! i)"

text \<open>What holds at a site of an image \<open>new\<close> that was \<open>old\<close> before: a plain field holds the low
  bytes of the value; an instruction has kept its width and all bits outside its field, and the
  field reads as the value.\<close>

definition site_holds :: "byte list \<Rightarrow> byte list \<Rightarrow> site \<Rightarrow> bool" where
  "site_holds old new = (\<lambda>(at, ht, v).
     case plain_width ht of
       Some w \<Rightarrow> at + w \<le> length new \<and> rd_le new at w = take_bit (8 * w) (ucast v)
     | None \<Rightarrow>
         (\<exists>f. map_of form_names (form_suffix (the (h_name ht))) = Some f \<and>
            at + insn_len old at \<le> length new \<and> insn_len new at = insn_len old at \<and>
            same_outside (field_mask f) (rd_le new at (insn_len old at)) (rd_le old at (insn_len old at)) \<and>
            (fits_width f (insn_len old at) \<and> exact_form f \<and> representable f v \<longrightarrow>
               field_value f (rd_le new at (insn_len old at)) = sint v)))"

lemma rd_le_cong:
  "(\<And>i. i < n \<Longrightarrow> a ! (at + i) = b ! (at + i)) \<Longrightarrow> rd_le a at n = rd_le b at n"
  unfolding rd_le_def by (intro fold_cong) auto

lemma insn_len_pos: "0 < insn_len buf at"
  by (simp add: insn_len_def)

lemma plain_width_cases: "plain_width ht = Some w \<Longrightarrow> w = 4 \<or> w = 2 \<or> w = 1"
  by (auto simp: plain_width_def Let_def split: option.splits if_splits)

lemma site_width_pos: "0 < site_width buf at ht"
  by (auto simp: site_width_def insn_len_pos dest: plain_width_cases split: option.splits)

lemma agree_span:
  assumes "agree (span a s) a b"
  shows "span b s = span a s"
proof -
  obtain at ht v where s: "s = (at, ht, v)" by (cases s)
  then have "at \<in> span a s" using site_width_pos [of a at ht] by (simp add: span_def)
  then have "insn_len b at = insn_len a at"
    using assms by (simp add: agree_def insn_len_def)
  then show ?thesis by (simp add: s span_def site_width_def split: option.split)
qed

lemma site_holds_cong:
  assumes "agree (span old s) old old'" "agree (span old s) new new'"
  shows "site_holds old new s = site_holds old' new' s"
proof -
  obtain at ht v where s: "s = (at, ht, v)" by (cases s)
  have at: "at \<in> span old s" using site_width_pos [of old at ht] by (simp add: s span_def)
  have len: "insn_len old' at = insn_len old at" "insn_len new' at = insn_len new at"
    using assms at by (simp_all add: agree_def insn_len_def)
  have "rd_le new at n = rd_le new' at n \<and> rd_le old at n = rd_le old' at n" if "n \<le> site_width old at ht" for n
    using assms that by (intro conjI rd_le_cong) (auto simp: agree_def s span_def)
  then show ?thesis
    using assms by (auto simp: s site_holds_def len agree_def site_width_def split: option.splits)
qed

subsection \<open>One site\<close>

lemma encode_site_holds:
  assumes "encode_pcrel_field b at ht v = (Encoded, b')"
  shows "site_holds b b' (at, ht, v)"
proof (cases "plain_width ht")
  case (Some w)
  then show ?thesis
    using assms plain_width_cases [OF Some]
    by (auto simp: encode_pcrel_field_cases site_holds_def site_width_def rd_le_wr_le split: option.splits if_splits)
next
  case None
  obtain name f where nf: "h_name ht = Some name" "map_of form_names (form_suffix name) = Some f"
    and room: "at + insn_len b at \<le> length b"
    using assms None by (auto simp: encode_pcrel_field_cases site_width_def split: option.splits if_splits)
  have "\<not> plain_field ht"
    using None nf by (auto simp: plain_width_def plain_field_def Let_def split: if_splits)
  then show ?thesis
    using instruction_reads_back [OF assms nf] encode_local [OF assms] None nf room
    by (simp add: site_holds_def)
qed

lemma site_holds_span: "site_holds b b' s \<Longrightarrow> span b' s = span b s"
  by (auto simp: site_holds_def span_def site_width_def split: option.splits)

subsection \<open>A sequence of sites\<close>

fun encode_all :: "site list \<Rightarrow> byte list \<Rightarrow> byte list option" where
  "encode_all [] b = Some b"
| "encode_all ((at, ht, v) # ss) b =
     (case encode_pcrel_field b at ht v of (Encoded, b') \<Rightarrow> encode_all ss b' | _ \<Rightarrow> None)"

definition apart :: "byte list \<Rightarrow> site list \<Rightarrow> bool" where
  "apart b ss \<longleftrightarrow> sorted_wrt (\<lambda>s s'. span b s \<inter> span b s' = {}) ss"

lemma agree_trans: "agree I a b \<Longrightarrow> agree I b c \<Longrightarrow> agree I a c"
  by (simp add: agree_def)

lemma agree_mono: "agree I a b \<Longrightarrow> J \<subseteq> I \<Longrightarrow> agree J a b"
  by (auto simp: agree_def)

lemma encode_agree: "encode_pcrel_field b at ht v = (rc, b') \<Longrightarrow> agree (- span b (at, ht, v)) b b'"
  using encode_local [of b at ht v rc b'] by (auto simp: agree_def span_def)

lemma apart_step:
  assumes "apart b ((at, ht, v) # ss)" "encode_pcrel_field b at ht v = (Encoded, b')"
  shows "apart b' ss" "\<And>s. s \<in> set ss \<Longrightarrow> agree (span b s) b b'"
    "\<And>s. s \<in> set ss \<Longrightarrow> span b' s = span b s" "span b' (at, ht, v) = span b (at, ht, v)"
proof -
  show ag: "\<And>s. s \<in> set ss \<Longrightarrow> agree (span b s) b b'"
    using assms(1) by (intro agree_mono [OF encode_agree [OF assms(2)]]) (auto simp: apart_def)
  then show eq: "\<And>s. s \<in> set ss \<Longrightarrow> span b' s = span b s"
    by (rule agree_span)
  then show "apart b' ss"
    using assms(1) by (auto simp: apart_def elim!: sorted_wrt_mono_rel [rotated])
  show "span b' (at, ht, v) = span b (at, ht, v)"
    by (rule site_holds_span [OF encode_site_holds [OF assms(2)]])
qed

lemma encode_all_agree:
  assumes "encode_all ss b = Some c" "apart b ss" "\<And>s. s \<in> set ss \<Longrightarrow> I \<inter> span b s = {}"
  shows "agree I b c"
  using assms
proof (induction ss b rule: encode_all.induct)
  case (2 at ht v ss b)
  obtain b' where enc: "encode_pcrel_field b at ht v = (Encoded, b')" and rest: "encode_all ss b' = Some c"
    using "2.prems"(1) by (auto split: prod.splits encode_rc.splits)
  have "agree I b b'"
    using "2.prems"(3) [of "(at, ht, v)"] by (intro agree_mono [OF encode_agree [OF enc]]) auto
  moreover have "agree I b' c"
    using "2.IH" [OF enc [symmetric] refl] rest apart_step [OF "2.prems"(2) enc] "2.prems"(3) by simp
  ultimately show ?case by (rule agree_trans)
qed (simp add: agree_def)

lemma encode_all_holds:
  assumes "encode_all ss b = Some c" "apart b ss" "s \<in> set ss"
  shows "site_holds b c s"
  using assms
proof (induction ss b rule: encode_all.induct)
  case (2 at ht v ss b)
  obtain b' where enc: "encode_pcrel_field b at ht v = (Encoded, b')" and rest: "encode_all ss b' = Some c"
    using "2.prems"(1) by (auto split: prod.splits encode_rc.splits)
  note step = apart_step [OF "2.prems"(2) enc]
  show ?case
  proof (cases "s \<in> set ss")
    case True
    then have "site_holds b' c s"
      using "2.IH" [OF enc [symmetric] refl] rest step(1) by simp
    then show ?thesis
      using site_holds_cong [OF step(2) [OF True], of c c] by (simp add: agree_def)
  next
    case False
    then have s: "s = (at, ht, v)" using "2.prems"(3) by simp
    have "agree (span b s) b' c"
      using "2.prems"(2) step(3) by (intro encode_all_agree [OF rest step(1)]) (auto simp: apart_def s)
    then show ?thesis
      using encode_site_holds [OF enc] site_holds_cong [of b s b b' c] by (simp add: s agree_def)
  qed
qed simp

end
