(* ===== verification/Fixups.thy ===== *)
theory Fixups
  imports Extract Images
begin

text \<open>
  Relaxation and fixups: \<open>chain_head\<close>, \<open>chain_terminal\<close>, \<open>relax_branches\<close>,
  \<open>apply_text_fixups\<close> and \<open>nyxstone_glue_resolve_text_fixups\<close> of
  \<^verbatim>\<open>src/src/nyxstone_glue.c\<close>. gas's relaxer, symbol resolution, \<open>md_convert_frag\<close> and
  \<open>md_apply_fix\<close> are operations of the parameter \<open>g\<close>.
\<close>

subsection \<open>Relax chains\<close>

definition MD_RELAX_TABLE_N :: nat where
  "MD_RELAX_TABLE_N = 37"

definition chain_pred :: "('y, 'x) gas_ops \<Rightarrow> u32 \<Rightarrow> u32 option" where
  "chain_pred g sub = find (\<lambda>i. gas_rlx_more g i = sub) (map of_nat [1..<MD_RELAX_TABLE_N])"

fun chain_head_loop :: "('y, 'x) gas_ops \<Rightarrow> nat \<Rightarrow> u32 \<Rightarrow> u32" where
  "chain_head_loop g 0 sub = sub"
| "chain_head_loop g (Suc guard) sub =
     (case chain_pred g sub of None \<Rightarrow> sub | Some pred \<Rightarrow> chain_head_loop g guard pred)"

definition chain_head :: "('y, 'x) gas_ops \<Rightarrow> u32 \<Rightarrow> u32" where
  "chain_head g sub = chain_head_loop g MD_RELAX_TABLE_N sub"

fun chain_terminal_loop :: "('y, 'x) gas_ops \<Rightarrow> nat \<Rightarrow> u32 \<Rightarrow> u32" where
  "chain_terminal_loop g 0 sub = sub"
| "chain_terminal_loop g (Suc guard) sub =
     (let next_sub = gas_rlx_more g sub
      in if next_sub = 0 then sub else chain_terminal_loop g guard next_sub)"

definition chain_terminal :: "('y, 'x) gas_ops \<Rightarrow> u32 \<Rightarrow> u32" where
  "chain_terminal g sub = chain_terminal_loop g MD_RELAX_TABLE_N sub"

subsection \<open>\<open>relax_branches\<close>\<close>

definition settle_frag :: "('y, 'x) gas_ops \<Rightarrow> nat \<Rightarrow> ('y, 'x) segment \<Rightarrow> ('y, 'x) segment" where
  "settle_frag g i s =
     update_frag i (\<lambda>fr.
       let fr1 = (if i \<in> set (tails s) \<and> i = frag_now s
                  then fr\<lparr>fr_fix := gas_now_fix g (ext s)\<rparr> else fr)
       in if fr_type fr1 = Rs_zero then fr1\<lparr>fr_type := Rs_fill, fr_var := 0\<rparr> else fr1) s"

definition seed_subtype :: "('y, 'x) gas_ops \<Rightarrow> nat \<Rightarrow> ('y, 'x) segment \<Rightarrow> ('y, 'x) segment" where
  "seed_subtype g i s =
     update_frag i (\<lambda>fr.
       case fr_symbol fr of
         Some y \<Rightarrow>
           if fr_type fr = Rs_machine_dependent then
             fr\<lparr>fr_subtype := (if gas_in_text g y (ext s) then chain_head g (fr_subtype fr)
                              else chain_terminal g (fr_subtype fr))\<rparr>
           else fr
       | None \<Rightarrow> fr) s"

function relax_loop :: "('y, 'x) gas_ops \<Rightarrow> nat \<Rightarrow> ('y, 'x) segment \<Rightarrow> ('y, 'x) segment" where
  "relax_loop g pass s =
     (let (changed, s') = gas_relax_segment g pass s
      in if changed \<and> pass < 32 then relax_loop g (Suc pass) s' else s')"
  by pat_completeness auto

termination
  by (relation "measure (\<lambda>(g, pass, s). 32 - pass)") auto

declare relax_loop.simps [simp del]

definition relax_branches :: "('y, 'x) gas_ops \<Rightarrow> ('y, 'x) segment \<Rightarrow> ('y, 'x) segment" where
  "relax_branches g s =
     (if tails s = [] then s
      else let s1 = fold (settle_frag g) [0..<length (frags s)] s;
               s2 = layout g s1;
               s3 = fold (seed_subtype g) [0..<length (frags s2)] s2
           in relax_loop g 0 s3)"

subsection \<open>\<open>apply_text_fixups\<close>\<close>

text \<open>The first loop: references to undefined symbols go to \<open>md_apply_fix\<close>.\<close>

definition record_addend ::
    "('y, 'x) gas_ops \<Rightarrow> nat \<Rightarrow> nat \<times> ('y, 'x) segment \<Rightarrow> nat \<times> ('y, 'x) segment" where
  "record_addend g j = (\<lambda>(unres, s).
     case fx_addsy (fixups s ! j) of
       None \<Rightarrow> (unres, s)
     | Some y \<Rightarrow>
         let s1 = gas_resolve_value g y s
         in if gas_is_defined g y (ext s1) then (unres, s1)
            else let fx = fixups s1 ! j;
                     val0 = gas_value g y s1 + fx_offset fx;
                     val = (if fx_pcrel fx then val0 - gas_pcrel_from g fx s1 else val0);
                     s2 = gas_md_apply_fix g j val s1;
                     fx2 = fixups s2 ! j
                 in (if fx_addsy fx2 \<noteq> None \<and> \<not> fx_done fx2 then Suc unres else unres, s2))"

text \<open>The value of a reference to a defined symbol.\<close>

definition fixup_value ::
    "('y, 'x) gas_ops \<Rightarrow> u64 \<Rightarrow> ('y, 'x) segment \<Rightarrow> 'y fixup \<Rightarrow> 'y \<Rightarrow> howto \<Rightarrow> long" where
  "fixup_value g base s fx y ht =
     (let sym_abs = (if gas_in_text g y (ext s) then base + gas_value g y s else gas_value g y s)
      in if h_pc_relative ht then (sym_abs + fx_offset fx) - (base + gas_pcrel_from g fx s)
         else sym_abs + fx_offset fx)"

definition set_unsupported :: "string \<Rightarrow> ('y, 'x) segment \<Rightarrow> ('y, 'x) segment" where
  "set_unsupported name s = s\<lparr>unsupported_reloc := Some name\<rparr>"

definition range_message :: "string \<Rightarrow> howto \<Rightarrow> string" where
  "range_message target ht = ''displacement to '' @ [CHR 0x27] @ target @ [CHR 0x27] @ '' out of range for '' @
     (case h_name ht of None \<Rightarrow> ''branch'' | Some n \<Rightarrow> n)"

text \<open>The second loop, on the image of the section.\<close>

definition encode_fixup ::
    "('y, 'x) gas_ops \<Rightarrow> u64 \<Rightarrow> 'y fixup \<Rightarrow> byte list \<times> ('y, 'x) segment \<Rightarrow> byte list \<times> ('y, 'x) segment" where
  "encode_fixup g base fx = (\<lambda>(buf, s).
     case fx_addsy fx of
       None \<Rightarrow> (buf, s)
     | Some y \<Rightarrow>
         if \<not> gas_is_defined g y (ext s) then (buf, s)
         else case gas_howto g (fx_r_type fx) of
           None \<Rightarrow> (buf, set_unsupported ''<no howto>'' s)
         | Some ht \<Rightarrow>
             (case encode_pcrel_field buf (unat (fixup_address s fx)) ht (fixup_value g base s fx y ht) of
                (Encoded, buf') \<Rightarrow> (buf', s)
              | (Not_encoded, buf') \<Rightarrow>
                  (buf', set_unsupported (case h_name ht of None \<Rightarrow> ''<unknown>'' | Some n \<Rightarrow> n) s)
              | (Illegal, buf') \<Rightarrow> (buf', as_bad g (range_message (gas_name g y) ht) s)))"

text \<open>The third: the image goes back into the fixed parts of the frags.\<close>

definition copy_back_frag ::
    "('y, 'x) gas_ops \<Rightarrow> byte list \<Rightarrow> nat \<Rightarrow> u64 \<times> ('y, 'x) segment \<Rightarrow> u64 \<times> ('y, 'x) segment" where
  "copy_back_frag g buf i = (\<lambda>(addr, s).
     let n = frag_fix_size g s i
     in (addr + (n + frag_fill_size (frags s ! i)),
         if n \<noteq> 0 \<and> addr + n \<le> of_nat (length buf)
         then update_frag i (\<lambda>fr. fr\<lparr>fr_literal :=
                overwrite (fr_literal fr) 0 (take (unat n) (drop (unat addr) buf))\<rparr>) s
         else s))"

definition copy_back :: "('y, 'x) gas_ops \<Rightarrow> byte list \<Rightarrow> ('y, 'x) segment \<Rightarrow> ('y, 'x) segment" where
  "copy_back g buf s = snd (fold (copy_back_frag g buf) [0..<length (frags s)] (0, s))"

definition encode_image ::
    "('y, 'x) gas_ops \<Rightarrow> u64 \<Rightarrow> byte list \<Rightarrow> ('y, 'x) segment \<Rightarrow> byte list \<times> ('y, 'x) segment" where
  "encode_image g base buf s = fold (encode_fixup g base) (fixups s) (buf, s)"

definition apply_text_fixups ::
    "('y, 'x) gas_ops \<Rightarrow> u64 \<Rightarrow> ('y, 'x) segment \<Rightarrow> nat \<times> ('y, 'x) segment" where
  "apply_text_fixups g base s0 =
     (let (unres, s) = fold (record_addend g) [0..<length (fixups s0)] (0, s0\<lparr>unsupported_reloc := None\<rparr>);
          size = fst (extract_call g None s)
      in if size = 0 \<or> \<not> c_malloc g size then (unres, s)
         else let (buf, s') = encode_image g base (fetch (extract_call g) 0 s) s
              in (unres, copy_back g buf s'))"

subsection \<open>\<open>nyxstone_glue_resolve_text_fixups\<close>\<close>

definition resolve_target :: "('y, 'x) gas_ops \<Rightarrow> nat \<Rightarrow> ('y, 'x) segment \<Rightarrow> ('y, 'x) segment" where
  "resolve_target g i s =
     (case fr_symbol (frags s ! i) of
        Some y \<Rightarrow> if fr_type (frags s ! i) = Rs_machine_dependent then gas_resolve_value g y s else s
      | None \<Rightarrow> s)"

definition convert_frag :: "('y, 'x) gas_ops \<Rightarrow> nat \<Rightarrow> ('y, 'x) segment \<Rightarrow> ('y, 'x) segment" where
  "convert_frag g i s =
     (if fr_type (frags s ! i) = Rs_machine_dependent then gas_md_convert_frag g i s else s)"

definition resolve_text_fixups ::
    "('y, 'x) gas_ops \<Rightarrow> u64 \<Rightarrow> ('y, 'x) segment \<Rightarrow> nat \<times> ('y, 'x) segment" where
  "resolve_text_fixups g base s0 =
     (let s1 = relax_branches g s0;
          s2 = fold (resolve_target g) [0..<length (frags s1)] s1;
          s3 = fold (convert_frag g) [0..<length (frags s2)] s2;
          s4 = layout g (finalize_align_org g s3)
      in apply_text_fixups g base s4)"

subsection \<open>The relax chains\<close>

text \<open>What gas's table promises: a longer state stands behind a shorter one, within the table.\<close>

definition chains_grow :: "('y, 'x) gas_ops \<Rightarrow> bool" where
  "chains_grow g \<longleftrightarrow>
     (\<forall>i. gas_rlx_more g i \<noteq> 0 \<longrightarrow> unat i < unat (gas_rlx_more g i) \<and> unat (gas_rlx_more g i) < MD_RELAX_TABLE_N)"

definition longer :: "('y, 'x) gas_ops \<Rightarrow> u32 \<Rightarrow> u32 \<Rightarrow> bool" where
  "longer g a b \<longleftrightarrow> b \<noteq> 0 \<and> gas_rlx_more g a = b"

lemma table_index: "p \<in> set (map of_nat [1..<MD_RELAX_TABLE_N]) \<longleftrightarrow> p \<noteq> 0 \<and> unat p < MD_RELAX_TABLE_N"
  for p :: u32
proof
  assume "p \<in> set (map of_nat [1..<MD_RELAX_TABLE_N])"
  then obtain k where "p = of_nat k" "1 \<le> k" "k < 37"
    by (auto simp: MD_RELAX_TABLE_N_def)
  moreover from this have "unat p = k"
    by (simp add: unsigned_of_nat take_bit_nat_eq_self)
  ultimately show "p \<noteq> 0 \<and> unat p < MD_RELAX_TABLE_N"
    by (auto simp: MD_RELAX_TABLE_N_def)
next
  assume "p \<noteq> 0 \<and> unat p < MD_RELAX_TABLE_N"
  then show "p \<in> set (map of_nat [1..<MD_RELAX_TABLE_N])"
    by (auto simp: unat_gt_0 Suc_le_eq intro!: image_eqI [of _ _ "unat p"])
qed

lemma chain_pred_Some:
  assumes "chain_pred g sub = Some p"
  shows "gas_rlx_more g p = sub" "p \<noteq> 0"
proof -
  have "p \<in> set (map of_nat [1..<MD_RELAX_TABLE_N])" "gas_rlx_more g p = sub"
    using assms unfolding chain_pred_def find_Some_iff by (metis nth_mem)+
  then show "gas_rlx_more g p = sub" "p \<noteq> 0"
    unfolding table_index by auto
qed

lemma chain_pred_None:
  "chain_pred g sub = None \<Longrightarrow> gas_rlx_more g p = sub \<Longrightarrow> unat p < MD_RELAX_TABLE_N \<Longrightarrow> p = 0"
  using table_index [of p] by (auto simp: chain_pred_def find_None_iff)

lemma terminal_loop:
  assumes "chains_grow g" "MD_RELAX_TABLE_N \<le> unat sub + guard"
  shows "gas_rlx_more g (chain_terminal_loop g guard sub) = 0 \<and>
    (longer g)\<^sup>*\<^sup>* sub (chain_terminal_loop g guard sub)"
  using assms(2)
proof (induction guard arbitrary: sub)
  case 0
  then show ?case using assms(1) by (fastforce simp: chains_grow_def)
next
  case (Suc guard)
  show ?case
  proof (cases "gas_rlx_more g sub = 0")
    case False
    then have "longer g sub (gas_rlx_more g sub)" "unat sub < unat (gas_rlx_more g sub)"
      using assms(1) by (auto simp: longer_def chains_grow_def)
    then show ?thesis
      using Suc.IH [of "gas_rlx_more g sub"] Suc.prems False
      by (auto simp: Let_def intro: converse_rtranclp_into_rtranclp)
  qed (simp add: Let_def)
qed

lemma head_loop:
  assumes "chains_grow g" "unat sub \<le> guard" "sub \<noteq> 0"
  shows "chain_pred g (chain_head_loop g guard sub) = None \<and>
    (longer g)\<^sup>*\<^sup>* (chain_head_loop g guard sub) sub"
  using assms(2,3)
proof (induction guard arbitrary: sub)
  case 0
  then show ?case by (simp add: unsigned_eq_0_iff)
next
  case (Suc guard)
  show ?case
  proof (cases "chain_pred g sub")
    case (Some p)
    then have p: "gas_rlx_more g p = sub" "p \<noteq> 0" using chain_pred_Some by blast+
    then have "longer g p sub" "unat p < unat sub"
      using assms(1) Suc.prems by (auto simp: longer_def chains_grow_def)
    then show ?thesis
      using Suc.IH [of p] Suc.prems Some p by (auto intro: rtranclp.rtrancl_into_rtrancl)
  qed simp
qed

text \<open>C27. The two walks over gas's relax table end within 37 steps. \<open>chain_terminal\<close> ends at an encoding
  of the chain of its subtype that has no longer one, from any subtype. \<open>chain_head\<close>, from a subtype other than 0,
  ends at an encoding of the same chain that is not the longer form of any of the entries 1 to 36. The search
  leaves out entry 0, so that end is the shortest encoding of the chain exactly when it is not the longer form
  of entry 0.\<close>

theorem relax_chain_ends:
  assumes "chains_grow g" "unat sub < MD_RELAX_TABLE_N"
  shows "gas_rlx_more g (chain_terminal g sub) = 0 \<and> (longer g)\<^sup>*\<^sup>* sub (chain_terminal g sub) \<and>
    (sub \<noteq> 0 \<longrightarrow> (longer g)\<^sup>*\<^sup>* (chain_head g sub) sub \<and>
      \<not> (\<exists>p. 1 \<le> unat p \<and> unat p < MD_RELAX_TABLE_N \<and> gas_rlx_more g p = chain_head g sub) \<and>
      (\<not> (\<exists>p. unat p < MD_RELAX_TABLE_N \<and> gas_rlx_more g p = chain_head g sub) \<longleftrightarrow>
        gas_rlx_more g 0 \<noteq> chain_head g sub))"
proof -
  have "unat (0 :: u32) < MD_RELAX_TABLE_N" by (simp add: MD_RELAX_TABLE_N_def)
  moreover have "p = 0" if "sub \<noteq> 0" "unat p < MD_RELAX_TABLE_N" "gas_rlx_more g p = chain_head g sub" for p
    using head_loop [OF assms(1), of sub MD_RELAX_TABLE_N] assms(2) that chain_pred_None [of g "chain_head g sub" p]
    by (simp add: chain_head_def)
  moreover have "(longer g)\<^sup>*\<^sup>* (chain_head g sub) sub" if "sub \<noteq> 0"
    using head_loop [OF assms(1), of sub MD_RELAX_TABLE_N] assms(2) that by (simp add: chain_head_def)
  moreover have "\<not> 1 \<le> unat (0 :: u32)" by simp
  ultimately show ?thesis
    using terminal_loop [OF assms(1) le_add2, of sub] unfolding chain_terminal_def by blast
qed

text \<open>The \<open>rlx_more\<close> column of the \<open>md_relax_table\<close> in the prebuilt \<^verbatim>\<open>tc-tricore.o\<close>. Its entry 0 is
  a branch form like the others, two bytes long with a reach of 252 bytes, and entry 1 its longer form: for the
  chain 0, 1, 2 \<open>chain_head\<close> ends at 1. The chain of \<open>j\<close>, 3 and 4, is not affected.\<close>

definition shipped_rlx_more :: "nat list" where
  "shipped_rlx_more = [1, 2, 0, 4, 0, 6, 7, 0, 9, 10, 0, 12, 13, 0, 15, 16, 0, 18, 19, 0, 21, 22, 0, 24, 0, 26, 0, 28, 0,
     30, 0, 32, 0, 34, 0, 36, 0]"

definition shipped_table_gas :: "(nat, int) gas_ops" where
  "shipped_table_gas = sample_gas\<lparr>gas_rlx_more := (\<lambda>i. if unat i < 37 then of_nat (shipped_rlx_more ! unat i) else 0)\<rparr>"

lemma shipped_table_grows: "chains_grow shipped_table_gas"
proof -
  have "\<forall>k < 37. shipped_rlx_more ! k < 37 \<and> (shipped_rlx_more ! k \<noteq> 0 \<longrightarrow> k < shipped_rlx_more ! k)"
    by (simp add: shipped_rlx_more_def All_less_Suc numeral_eq_Suc)
  then show ?thesis
    by (auto simp: chains_grow_def shipped_table_gas_def MD_RELAX_TABLE_N_def unsigned_of_nat take_bit_nat_eq_self)
qed

theorem relax_chain_ends_witness:
  "chain_head shipped_table_gas 4 = 3 \<and> \<not> (\<exists>p. unat p < MD_RELAX_TABLE_N \<and> gas_rlx_more shipped_table_gas p = 3) \<and>
   chain_head shipped_table_gas 2 = 1 \<and> (\<exists>p. unat p < MD_RELAX_TABLE_N \<and> gas_rlx_more shipped_table_gas p = 1)"
proof -
  have head: "chain_head shipped_table_gas 4 = 3" "chain_head shipped_table_gas 2 = 1"
    "gas_rlx_more shipped_table_gas 0 = 1"
    by code_simp+
  have "unat (4 :: u32) < MD_RELAX_TABLE_N" "unat (2 :: u32) < MD_RELAX_TABLE_N" by (simp_all add: MD_RELAX_TABLE_N_def)
  from this [THEN relax_chain_ends [OF shipped_table_grows]] show ?thesis
    unfolding head by simp
qed

subsection \<open>The references that are encoded\<close>

text \<open>The site of a fixup whose symbol is defined and whose relocation has a \<open>howto\<close>.\<close>

definition fixup_site :: "('y, 'x) gas_ops \<Rightarrow> u64 \<Rightarrow> ('y, 'x) segment \<Rightarrow> 'y fixup \<Rightarrow> site option" where
  "fixup_site g base s fx =
     (case fx_addsy fx of
        Some y \<Rightarrow>
          if gas_is_defined g y (ext s) then
            map_option (\<lambda>ht. (unat (fixup_address s fx), ht, fixup_value g base s fx y ht)) (gas_howto g (fx_r_type fx))
          else None
      | None \<Rightarrow> None)"

definition sites :: "('y, 'x) gas_ops \<Rightarrow> u64 \<Rightarrow> ('y, 'x) segment \<Rightarrow> site list" where
  "sites g base s = List.map_filter (fixup_site g base s) (fixups s)"

text \<open>Reporting an error, or noting an unsupported relocation, changes nothing that gas's symbol
  queries read.\<close>

definition same_symbols :: "('y, 'x) gas_ops \<Rightarrow> ('y, 'x) segment \<Rightarrow> ('y, 'x) segment \<Rightarrow> bool" where
  "same_symbols g s t \<longleftrightarrow> same_but g {} s t \<and>
     (\<forall>y. gas_is_defined g y (ext t) = gas_is_defined g y (ext s) \<and>
          gas_in_text g y (ext t) = gas_in_text g y (ext s) \<and> gas_value g y t = gas_value g y s) \<and>
     (\<forall>fx. gas_pcrel_from g fx t = gas_pcrel_from g fx s)"

definition errors_keep_symbols :: "('y, 'x) gas_ops \<Rightarrow> bool" where
  "errors_keep_symbols g \<longleftrightarrow>
     (\<forall>s msg. same_symbols g s (as_bad g msg s) \<and> same_symbols g s (set_unsupported msg s))"

lemma same_symbols_refl [simp]: "same_symbols g s s"
  by (simp add: same_symbols_def)

lemma same_symbols_trans: "same_symbols g s t \<Longrightarrow> same_symbols g t u \<Longrightarrow> same_symbols g s u"
  using same_but_trans [of g "{}" s t "{}" u] by (simp add: same_symbols_def)

lemma same_symbols_frags: "same_symbols g s t \<Longrightarrow> frags t = frags s"
  by (auto simp: same_symbols_def same_but_def intro: nth_equalityI)

lemma same_symbols_site:
  assumes "same_symbols g s t"
  shows "fixup_site g base t fx = fixup_site g base s fx"
proof -
  have sym: "gas_is_defined g y (ext t) = gas_is_defined g y (ext s)"
    "gas_in_text g y (ext t) = gas_in_text g y (ext s)" "gas_value g y t = gas_value g y s"
    "gas_pcrel_from g fx t = gas_pcrel_from g fx s" for y fx
    using assms by (simp_all add: same_symbols_def)
  have "fixup_value g base t fx y ht = fixup_value g base s fx y ht" "fixup_address t fx = fixup_address s fx"
    for fx y ht
    by (simp_all add: fixup_value_def Let_def fixup_address_def sym same_symbols_frags [OF assms])
  then show ?thesis
    by (simp add: fixup_site_def sym split: option.split)
qed

lemma encode_fixup_symbols:
  "errors_keep_symbols g \<Longrightarrow> same_symbols g s (snd (encode_fixup g base fx (buf, s)))"
  by (auto simp: encode_fixup_def errors_keep_symbols_def split: option.split prod.split encode_rc.split)

definition clean_errors :: "('y, 'x) gas_ops \<Rightarrow> ('y, 'x) segment \<Rightarrow> ('y, 'x) segment \<Rightarrow> bool" where
  "clean_errors g s t \<longleftrightarrow> unsupported_reloc t = None \<and> errors g t = errors g s"

lemma encode_fixup_errors:
  assumes "counts_errors g"
  shows "errors g s \<le> errors g (snd (encode_fixup g base fx (buf, s)))"
    and "unsupported_reloc s \<noteq> None \<Longrightarrow> unsupported_reloc (snd (encode_fixup g base fx (buf, s))) \<noteq> None"
  using assms
  by (auto simp: encode_fixup_def errors_def counts_errors_def as_bad_def set_unsupported_def
      split: option.split prod.split encode_rc.split)

lemma encode_fixup_clean:
  assumes "counts_errors g" "clean_errors g s (snd (encode_fixup g base fx (buf, s)))"
  shows "case fixup_site g base s fx of
      None \<Rightarrow> encode_fixup g base fx (buf, s) = (buf, s)
    | Some (at, ht, v) \<Rightarrow> \<exists>buf'. encode_pcrel_field buf at ht v = (Encoded, buf') \<and>
        encode_fixup g base fx (buf, s) = (buf', s)"
  using assms
  by (auto simp: encode_fixup_def fixup_site_def errors_def counts_errors_def as_bad_def set_unsupported_def
      clean_errors_def split: option.splits prod.splits encode_rc.splits if_splits)

lemma fold_errors:
  assumes "counts_errors g"
  shows "errors g s \<le> errors g (snd (fold (encode_fixup g base) fs (buf, s))) \<and>
    (unsupported_reloc s \<noteq> None \<longrightarrow> unsupported_reloc (snd (fold (encode_fixup g base) fs (buf, s))) \<noteq> None)"
proof (induction fs arbitrary: buf s)
  case (Cons fx fs)
  obtain buf1 s1 where step: "encode_fixup g base fx (buf, s) = (buf1, s1)" by fastforce
  show ?case
    using encode_fixup_errors [OF assms, of s base fx buf] Cons.IH [of s1 buf1] unfolding fold_simps step
    by (metis order_trans snd_conv)
qed simp

lemma fold_symbols:
  assumes "errors_keep_symbols g"
  shows "same_symbols g (snd bs) (snd (fold (encode_fixup g base) fs bs))"
proof (induction fs arbitrary: bs)
  case (Cons fx fs)
  then show ?case
    using same_symbols_trans [OF encode_fixup_symbols [OF assms, of "snd bs" base fx "fst bs"]] by simp
qed simp

lemma encode_image_clean:
  assumes "counts_errors g" "errors_keep_symbols g"
    and "clean_errors g s (snd (fold (encode_fixup g base) fs (buf, s)))"
  shows "encode_all (List.map_filter (fixup_site g base s) fs) buf = Some (fst (fold (encode_fixup g base) fs (buf, s)))
    \<and> snd (fold (encode_fixup g base) fs (buf, s)) = s"
  using assms(3)
proof (induction fs arbitrary: buf)
  case (Cons fx fs)
  obtain buf1 s1 where step: "encode_fixup g base fx (buf, s) = (buf1, s1)" by fastforce
  have "clean_errors g s s1"
    using Cons.prems fold_errors [OF assms(1), of s1 base fs buf1]
      encode_fixup_errors(1) [OF assms(1), of s base fx buf]
    by (auto simp: clean_errors_def step)
  then have "case fixup_site g base s fx of
      None \<Rightarrow> (buf1, s1) = (buf, s)
    | Some (at, ht, v) \<Rightarrow> encode_pcrel_field buf at ht v = (Encoded, buf1) \<and> s1 = s"
    using encode_fixup_clean [OF assms(1), of s base fx buf]
    by (auto simp: step split: option.splits prod.splits)
  then show ?case
    using Cons.IH [of buf1] Cons.prems
    by (auto simp: step map_filter_simps split: option.splits prod.splits)
qed (simp add: map_filter_simps)

end
