(* ===== verification/Write_Back.thy ===== *)
theory Write_Back
  imports Fixups
begin

text \<open>
  The end of the fixup pass: the image of the section, with every reference to a defined symbol
  encoded, goes back into the frags, so that extraction returns it; and what the pass promises of
  the bytes.
\<close>

subsection \<open>Copying the image back\<close>

definition with_literal :: "byte list \<Rightarrow> nat \<Rightarrow> nat \<Rightarrow> 'y frag \<Rightarrow> 'y frag" where
  "with_literal buf off n fr = fr\<lparr>fr_literal := overwrite (fr_literal fr) 0 (take n (drop off buf))\<rparr>"

lemma with_literal_simps [simp]:
  "fr_fix (with_literal buf off n fr) = fr_fix fr" "fr_var (with_literal buf off n fr) = fr_var fr"
  "fr_offset (with_literal buf off n fr) = fr_offset fr" "fr_type (with_literal buf off n fr) = fr_type fr"
  "fr_address (with_literal buf off n fr) = fr_address fr"
  "frag_fill_size (with_literal buf off n fr) = frag_fill_size fr"
  "with_literal buf off 0 fr = fr"
  by (simp_all add: with_literal_def frag_fill_size_def overwrite_def)

lemma copy_back_sweep:
  assumes "extractable g s" "length buf = length (section_bytes g s)" "k \<le> length (frags s)"
  shows "fold (copy_back_frag g buf) [0..<k] (0, s) =
    (prefix_size g s k,
     s\<lparr>frags := map (\<lambda>i. if i < k then with_literal buf (offset_of g s i) (unat (frag_fix_size g s i)) (frags s ! i)
                         else frags s ! i) [0..<length (frags s)]\<rparr>)"
  using assms(3)
proof (induction k)
  case 0
  then show ?case by (simp add: map_nth)
next
  case (Suc k)
  define F where "F k = map (\<lambda>i. if i < k
      then with_literal buf (offset_of g s i) (unat (frag_fix_size g s i)) (frags s ! i)
      else frags s ! i) [0..<length (frags s)]" for k
  have k: "k < length (frags s)" using Suc.prems by simp
  have here: "F k ! k = frags s ! k" "length (F k) = length (frags s)" using k by (simp_all add: F_def)
  have n: "frag_fix_size g (s\<lparr>frags := F k\<rparr>) k = frag_fix_size g s k"
    using here by (auto simp: frag_fix_size_def)
  have "prefix_size g s k + frag_fix_size g s k \<le> of_nat (length buf)"
  proof -
    have "offset_of g s k + unat (frag_fix_size g s k) \<le> length buf"
      using offset_mono [of "Suc k" "length (frags s)" g s] k assms(2)
        length_frag_bytes [OF extractable_frag [OF assms(1) k]] by (simp add: offset_Suc offset_end)
    moreover have "length buf < 2 ^ 64" using assms(1,2) by (simp add: extractable_def)
    moreover have "prefix_size g s k + frag_fix_size g s k = of_nat (offset_of g s k + unat (frag_fix_size g s k))"
      using prefix_offset(1) [OF assms(1), of k] k by simp
    ultimately show ?thesis
      by (simp only: word_le_nat_alt) (simp del: of_nat_add)
  qed
  then have "copy_back_frag g buf k (prefix_size g s k, s\<lparr>frags := F k\<rparr>) =
      (prefix_size g s (Suc k),
       s\<lparr>frags := (F k)[k := with_literal buf (offset_of g s k) (unat (frag_fix_size g s k)) (frags s ! k)]\<rparr>)"
    using prefix_offset(2) [OF assms(1), of k] k here n list_update_id [of "F k" k]
    by (auto simp: copy_back_frag_def Let_def update_frag_def prefix_size_Suc frag_size_def with_literal_def
        overwrite_def)
  moreover have "(F k)[k := with_literal buf (offset_of g s k) (unat (frag_fix_size g s k)) (frags s ! k)] = F (Suc k)"
    using k by (intro nth_equalityI) (auto simp: F_def nth_list_update)
  ultimately show ?case using Suc by (simp add: F_def)
qed

lemma copy_back_frags:
  assumes "extractable g s" "length buf = length (section_bytes g s)"
  shows "copy_back g buf s =
    s\<lparr>frags := map (\<lambda>i. with_literal buf (offset_of g s i) (unat (frag_fix_size g s i)) (frags s ! i))
       [0..<length (frags s)]\<rparr>"
proof -
  have "map (\<lambda>i. if i < length (frags s) then with_literal buf (offset_of g s i) (unat (frag_fix_size g s i)) (frags s ! i)
      else frags s ! i) [0..<length (frags s)] =
    map (\<lambda>i. with_literal buf (offset_of g s i) (unat (frag_fix_size g s i)) (frags s ! i)) [0..<length (frags s)]"
    by (intro map_cong) auto
  then show ?thesis
    using copy_back_sweep [OF assms order_refl] by (simp add: copy_back_def)
qed

subsection \<open>The section after it\<close>

text \<open>The positions of the fixed parts, and the sections whose fill patterns stand behind them (the
  live tail, whose fixed part \<open>fr_fix\<close> does not measure, has no fill).\<close>

definition fixed_positions :: "('y, 'x) gas_ops \<Rightarrow> ('y, 'x) segment \<Rightarrow> nat set" where
  "fixed_positions g s =
     (\<Union>i < length (frags s). {offset_of g s i ..< offset_of g s i + unat (frag_fix_size g s i)})"

definition fills_behind :: "('y, 'x) gas_ops \<Rightarrow> ('y, 'x) segment \<Rightarrow> bool" where
  "fills_behind g s \<longleftrightarrow>
     list_all (\<lambda>i. frag_fill_size (frags s ! i) \<noteq> 0 \<longrightarrow> unat (frag_fix_size g s i) \<le> unat (fr_fix (frags s ! i)))
       [0..<length (frags s)]"

lemma fill_position_free:
  assumes "i < length (frags s)" "unat (frag_fix_size g s i) \<le> j" "j < length (frag_bytes g s i)"
    and "\<And>k. k < length (frags s) \<Longrightarrow> unat (frag_fix_size g s k) \<le> length (frag_bytes g s k)"
  shows "offset_of g s i + j \<notin> fixed_positions g s"
proof
  assume "offset_of g s i + j \<in> fixed_positions g s"
  then obtain k where k: "k < length (frags s)" "offset_of g s k \<le> offset_of g s i + j"
    "offset_of g s i + j < offset_of g s k + unat (frag_fix_size g s k)"
    by (auto simp: fixed_positions_def)
  then have "k \<noteq> i" using assms(2) by auto
  then consider "Suc i \<le> k" | "Suc k \<le> i" by linarith
  then show False
    using offset_mono [of "Suc i" k g s] offset_mono [of "Suc k" i g s] k assms(3) assms(4) [OF k(1)]
    by cases (auto simp: offset_Suc)
qed

lemma concat_slices:
  assumes "\<And>i. i < n \<Longrightarrow> take (len i) (drop (sum_list (map len [0..<i])) xs) = ys i"
    and "sum_list (map len [0..<n]) = length xs"
  shows "concat (map ys [0..<n]) = xs"
proof -
  have "concat (map ys [0..<k]) = take (sum_list (map len [0..<k])) xs" if "k \<le> n" for k
    using that
  proof (induction k)
    case (Suc k)
    then show ?case using assms(1) [of k] by (simp add: take_add)
  qed simp
  then show ?thesis using assms(2) by simp
qed

lemma copy_back_frag_bytes:
  assumes ex: "extractable g s" and fills: "fills_behind g s"
    and same: "agree (- fixed_positions g s) (section_bytes g s) buf" and i: "i < length (frags s)"
  shows "frag_bytes g (copy_back g buf s) i =
    take (length (frag_bytes g s i)) (drop (offset_of g s i) buf)"
proof -
  let ?n = "unat (frag_fix_size g s i)" and ?fr = "frags s ! i" and ?o = "offset_of g s i"
  have len: "length buf = length (section_bytes g s)" using same by (simp add: agree_def)
  have lit: "length (frag_bytes g s k) = unat (frag_fix_size g s k) + unat (frag_fill_size (frags s ! k))"
    if "k < length (frags s)" for k
    using length_frag_bytes [OF extractable_frag [OF ex that]] .
  have room: "?o + length (frag_bytes g s i) \<le> length buf"
    using offset_mono [of "Suc i" "length (frags s)" g s] i len by (simp add: offset_Suc offset_end)
  have fr: "frags (copy_back g buf s) ! i = with_literal buf ?o ?n ?fr"
    using i by (simp add: copy_back_frags [OF ex len])
  have size: "frag_fix_size g (copy_back g buf s) i = frag_fix_size g s i"
    using i by (auto simp: frag_fix_size_def copy_back_frags [OF ex len])
  have pattern: "fill_pattern (with_literal buf ?o ?n ?fr) = fill_pattern ?fr" if "frag_fill_size ?fr \<noteq> 0"
    using that fills i by (auto simp: fill_pattern_def with_literal_def overwrite_def fills_behind_def list_all_iff)
  have count: "fill_count (with_literal buf ?o ?n ?fr) = fill_count ?fr" by (simp add: fill_count_def)
  have fixed: "take ?n (fr_literal (with_literal buf ?o ?n ?fr)) = take ?n (drop ?o buf)"
    using room lit [OF i] by (simp add: with_literal_def overwrite_def)
  have fill: "drop ?n (frag_bytes g s i) = concat (replicate (fill_count ?fr) (fill_pattern ?fr))"
    using extractable_frag [OF ex i] by (simp add: frag_bytes_def Let_def literal_ok_def)
  have "drop ?n (take (length (frag_bytes g s i)) (drop ?o buf)) = drop ?n (frag_bytes g s i)"
  proof (rule nth_equalityI)
    show "length (drop ?n (take (length (frag_bytes g s i)) (drop ?o buf))) = length (drop ?n (frag_bytes g s i))"
      using room by simp
    fix j assume "j < length (drop ?n (take (length (frag_bytes g s i)) (drop ?o buf)))"
    then have j: "?n + j < length (frag_bytes g s i)" by simp
    then have "buf ! (?o + (?n + j)) = section_bytes g s ! (?o + (?n + j))"
      using same fill_position_free [OF i, of g "?n + j"] lit by (simp add: agree_def)
    also have "\<dots> = frag_bytes g s i ! (?n + j)"
      using section_frag [OF i, of g] j room len by (metis add_leD1 nth_drop nth_take)
    finally show "drop ?n (take (length (frag_bytes g s i)) (drop ?o buf)) ! j = drop ?n (frag_bytes g s i) ! j"
      using j room by (simp add: add.assoc)
  qed
  then have "take (length (frag_bytes g s i)) (drop ?o buf) = take ?n (drop ?o buf) @ drop ?n (frag_bytes g s i)"
    using append_take_drop_id [of ?n "take (length (frag_bytes g s i)) (drop ?o buf)"] lit [OF i]
    by (simp add: min_def)
  moreover have "frag_bytes g (copy_back g buf s) i =
      take ?n (drop ?o buf) @ concat (replicate (fill_count ?fr) (fill_pattern ?fr))"
    using pattern by (cases "frag_fill_size ?fr = 0")
      (simp_all add: frag_bytes_def Let_def fr size fixed count fill_count_def)
  ultimately show ?thesis by (simp add: fill)
qed

lemma copy_back_image:
  assumes ex: "extractable g s" and fills: "fills_behind g s"
    and same: "agree (- fixed_positions g s) (section_bytes g s) buf"
  shows "section_bytes g (copy_back g buf s) = buf" "extractable g (copy_back g buf s)"
proof -
  have len: "length buf = length (section_bytes g s)" using same by (simp add: agree_def)
  let ?len = "\<lambda>i. length (frag_bytes g s i)"
  have off: "sum_list (map ?len [0..<i]) = offset_of g s i" for i
    by (simp add: offset_of_def length_concat comp_def)
  have n: "length (frags (copy_back g buf s)) = length (frags s)"
    by (simp add: copy_back_frags [OF ex len])
  show bytes: "section_bytes g (copy_back g buf s) = buf"
    unfolding section_bytes_def n
    by (rule concat_slices [of _ ?len])
      (simp_all add: off copy_back_frag_bytes [OF ex fills same] len offset_end)
  have "literal_ok g (copy_back g buf s) i" if i: "i < length (frags s)" for i
  proof -
    have "frag_fix_size g (copy_back g buf s) i = frag_fix_size g s i"
      using i by (auto simp: frag_fix_size_def copy_back_frags [OF ex len])
    moreover have "length (fr_literal (frags s ! i)) \<le> length (fr_literal (frags (copy_back g buf s) ! i))"
      using i by (simp add: copy_back_frags [OF ex len] with_literal_def overwrite_def)
    ultimately show ?thesis
      using extractable_frag [OF ex i] i
      by (auto simp: literal_ok_def Let_def copy_back_frags [OF ex len])
  qed
  then show "extractable g (copy_back g buf s)"
    using ex by (simp add: extractable_def bytes len list_all_iff n)
qed

lemma copy_back_ext: "ext (copy_back g buf s) = ext s \<and> unsupported_reloc (copy_back g buf s) = unsupported_reloc s"
proof -
  have "ext (snd (fold (copy_back_frag g buf) is (a, s))) = ext s \<and>
      unsupported_reloc (snd (fold (copy_back_frag g buf) is (a, s))) = unsupported_reloc s" for "is" a s
    by (induction "is" arbitrary: a s) (auto simp: copy_back_frag_def Let_def update_frag_def)
  then show ?thesis by (simp add: copy_back_def)
qed

subsection \<open>What the fixup pass promises\<close>

text \<open>The state after the first loop of \<open>apply_text_fixups\<close>, in which the references are resolved.\<close>

definition addends_recorded :: "('y, 'x) gas_ops \<Rightarrow> ('y, 'x) segment \<Rightarrow> ('y, 'x) segment" where
  "addends_recorded g s =
     snd (fold (record_addend g) [0..<length (fixups s)] (0, s\<lparr>unsupported_reloc := None\<rparr>))"

definition sites_in_place :: "('y, 'x) gas_ops \<Rightarrow> u64 \<Rightarrow> ('y, 'x) segment \<Rightarrow> bool" where
  "sites_in_place g base s \<longleftrightarrow>
     extractable g s \<and> fills_behind g s \<and> apart (section_bytes g s) (sites g base s) \<and>
     list_all (\<lambda>x. span (section_bytes g s) x \<subseteq> fixed_positions g s) (sites g base s) \<and>
     c_malloc g (length (section_bytes g s))"

lemma apply_clean:
  assumes "counts_errors g" "errors_keep_symbols g"
    and s: "s = addends_recorded g s0" and t: "t = snd (apply_text_fixups g base s0)"
    and place: "sites_in_place g base s" and clean: "clean_errors g s t" and False: "section_bytes g s \<noteq> []"
  shows "\<exists>img. encode_all (sites g base s) (section_bytes g s) = Some img \<and> t = copy_back g img s"
proof -
  have fetch: "fetch (extract_call g) 0 s = section_bytes g s" "fst (extract_call g None s) = length (section_bytes g s)"
    using place bytes.fetch_items [of g s] bytes.query [of g s] by (simp_all add: sites_in_place_def)
  then have eq: "t = copy_back g (fst (encode_image g base (section_bytes g s) s)) (snd (encode_image g base (section_bytes g s) s))"
    using False place
    by (simp add: t apply_text_fixups_def s addends_recorded_def Let_def case_prod_unfold sites_in_place_def)
  then have "clean_errors g s (snd (encode_image g base (section_bytes g s) s))"
    using clean by (simp add: clean_errors_def errors_def copy_back_ext)
  then show ?thesis
    using encode_image_clean [OF assms(1,2), of s base "fixups s" "section_bytes g s"] eq
    by (simp add: encode_image_def sites_def)
qed

text \<open>An empty section has no room for a reference.\<close>

lemma empty_no_sites:
  assumes "sites_in_place g base s" "section_bytes g s = []"
  shows "sites g base s = []"
proof -
  have parts: "extractable g s" "\<forall>x \<in> set (sites g base s). span (section_bytes g s) x \<subseteq> fixed_positions g s"
    using assms(1) by (simp_all add: sites_in_place_def list_all_iff)
  have "unat (frag_fix_size g s i) = 0" if "i < length (frags s)" for i
    using length_frag_bytes [OF extractable_frag [OF parts(1) that]] that assms(2) by (simp add: section_bytes_def)
  then have none: "fixed_positions g s = {}" by (auto simp: fixed_positions_def)
  have "span (section_bytes g s) x \<noteq> {}" for x
    using site_width_pos [of "section_bytes g s" "fst x" "fst (snd x)"] by (simp add: span_def case_prod_unfold)
  then have "x \<notin> set (sites g base s)" for x using parts(2) none by (metis subset_empty)
  then show ?thesis by (metis last_in_set)
qed

lemma apply_sites:
  assumes "counts_errors g" "errors_keep_symbols g"
    and s: "s = addends_recorded g s0" and t: "t = snd (apply_text_fixups g base s0)"
    and place: "sites_in_place g base s" and clean: "clean_errors g s t"
  shows "extractable g t \<and> list_all (site_holds (section_bytes g s) (section_bytes g t)) (sites g base s) \<and>
    agree (- (\<Union>x \<in> set (sites g base s). span (section_bytes g s) x)) (section_bytes g s) (section_bytes g t)"
proof (cases "section_bytes g s = []")
  case True
  have "extractable g s" using place by (simp add: sites_in_place_def)
  then have "fst (extract_call g None s) = 0" using bytes.query [of g s] True by simp
  then have "t = s" by (simp add: t s apply_text_fixups_def addends_recorded_def Let_def case_prod_unfold)
  then show ?thesis using empty_no_sites [OF place True] \<open>extractable g s\<close> by (simp add: agree_def)
next
  case ne: False
  obtain img where img: "encode_all (sites g base s) (section_bytes g s) = Some img" "t = copy_back g img s"
    using apply_clean [OF assms ne] by blast
  have parts: "extractable g s" "fills_behind g s" "apart (section_bytes g s) (sites g base s)"
    "\<forall>x \<in> set (sites g base s). span (section_bytes g s) x \<subseteq> fixed_positions g s"
    using place by (simp_all add: sites_in_place_def list_all_iff)
  have rest: "agree (- (\<Union>x \<in> set (sites g base s). span (section_bytes g s) x)) (section_bytes g s) img"
    by (rule encode_all_agree [OF img(1) parts(3)]) auto
  then have "agree (- fixed_positions g s) (section_bytes g s) img"
    by (rule agree_mono) (use parts(4) in auto)
  note image = copy_back_image [OF parts(1,2) this]
  show ?thesis
    using rest encode_all_holds [OF img(1) parts(3)] image by (simp add: img(2) list_all_iff)
qed

text \<open>If the fixup pass reports no unsupported relocation and no error, then in the bytes that
  are extracted afterwards every reference to a defined symbol is encoded: the field at its site
  reads as the value the pass computed from symbol, addend and base address (or holds its low
  bytes, for data), an instruction keeps its width and all bits outside the field, and every byte
  outside the sites, padding included, is what it was. The fixup sites have to lie apart, in the
  fixed parts of the frags.\<close>

theorem clean_fixups_are_encoded:
  assumes "counts_errors g" "errors_keep_symbols g"
    and "sites_in_place g base (addends_recorded g s)"
    and "clean_errors g (addends_recorded g s) (snd (apply_text_fixups g base s))"
  shows "let old = section_bytes g (addends_recorded g s);
      new = fetch (extract_call g) 0 (snd (apply_text_fixups g base s));
      refs = sites g base (addends_recorded g s)
    in list_all (site_holds old new) refs \<and> agree (- (\<Union>x \<in> set refs. span old x)) old new"
  using apply_sites [OF assms(1,2) refl refl assms(3,4)] bytes.fetch_items [of g] by (simp add: Let_def)

text \<open>A branch at offset 0 to a symbol with value 8 in a section of eight bytes.\<close>

definition branch_gas :: "(nat, int) gas_ops" where
  "branch_gas = sample_gas\<lparr>gas_howto := (\<lambda>_. Some \<lparr>h_name = Some ''R_TRICORE_24REL'',
     h_dst_mask = 0xffffff00, h_bitpos = 8, h_pc_relative = True, h_type = 3\<rparr>)\<rparr>"

definition branch_section :: "(nat, int) segment" where
  "branch_section = \<lparr>
     frags = [sample_frag Rs_fill 0 [0x1d, 0, 0, 0, 9, 9, 9, 9]], tails = [0], frag_now = 1,
     fixups = [\<lparr>fx_frag = 0, fx_where = 0, fx_addsy = Some 8, fx_offset = 0, fx_pcrel = True,
       fx_done = False, fx_addnumber = 0, fx_r_type = 0\<rparr>],
     unsupported_reloc = None, ext = 0\<rparr>"

definition branch_howto :: howto where
  "branch_howto = \<lparr>h_name = Some ''R_TRICORE_24REL'', h_dst_mask = 0xffffff00, h_bitpos = 8,
     h_pc_relative = True, h_type = 3\<rparr>"

lemma branch_recorded: "addends_recorded branch_gas branch_section = branch_section"
  by code_simp

lemma branch_bytes: "section_bytes branch_gas branch_section = [0x1d, 0, 0, 0, 9, 9, 9, 9]"
  by code_simp

lemma branch_sites: "sites branch_gas 0x1000 branch_section = [(0, branch_howto, 8)]"
  by code_simp

lemma branch_laws: "counts_errors branch_gas" "errors_keep_symbols branch_gas"
  by (simp_all add: counts_errors_def errors_keep_symbols_def same_symbols_def same_but_def as_bad_def
      set_unsupported_def branch_gas_def sample_gas_def)

lemma branch_place: "sites_in_place branch_gas 0x1000 branch_section"
proof -
  have unit: "unit_filled branch_gas branch_section" by code_simp
  have "extractable branch_gas branch_section"
    by (rule unit_filled_extractable [OF unit]) (simp only: branch_bytes, simp)
  moreover have "fills_behind branch_gas branch_section" by code_simp
  moreover have "c_malloc branch_gas n" for n by (simp add: branch_gas_def sample_gas_def)
  moreover have "frag_fix_size branch_gas branch_section 0 = 8" "length (frags branch_section) = 1" by code_simp+
  ultimately show ?thesis
    by (simp add: sites_in_place_def branch_bytes branch_sites apart_def span_def site_width_def plain_width_def
        form_suffix_def insn_len_def fixed_positions_def offset_of_def lessThan_Suc branch_howto_def)
qed

theorem clean_fixups_are_encoded_witness:
  "fetch (extract_call branch_gas) 0 (snd (apply_text_fixups branch_gas 0x1000 branch_section))
     = [0x1d, 0, 4, 0, 9, 9, 9, 9] \<and>
   site_holds [0x1d, 0, 0, 0, 9, 9, 9, 9] [0x1d, 0, 4, 0, 9, 9, 9, 9] (0, branch_howto, 8)"
proof -
  have new: "fetch (extract_call branch_gas) 0 (snd (apply_text_fixups branch_gas 0x1000 branch_section))
      = [0x1d, 0, 4, 0, 9, 9, 9, 9]"
    by code_simp
  have clean: "clean_errors branch_gas branch_section (snd (apply_text_fixups branch_gas 0x1000 branch_section))"
    unfolding clean_errors_def by code_simp
  show ?thesis
    using clean_fixups_are_encoded [OF branch_laws, of "0x1000" branch_section] clean
    by (simp add: branch_recorded branch_place branch_bytes branch_sites new Let_def)
qed

end
