(* ===== verification/Fixup_Properties.thy ===== *)
theory Fixup_Properties
  imports Write_Back
begin

text \<open>
  Two more contracts of the fixup pass: the bytes do not depend on the base address when all
  references are relative to symbols of the section or absolute to absolute symbols, and the count of unresolved
  references it returns is the number of relocations collected afterwards.
\<close>

subsection \<open>Independence of the base address\<close>

definition base_free :: "('y, 'x) gas_ops \<Rightarrow> ('y, 'x) segment \<Rightarrow> bool" where
  "base_free g s \<longleftrightarrow> list_all (\<lambda>fx.
     case fx_addsy fx of
       None \<Rightarrow> True
     | Some y \<Rightarrow> (case gas_howto g (fx_r_type fx) of
         None \<Rightarrow> True
       | Some ht \<Rightarrow> gas_is_defined g y (ext s) \<longrightarrow> h_pc_relative ht = gas_in_text g y (ext s))) (fixups s)"

lemma fixup_value_base_free:
  "h_pc_relative ht = gas_in_text g y (ext s) \<Longrightarrow>
    fixup_value g base s fx y ht = fixup_value g base' s fx y ht"
  by (simp add: fixup_value_def Let_def algebra_simps)

lemma fold_base_free:
  assumes "errors_keep_symbols g" "base_free g s" "set fs \<subseteq> set (fixups s)" "same_symbols g s t"
  shows "fold (encode_fixup g base) fs (buf, t) = fold (encode_fixup g base') fs (buf, t)"
  using assms(3,4)
proof (induction fs arbitrary: buf t)
  case (Cons fx fs)
  have sym: "gas_is_defined g y (ext t) = gas_is_defined g y (ext s)"
    "gas_in_text g y (ext t) = gas_in_text g y (ext s)" for y
    using Cons.prems(2) by (simp_all add: same_symbols_def)
  have fx: "fx \<in> set (fixups s)" using Cons.prems(1) by simp
  have step: "encode_fixup g base fx (buf, t) = encode_fixup g base' fx (buf, t)"
  proof (cases "fx_addsy fx")
    case (Some y)
    show ?thesis
    proof (cases "gas_howto g (fx_r_type fx)")
      case howto: (Some ht)
      have "fixup_value g base t fx y ht = fixup_value g base' t fx y ht" if "gas_is_defined g y (ext t)"
        using assms(2) fx that Some howto
        by (intro fixup_value_base_free) (auto simp: base_free_def list_all_iff sym)
      then show ?thesis using Some howto by (simp add: encode_fixup_def)
    qed (simp add: encode_fixup_def Some)
  qed (simp add: encode_fixup_def)
  obtain buf1 t1 where pair: "encode_fixup g base' fx (buf, t) = (buf1, t1)" by fastforce
  then have "same_symbols g s t1"
    using same_symbols_trans [OF Cons.prems(2) encode_fixup_symbols [OF assms(1), of t base' fx buf]] by simp
  then show ?case
    using Cons.IH [of t1 buf1] Cons.prems(1) by (simp add: step pair)
qed simp

text \<open>C29. When every reference to a defined symbol is relative inside the section or absolute to an
  absolute symbol, the fixup pass does not depend on the base address at all: the same section
  assembled anywhere gives the same bytes and the same diagnostics. A relative reference to an absolute
  symbol, such as a label definition of the caller, is neither, and its value does depend on the base.\<close>

theorem fixups_base_independent:
  assumes "errors_keep_symbols g" "base_free g (addends_recorded g s)"
  shows "apply_text_fixups g base s = apply_text_fixups g base' s"
proof -
  have "encode_image g base buf (addends_recorded g s) = encode_image g base' buf (addends_recorded g s)" for buf
    unfolding encode_image_def by (rule fold_base_free [OF assms order_refl same_symbols_refl])
  then show ?thesis
    by (simp add: apply_text_fixups_def addends_recorded_def Let_def case_prod_unfold)
qed

lemma branch_gas_keeps: "errors_keep_symbols branch_gas"
  by (simp add: errors_keep_symbols_def same_symbols_def same_but_def as_bad_def set_unsupported_def
      branch_gas_def sample_gas_def)

theorem fixups_base_independent_witness:
  "apply_text_fixups branch_gas 0 branch_section = apply_text_fixups branch_gas 0x80000000 branch_section"
proof -
  have "base_free branch_gas (addends_recorded branch_gas branch_section)" by code_simp
  then show ?thesis by (rule fixups_base_independent [OF branch_gas_keeps])
qed

subsection \<open>The count of unresolved references\<close>

text \<open>\<open>md_apply_fix\<close> works on its own fixup: it may settle it or take its symbol away.
  \<open>resolve_symbol_value\<close> touches no fixup.\<close>

definition fixes_are_local :: "('y, 'x) gas_ops \<Rightarrow> bool" where
  "fixes_are_local g \<longleftrightarrow>
     (\<forall>j v s. let t = gas_md_apply_fix g j v s in
        length (fixups t) = length (fixups s) \<and> (\<forall>k. k \<noteq> j \<longrightarrow> fixups t ! k = fixups s ! k) \<and>
        fx_addsy (fixups t ! j) \<in> {None, fx_addsy (fixups s ! j)}) \<and>
     (\<forall>y s. fixups (gas_resolve_value g y s) = fixups s)"

text \<open>The two steps of the first loop that run gas.\<close>

inductive pass_step :: "('y, 'x) gas_ops \<Rightarrow> ('y, 'x) segment \<Rightarrow> ('y, 'x) segment \<Rightarrow> bool" for g where
  Resolve_value: "pass_step g s (gas_resolve_value g y s)"
| Apply_fix: "pass_step g s (gas_md_apply_fix g j v s)"

text \<open>Whether \<open>y\<close> is defined is decided: no later step of the pass changes it.\<close>

definition decided :: "('y, 'x) gas_ops \<Rightarrow> 'y \<Rightarrow> ('y, 'x) segment \<Rightarrow> bool" where
  "decided g y s \<longleftrightarrow> (\<forall>t. (pass_step g)\<^sup>*\<^sup>* s t \<longrightarrow> gas_is_defined g y (ext t) = gas_is_defined g y (ext s))"

text \<open>\<open>resolve_symbol_value\<close> sets the section of the symbol, and with it whether it is defined: a symbol that an
  \<open>.equ\<close> equates to a label further down only becomes defined here. It does the symbols of the value
  first, so that its decision stands, unless the values of the source's symbols go round in a circle.\<close>

definition resolving_decides :: "('y, 'x) gas_ops \<Rightarrow> ('y, 'x) segment \<Rightarrow> bool" where
  "resolving_decides g s \<longleftrightarrow> (\<forall>t y. (pass_step g)\<^sup>*\<^sup>* s t \<longrightarrow> decided g y (gas_resolve_value g y t))"

text \<open>What the count needs of gas and of the section the fixup pass starts from.\<close>

definition references_settle :: "('y, 'x) gas_ops \<Rightarrow> ('y, 'x) segment \<Rightarrow> bool" where
  "references_settle g s \<longleftrightarrow> fixes_are_local g \<and> resolving_decides g (s\<lparr>unsupported_reloc := None\<rparr>)"

lemma decided_later: "decided g y s \<Longrightarrow> (pass_step g)\<^sup>*\<^sup>* s t \<Longrightarrow>
    decided g y t \<and> gas_is_defined g y (ext t) = gas_is_defined g y (ext s)"
  unfolding decided_def by (meson rtranclp_trans)

lemma unresolved_cong:
  "(\<And>y. fx_addsy fx = Some y \<Longrightarrow> gas_is_defined g y (ext t) = gas_is_defined g y (ext s)) \<Longrightarrow>
    unresolved g t fx = unresolved g s fx"
  by (auto simp: unresolved_def split: option.splits)

text \<open>The fixups in front of \<open>k\<close> have been visited: those that still have a symbol are decided.\<close>

definition visited :: "('y, 'x) gas_ops \<Rightarrow> nat \<Rightarrow> ('y, 'x) segment \<Rightarrow> bool" where
  "visited g k s \<longleftrightarrow> (\<forall>i < k. \<forall>y. fx_addsy (fixups s ! i) = Some y \<longrightarrow> decided g y s)"

lemma record_addend_step:
  assumes "fixes_are_local g" "resolving_decides g s0" "(pass_step g)\<^sup>*\<^sup>* s0 s"
    and "record_addend g j (n, s) = (n', t)"
  shows "(pass_step g)\<^sup>*\<^sup>* s t \<and> length (fixups t) = length (fixups s) \<and>
    (\<forall>k. k \<noteq> j \<longrightarrow> fixups t ! k = fixups s ! k) \<and>
    (\<forall>y. fx_addsy (fixups t ! j) = Some y \<longrightarrow> decided g y t) \<and>
    n' = n + of_bool (unresolved g t (fixups t ! j))"
proof (cases "fx_addsy (fixups s ! j)")
  case None
  then show ?thesis using assms(4) by (auto simp: record_addend_def unresolved_def)
next
  case (Some y)
  define s1 where "s1 = gas_resolve_value g y s"
  have s1: "fixups s1 = fixups s" "pass_step g s s1" "decided g y s1"
    using assms(1-3) by (simp_all add: fixes_are_local_def resolving_decides_def s1_def Resolve_value)
  show ?thesis
  proof (cases "gas_is_defined g y (ext s1)")
    case True
    then have "t = s1" "n' = n" using assms(4) Some by (simp_all add: record_addend_def Let_def flip: s1_def)
    then show ?thesis using s1 Some True by (auto simp: unresolved_def)
  next
    case False
    define val where "val = (let fx = fixups s1 ! j; val0 = gas_value g y s1 + fx_offset fx
      in if fx_pcrel fx then val0 - gas_pcrel_from g fx s1 else val0)"
    have t: "t = gas_md_apply_fix g j val s1"
      and n': "n' = (if fx_addsy (fixups t ! j) \<noteq> None \<and> \<not> fx_done (fixups t ! j) then Suc n else n)"
      using assms(4) Some False by (auto simp: record_addend_def Let_def val_def simp flip: s1_def)
    have loc: "length (fixups t) = length (fixups s1)" "\<forall>k. k \<noteq> j \<longrightarrow> fixups t ! k = fixups s1 ! k"
      "fx_addsy (fixups t ! j) \<in> {None, fx_addsy (fixups s1 ! j)}"
      using assms(1) by (simp_all add: fixes_are_local_def Let_def t)
    have step: "pass_step g s1 t" unfolding t by (rule Apply_fix)
    have "decided g y t" "\<not> gas_is_defined g y (ext t)"
      using decided_later [OF s1(3) r_into_rtranclp [of "pass_step g", OF step]] False by simp_all
    then show ?thesis
      using loc s1(1,2) Some step n' by (auto simp: unresolved_def split: option.splits)
  qed
qed

lemma record_addends:
  assumes "fixes_are_local g" "resolving_decides g s" "k \<le> length (fixups s)"
    and "fold (record_addend g) [0..<k] (0, s) = (n, t)"
  shows "(pass_step g)\<^sup>*\<^sup>* s t \<and> length (fixups t) = length (fixups s) \<and> visited g k t \<and>
    n = length (filter (unresolved g t) (take k (fixups t)))"
  using assms(3,4)
proof (induction k arbitrary: n t)
  case (Suc k)
  obtain m u where u: "fold (record_addend g) [0..<k] (0, s) = (m, u)" by fastforce
  then have ih: "(pass_step g)\<^sup>*\<^sup>* s u" "length (fixups u) = length (fixups s)" "visited g k u"
    "m = length (filter (unresolved g u) (take k (fixups u)))"
    using Suc by auto
  have "record_addend g k (m, u) = (n, t)" using Suc.prems(2) u by simp
  note step = record_addend_step [OF assms(1,2) ih(1) this]
  have same: "take k (fixups t) = take k (fixups u)"
    using step Suc.prems(1) ih(2) by (intro nth_equalityI) auto
  have kept: "decided g y t \<and> gas_is_defined g y (ext t) = gas_is_defined g y (ext u)"
    if "i < k" "fx_addsy (fixups u ! i) = Some y" for i y
    using ih(3) that step decided_later [of g y u t] by (auto simp: visited_def)
  have front: "fixups t ! i = fixups u ! i" if "i < k" for i using step that by simp
  have "unresolved g t fx = unresolved g u fx" if fx: "fx \<in> set (take k (fixups u))" for fx
  proof -
    obtain i where "i < k" "fx = fixups u ! i" using fx by (auto simp: in_set_conv_nth)
    then show ?thesis by (intro unresolved_cong) (use kept in blast)
  qed
  then have "filter (unresolved g t) (take k (fixups u)) = filter (unresolved g u) (take k (fixups u))"
    by (intro filter_cong) auto
  moreover have "visited g (Suc k) t"
    using step kept front by (auto simp: visited_def less_Suc_eq)
  ultimately show ?case
    using step ih(1,2,4) Suc.prems(1) same by (auto simp: take_Suc_conv_app_nth intro: rtranclp_trans)
qed (simp add: visited_def)

lemma copy_back_fixups: "fixups (copy_back g buf s) = fixups s"
proof -
  have "fixups (snd (fold (copy_back_frag g buf) is (a, s))) = fixups s" for "is" a s
    by (induction "is" arbitrary: a s) (auto simp: copy_back_frag_def Let_def update_frag_def)
  then show ?thesis by (simp add: copy_back_def)
qed

lemma count_is_relocs:
  assumes "references_settle g s" "errors_keep_symbols g"
  shows "fst (apply_text_fixups g base s) = length (fetch (collect_relocs g) null_reloc (snd (apply_text_fixups g base s)))"
proof -
  obtain n u where u: "fold (record_addend g) [0..<length (fixups s)] (0, s\<lparr>unsupported_reloc := None\<rparr>) = (n, u)"
    by fastforce
  define t where "t = snd (apply_text_fixups g base s)"
  have n: "n = length (filter (unresolved g u) (fixups u))"
    using assms(1) record_addends [OF _ _ _ u] by (simp add: references_settle_def)
  define bs where "bs = encode_image g base (fetch (extract_call g) 0 u) u"
  have "t = u \<or> t = copy_back g (fst bs) (snd bs)" and fst: "fst (apply_text_fixups g base s) = n"
    by (auto simp: t_def apply_text_fixups_def u Let_def bs_def case_prod_unfold)
  moreover have "same_symbols g u (snd bs)"
    using fold_symbols [OF assms(2), of "(_, u)"] by (simp add: bs_def encode_image_def)
  ultimately have "fixups t = fixups u" "\<And>y. gas_is_defined g y (ext t) = gas_is_defined g y (ext u)"
    by (auto simp: copy_back_fixups copy_back_ext same_symbols_def same_but_def)
  moreover from this have "unresolved g t = unresolved g u" by (intro HOL.ext unresolved_cong) simp
  ultimately have "length (relocs g t) = n" by (simp add: relocs_def n)
  then show ?thesis
    using rel.fetch_items [of g null_reloc t] by (simp add: fst t_def)
qed

text \<open>The number \<open>apply_text_fixups\<close> returns is the number of relocations that
  \<open>nyxstone_glue_collect_relocs\<close> reports afterwards: the driver's test for undefined labels and
  the list of their names are about the same fixups.\<close>

theorem unresolved_count_is_relocs:
  assumes "references_settle g s" "errors_keep_symbols g"
  shows "fst (apply_text_fixups g base s) = length (fetch (collect_relocs g) null_reloc (snd (apply_text_fixups g base s)))"
  by (rule count_is_relocs [OF assms])

text \<open>A gas in which resolving changes nothing settles every section.\<close>

lemma branch_settles: "references_settle branch_gas s"
proof -
  have idle: "gas_resolve_value branch_gas y t = t" "gas_md_apply_fix branch_gas j v t = t" for y t j v
    by (simp_all add: branch_gas_def sample_gas_def)
  have "t = s'" if "(pass_step branch_gas)\<^sup>*\<^sup>* s' t" for s' t
    using that by (induction rule: rtranclp_induct) (auto simp: idle elim: pass_step.cases)
  then show ?thesis
    by (auto simp: references_settle_def fixes_are_local_def resolving_decides_def decided_def idle)
qed

theorem unresolved_count_is_relocs_witness:
  "fst (apply_text_fixups branch_gas 0
     (branch_section\<lparr>fixups := [(fixups branch_section ! 0)\<lparr>fx_addsy := Some 500\<rparr>]\<rparr>)) = 1 \<and>
   length (fetch (collect_relocs branch_gas) null_reloc (snd (apply_text_fixups branch_gas 0
     (branch_section\<lparr>fixups := [(fixups branch_section ! 0)\<lparr>fx_addsy := Some 500\<rparr>]\<rparr>)))) = 1"
proof -
  note count = unresolved_count_is_relocs [OF branch_settles branch_gas_keeps]
  have "fst (apply_text_fixups branch_gas 0
     (branch_section\<lparr>fixups := [(fixups branch_section ! 0)\<lparr>fx_addsy := Some 500\<rparr>]\<rparr>)) = 1"
    by code_simp
  then show ?thesis using count by simp
qed

end
