(* ===== verification/Gas_Glue.thy ===== *)
theory Gas_Glue
  imports Assemble Capture Fixup_Properties
begin

text \<open>
  The rest of \<^verbatim>\<open>src/src/nyxstone_glue.c\<close>: the per-call reset, the forwarders into gas and the
  glue record as the C++ driver sees it, built from the layout, fixup and readout theories. gas is
  the record \<open>gas_api\<close>, a parameter; a pointer into a frag's literal is the position of the frag
  and an offset. The interpretation at the end gives the driver its contract on this glue.
\<close>

subsection \<open>The functions of gas that are called\<close>

type_synonym literal_ptr = "nat \<times> nat"

text \<open>The chains of the data and bss sections, in the form \<open>segment\<close> keeps those of the text section.
  gas owns them; the glue only empties them.\<close>

record 'y chains =
  c_frags :: "'y frag list"
  c_tails :: "nat list"
  c_fixups :: "'y fixup list"

record ('y, 'x) gas_api = "('y, 'x) gas_ops" +
  gas_symbol_end :: "('y, 'x) segment \<Rightarrow> ('y, 'x) segment"
  gas_symbol_begin :: "('y, 'x) segment \<Rightarrow> ('y, 'x) segment"
  gas_restart_obstack :: "string \<Rightarrow> nat \<Rightarrow> 'x \<Rightarrow> 'x"
  gas_chains :: "string \<Rightarrow> 'x \<Rightarrow> 'y chains option"
  gas_set_chains :: "string \<Rightarrow> 'y chains \<Rightarrow> 'x \<Rightarrow> 'x"
  gas_select_text :: "'x \<Rightarrow> 'x"
  gas_colon :: "string \<Rightarrow> ('y, 'x) segment \<Rightarrow> ('y, 'x) segment"
  gas_symbol_find :: "string \<Rightarrow> 'x \<Rightarrow> 'y option"
  gas_set_absolute :: "'y \<Rightarrow> 'x \<Rightarrow> 'x"
  gas_set_value :: "'y \<Rightarrow> u64 \<Rightarrow> 'x \<Rightarrow> 'x"
  gas_symbol_new_absolute :: "string \<Rightarrow> u64 \<Rightarrow> 'x \<Rightarrow> 'y \<times> 'x"
  gas_symbol_table_insert :: "'y \<Rightarrow> 'x \<Rightarrow> 'x"
  gas_line_pointer :: "'x \<Rightarrow> string option"
  gas_set_line_pointer :: "string option \<Rightarrow> 'x \<Rightarrow> 'x"
  gas_equals :: "string \<Rightarrow> bool \<Rightarrow> ('y, 'x) segment \<Rightarrow> ('y, 'x) segment"
  gas_cons :: "nat \<Rightarrow> ('y, 'x) segment \<Rightarrow> ('y, 'x) segment"
  gas_fb_label_instance_inc :: "u32 \<Rightarrow> 'x \<Rightarrow> 'x"
  gas_fb_label_name :: "u32 \<Rightarrow> nat \<Rightarrow> 'x \<Rightarrow> string"
  gas_md_assemble :: "string \<Rightarrow> ('y, 'x) segment \<Rightarrow> ('y, 'x) segment"
  gas_frag_more :: "u64 \<Rightarrow> ('y, 'x) segment \<Rightarrow> literal_ptr \<times> ('y, 'x) segment"
  gas_frag_align :: "i32 \<Rightarrow> i32 \<Rightarrow> i32 \<Rightarrow> ('y, 'x) segment \<Rightarrow> ('y, 'x) segment"
  gas_frag_var :: "rs_type \<Rightarrow> nat \<Rightarrow> nat \<Rightarrow> u32 \<Rightarrow> 'y option \<Rightarrow> i64 \<Rightarrow> ('y, 'x) segment
    \<Rightarrow> literal_ptr \<times> ('y, 'x) segment"
  gas_capture :: "'x \<Rightarrow> capture"
  gas_set_capture :: "capture \<Rightarrow> 'x \<Rightarrow> 'x"
  c_fopencookie :: bool

definition on_ext :: "('x \<Rightarrow> 'x) \<Rightarrow> ('y, 'x) segment \<Rightarrow> ('y, 'x) segment" where
  "on_ext f s = s\<lparr>ext := f (ext s)\<rparr>"

definition poke :: "literal_ptr \<Rightarrow> byte list \<Rightarrow> ('y, 'x) segment \<Rightarrow> ('y, 'x) segment" where
  "poke p bytes = update_frag (fst p) (\<lambda>fr. fr\<lparr>fr_literal := overwrite (fr_literal fr) (snd p) bytes\<rparr>)"

subsection \<open>Per-call reset\<close>

text \<open>\<open>frag_alloc\<close> hands out a zeroed frag. Every chain is left with one empty frag, which is its
  root, its last and its current one, and without fixups.\<close>

definition fresh_frag :: "'y frag" where
  "fresh_frag = \<lparr>fr_address = 0, fr_fix = 0, fr_var = 0, fr_offset = 0, fr_subtype = 0, fr_type = Rs_fill,
     fr_symbol = None, fr_literal = []\<rparr>"

definition emptied :: "nat \<Rightarrow> 'y chains" where
  "emptied n = \<lparr>c_frags = replicate n fresh_frag, c_tails = [0..<n], c_fixups = []\<rparr>"

text \<open>\<open>reset_section\<close> on the text section, whose chains are part of the state, and on another
  section, whose \<open>seg_info\<close> may be missing.\<close>

definition reset_section :: "('y, 'x) gas_api \<Rightarrow> ('y, 'x) segment \<Rightarrow> ('y, 'x) segment" where
  "reset_section g s =
     (let n = length (tails s); c = emptied n
      in s\<lparr>frags := c_frags c, tails := c_tails c, fixups := c_fixups c,
           ext := fold (gas_restart_obstack g ''.text'') [0..<n] (ext s)\<rparr>)"

definition reset_other :: "('y, 'x) gas_api \<Rightarrow> string \<Rightarrow> 'x \<Rightarrow> 'x" where
  "reset_other g seg x =
     (case gas_chains g seg x of
        None \<Rightarrow> x
      | Some c \<Rightarrow>
          let n = length (c_tails c)
          in gas_set_chains g seg (emptied n) (fold (gas_restart_obstack g seg) [0..<n] x))"

definition glue_reset :: "('y, 'x) gas_api \<Rightarrow> ('y, 'x) segment \<Rightarrow> ('y, 'x) segment" where
  "glue_reset g s =
     (let s1 = reset_section g (gas_symbol_begin g (gas_symbol_end g s));
          s2 = on_ext (reset_other g ''.bss'') (on_ext (reset_other g ''.data'') s1)
      in if tails s2 \<noteq> [] then (on_ext (gas_select_text g) s2)\<lparr>frag_now := 0\<rparr> else s2)"

subsection \<open>Forwarders into gas\<close>

definition glue_colon :: "('y, 'x) gas_api \<Rightarrow> string \<Rightarrow> ('y, 'x) segment \<Rightarrow> ('y, 'x) segment" where
  "glue_colon g name = gas_colon g name"

definition glue_error :: "('y, 'x) gas_api \<Rightarrow> string \<Rightarrow> ('y, 'x) segment \<Rightarrow> ('y, 'x) segment" where
  "glue_error g msg = on_ext (gas_as_bad g msg)"

definition glue_md_assemble :: "('y, 'x) gas_api \<Rightarrow> string \<Rightarrow> ('y, 'x) segment \<Rightarrow> ('y, 'x) segment" where
  "glue_md_assemble g line = gas_md_assemble g line"

definition glue_frag_now_fix :: "('y, 'x) gas_api \<Rightarrow> ('y, 'x) segment \<Rightarrow> u64" where
  "glue_frag_now_fix g s = gas_now_fix g (ext s)"

definition glue_had_errors :: "('y, 'x) gas_api \<Rightarrow> ('y, 'x) segment \<Rightarrow> int" where
  "glue_had_errors g s = gas_had_errors g (ext s)"

definition glue_unsupported_reloc :: "('y, 'x) segment \<Rightarrow> string option" where
  "glue_unsupported_reloc s = unsupported_reloc s"

definition duplicate_label :: "string \<Rightarrow> string" where
  "duplicate_label name = ''label '' @ [CHR 0x27] @ name @ [CHR 0x27] @
     '' is defined both in the source and as a LabelDefinition''"

text \<open>The functions that change gas's symbol table work on \<open>ext\<close>.\<close>

definition define_abs :: "('y, 'x) gas_api \<Rightarrow> string \<Rightarrow> u64 \<Rightarrow> ('y, 'x) segment \<Rightarrow> ('y, 'x) segment" where
  "define_abs g name value s =
     (case gas_symbol_find g name (ext s) of
        Some y \<Rightarrow>
          if gas_is_defined g y (ext s) then on_ext (gas_as_bad g (duplicate_label name)) s
          else on_ext (gas_set_value g y value) (on_ext (gas_set_absolute g y) s)
      | None \<Rightarrow>
          let (y, x) = gas_symbol_new_absolute g name value (ext s)
          in on_ext (gas_symbol_table_insert g y) (s\<lparr>ext := x\<rparr>))"

text \<open>gas reads from \<open>input_line_pointer\<close>: it is pointed at a buffer of the glue's own and put
  back afterwards.\<close>

definition with_line :: "('y, 'x) gas_api \<Rightarrow> string \<Rightarrow> (('y, 'x) segment \<Rightarrow> ('y, 'x) segment)
    \<Rightarrow> ('y, 'x) segment \<Rightarrow> ('y, 'x) segment" where
  "with_line g line f s =
     (let saved = gas_line_pointer g (ext s)
      in on_ext (gas_set_line_pointer g saved) (f (on_ext (gas_set_line_pointer g (Some line)) s)))"

definition set_sym :: "('y, 'x) gas_api \<Rightarrow> string \<Rightarrow> string \<Rightarrow> ('y, 'x) segment \<Rightarrow> ('y, 'x) segment" where
  "set_sym g name value_expr s =
     (if \<not> c_malloc g (length name + 1) \<or> \<not> c_malloc g (length value_expr + 3) then s
      else with_line g (CHR ''='' # value_expr @ [NEWLINE]) (gas_equals g name True) s)"

definition fb_label :: "('y, 'x) gas_api \<Rightarrow> u32 \<Rightarrow> ('y, 'x) segment \<Rightarrow> ('y, 'x) segment" where
  "fb_label g n s =
     (let s1 = on_ext (gas_fb_label_instance_inc g n) s
      in gas_colon g (gas_fb_label_name g n 0 (ext s1)) s1)"

text \<open>The size is passed as \<open>(int) n\<close> to a parameter of type \<open>size_t\<close>: cut to 32 bits and
  sign-extended.\<close>

definition frag_request :: "nat \<Rightarrow> u64" where
  "frag_request n = scast (word_of_int (int n) :: i32)"

definition emit_bytes :: "('y, 'x) gas_api \<Rightarrow> byte list \<Rightarrow> ('y, 'x) segment \<Rightarrow> ('y, 'x) segment" where
  "emit_bytes g p s =
     (if p = [] then s
      else let (dst, s1) = gas_frag_more g (frag_request (length p)) s in poke dst p s1)"

definition emit_cons :: "('y, 'x) gas_api \<Rightarrow> string \<Rightarrow> nat \<Rightarrow> ('y, 'x) segment \<Rightarrow> ('y, 'x) segment" where
  "emit_cons g args nbytes s =
     (if \<not> c_malloc g (length args + 2) then s
      else with_line g (args @ [NEWLINE]) (gas_cons g nbytes) s)"

definition glue_align :: "('y, 'x) gas_api \<Rightarrow> u32 \<Rightarrow> i32 \<Rightarrow> u32 \<Rightarrow> ('y, 'x) segment \<Rightarrow> ('y, 'x) segment" where
  "glue_align g p2 fill max_pad = gas_frag_align g p2 fill max_pad"

definition glue_org :: "('y, 'x) gas_api \<Rightarrow> u64 \<Rightarrow> i32 \<Rightarrow> ('y, 'x) segment \<Rightarrow> ('y, 'x) segment" where
  "glue_org g target fill s =
     (let (p, s1) = gas_frag_var g Rs_org 1 1 0 None target s in poke p [ucast fill] s1)"

definition capture_window_begin :: "('y, 'x) gas_api \<Rightarrow> ('y, 'x) segment \<Rightarrow> ('y, 'x) segment" where
  "capture_window_begin g =
     on_ext (\<lambda>x. gas_set_capture g (begin_capture (c_fopencookie g) (gas_capture g x)) x)"

definition capture_window_end :: "('y, 'x) gas_api \<Rightarrow> ('y, 'x) segment \<Rightarrow> string \<times> ('y, 'x) segment" where
  "capture_window_end g s =
     (let (out, c) = end_capture (gas_capture g (ext s)) in (out, on_ext (gas_set_capture g c) s))"

subsection \<open>The glue\<close>

definition gas_glue :: "('y, 'x) gas_api \<Rightarrow> ('y, 'x) segment glue" where
  "gas_glue g = (let ops = gas_ops.truncate g in \<lparr>
     g_reset = glue_reset g,
     g_colon = glue_colon g,
     g_define_abs = define_abs g,
     g_set_sym = set_sym g,
     g_fb_label = fb_label g,
     g_md_assemble = glue_md_assemble g,
     g_emit_bytes = emit_bytes g,
     g_emit_cons = emit_cons g,
     g_align = glue_align g,
     g_org = glue_org g,
     g_begin_capture = capture_window_begin g,
     g_end_capture = capture_window_end g,
     g_resolve_text_fixups = (\<lambda>base s. case resolve_text_fixups ops base s of (n, s') \<Rightarrow> (int n, s')),
     g_unsupported_reloc = glue_unsupported_reloc,
     g_extract_text_bytes = extract_call ops,
     g_had_errors = glue_had_errors g,
     g_collect_relocs = collect_relocs ops\<rparr>)"

subsection \<open>Error counts only grow\<close>

text \<open>gas reports errors and never takes one back.\<close>

definition errors_grow :: "('y, 'x) gas_ops \<Rightarrow> bool" where
  "errors_grow g \<longleftrightarrow> counts_errors g \<and>
     (\<forall>y s. errors g s \<le> errors g (gas_resolve_value g y s)) \<and>
     (\<forall>j v s. errors g s \<le> errors g (gas_md_apply_fix g j v s)) \<and>
     (\<forall>i s. errors g s \<le> errors g (gas_md_convert_frag g i s)) \<and>
     (\<forall>p s. errors g s \<le> errors g (snd (gas_relax_segment g p s)))"

lemma fold_grows: "(\<And>x s. (e s :: int) \<le> e (f x s)) \<Longrightarrow> e s \<le> e (fold f xs s)"
  by (induction xs arbitrary: s) (auto intro: order_trans)

lemma errors_update_frag [simp]: "errors g (update_frag i f s) = errors g s"
  by (simp add: errors_def update_frag_def)

lemma errors_unsupported [simp]: "errors g (s\<lparr>unsupported_reloc := u\<rparr>) = errors g s"
  by (simp add: errors_def)

lemma errors_as_bad: "errors_grow g \<Longrightarrow> errors g (as_bad g msg s) = errors g s + 1"
  by (simp add: errors_grow_def counts_errors_def errors_def as_bad_def)

lemma errors_layout: "errors g (layout g s) = errors g s"
  by (simp add: layout_addresses errors_def)

lemma errors_finalize:
  assumes "errors_grow g"
  shows "errors g s \<le> errors g (finalize_align_org g s)"
proof -
  have "errors g (snd p) \<le> errors g (snd (finalize_frag g i p))" for i p
    by (cases p) (auto simp: finalize_frag_def Let_def errors_as_bad [OF assms])
  then show ?thesis
    unfolding finalize_align_org_def
    using fold_grows [of "\<lambda>p. errors g (snd p)" "finalize_frag g" "(0, s)"] by simp
qed

lemma errors_record:
  assumes "errors_grow g"
  shows "errors g s \<le> errors g (addends_recorded g s)"
proof -
  have resolve: "errors g t \<le> errors g (gas_resolve_value g y t)"
    and "errors g (gas_resolve_value g y t) \<le> errors g (gas_md_apply_fix g j v (gas_resolve_value g y t))" for t y j v
    using assms by (simp_all add: errors_grow_def)
  note both = order_trans [OF this]
  have "errors g (snd p) \<le> errors g (snd (record_addend g j p))" for j p
    by (cases p) (auto simp: record_addend_def Let_def resolve both split: option.split)
  then show ?thesis
    unfolding addends_recorded_def
    using fold_grows [of "\<lambda>p. errors g (snd p)" "record_addend g" "(0, s\<lparr>unsupported_reloc := None\<rparr>)"] by simp
qed

lemma errors_relax_loop:
  assumes "errors_grow g"
  shows "errors g s \<le> errors g (relax_loop g pass s)"
  using assms
proof (induction g pass s rule: relax_loop.induct)
  case (1 g pass s)
  obtain changed s' where r: "gas_relax_segment g pass s = (changed, s')" by fastforce
  then have "errors g s \<le> errors g s'" using 1(2) by (metis errors_grow_def snd_conv)
  then show ?case
    using 1 r by (subst relax_loop.simps) (auto intro: order_trans)
qed

text \<open>The section when \<open>resolve_text_fixups\<close> turns to the fixups: relaxed, converted, sized and
  laid out.\<close>

definition laid_out :: "('y, 'x) gas_ops \<Rightarrow> ('y, 'x) segment \<Rightarrow> ('y, 'x) segment" where
  "laid_out g s0 =
     (let s1 = relax_branches g s0;
          s2 = fold (resolve_target g) [0..<length (frags s1)] s1;
          s3 = fold (convert_frag g) [0..<length (frags s2)] s2
      in layout g (finalize_align_org g s3))"

lemma resolve_laid_out: "resolve_text_fixups g base s = apply_text_fixups g base (laid_out g s)"
  by (simp add: resolve_text_fixups_def laid_out_def Let_def)

lemma errors_laid_out:
  assumes "errors_grow g"
  shows "errors g s \<le> errors g (laid_out g s)"
proof -
  have settle: "errors g t \<le> errors g (settle_frag g i t)" and seed: "errors g t \<le> errors g (seed_subtype g i t)"
    and target: "errors g t \<le> errors g (resolve_target g i t)" and convert: "errors g t \<le> errors g (convert_frag g i t)"
    for i t
    using assms
    by (auto simp: settle_frag_def seed_subtype_def resolve_target_def convert_frag_def Let_def errors_grow_def
        split: option.split)
  define r where "r = relax_branches g s"
  define s1 where "s1 = fold (settle_frag g) [0..<length (frags s)] s"
  define s2 where "s2 = fold (seed_subtype g) [0..<length (frags (layout g s1))] (layout g s1)"
  have "errors g s \<le> errors g s1" unfolding s1_def by (rule fold_grows, rule settle)
  also have "errors g s1 = errors g (layout g s1)" by (simp add: errors_layout)
  also have "\<dots> \<le> errors g s2" unfolding s2_def by (rule fold_grows, rule seed)
  also have "\<dots> \<le> errors g (relax_loop g 0 s2)" by (rule errors_relax_loop [OF assms])
  finally have "errors g s \<le> errors g r"
    by (simp add: r_def relax_branches_def Let_def s1_def s2_def)
  also have "\<dots> \<le> errors g (fold (resolve_target g) [0..<length (frags r)] r)" (is "_ \<le> errors g ?t")
    by (rule fold_grows, rule target)
  also have "\<dots> \<le> errors g (fold (convert_frag g) [0..<length (frags ?t)] ?t)" (is "_ \<le> errors g ?u")
    by (rule fold_grows, rule convert)
  also have "\<dots> \<le> errors g (finalize_align_org g ?u)" by (rule errors_finalize [OF assms])
  finally show ?thesis
    by (simp add: laid_out_def Let_def errors_layout r_def)
qed

subsection \<open>The driver's contract\<close>

text \<open>What the driver needs of gas: errors leave symbols alone, and the variables of the capture are none of
  gas's. Only the count of open references needs more, of gas and of the section at hand: there
  \<open>references_settle\<close> has to hold.\<close>

definition separate_capture :: "('y, 'x) gas_api \<Rightarrow> bool" where
  "separate_capture g \<longleftrightarrow>
     (\<forall>c x. gas_now_fix g (gas_set_capture g c x) = gas_now_fix g x \<and>
        gas_had_errors g (gas_set_capture g c x) = gas_had_errors g x \<and>
        (\<forall>y. gas_is_defined g y (gas_set_capture g c x) = gas_is_defined g y x))"

definition sound_gas :: "('y, 'x) gas_api \<Rightarrow> bool" where
  "sound_gas g \<longleftrightarrow> errors_keep_symbols (gas_ops.truncate g) \<and> separate_capture g"

text \<open>The section that is handed to the fixup pass is one in which the references settle.\<close>

definition settling :: "('y, 'x) gas_api \<Rightarrow> ('y, 'x) segment \<Rightarrow> bool" where
  "settling g s \<longleftrightarrow> errors_keep_symbols (gas_ops.truncate g) \<and>
     references_settle (gas_ops.truncate g) (laid_out (gas_ops.truncate g) s)"

lemma glue_had_errors: "glue_had_errors g = errors (gas_ops.truncate g)"
  by (simp add: glue_had_errors_def errors_def gas_ops.truncate_def fun_eq_iff)

lemma glue_unsupported_reloc: "glue_unsupported_reloc = unsupported_reloc"
  by (simp add: glue_unsupported_reloc_def fun_eq_iff)

lemma truncate_fields [simp]:
  "gas_now_fix (gas_ops.truncate g) = gas_now_fix g" "gas_had_errors (gas_ops.truncate g) = gas_had_errors g"
  "gas_is_defined (gas_ops.truncate g) = gas_is_defined g" "gas_name (gas_ops.truncate g) = gas_name g"
  "gas_howto (gas_ops.truncate g) = gas_howto g"
  by (simp_all add: gas_ops.truncate_def)

lemma capture_end_keeps:
  assumes "separate_capture g"
  shows "relocs (gas_ops.truncate g) (snd (capture_window_end g s)) = relocs (gas_ops.truncate g) s"
    "section_bytes (gas_ops.truncate g) (snd (capture_window_end g s)) = section_bytes (gas_ops.truncate g) s"
    "extractable (gas_ops.truncate g) (snd (capture_window_end g s)) = extractable (gas_ops.truncate g) s"
proof -
  obtain c where t: "snd (capture_window_end g s) = on_ext (gas_set_capture g c) s"
    by (auto simp: capture_window_end_def Let_def case_prod_unfold)
  have size: "frag_fix_size (gas_ops.truncate g) (on_ext (gas_set_capture g c) s) = frag_fix_size (gas_ops.truncate g) s"
    using assms by (auto simp: frag_fix_size_def on_ext_def separate_capture_def)
  have un: "unresolved (gas_ops.truncate g) (on_ext (gas_set_capture g c) s) = unresolved (gas_ops.truncate g) s"
    using assms by (intro ext) (auto simp: unresolved_def on_ext_def separate_capture_def split: option.split)
  have entry: "reloc_entry (gas_ops.truncate g) (on_ext (gas_set_capture g c) s) = reloc_entry (gas_ops.truncate g) s"
    by (intro ext) (simp add: reloc_entry_def fixup_address_def on_ext_def)
  show "relocs (gas_ops.truncate g) (snd (capture_window_end g s)) = relocs (gas_ops.truncate g) s"
    unfolding t relocs_def by (simp add: un entry) (simp add: on_ext_def)
  have bytes: "section_bytes (gas_ops.truncate g) (on_ext (gas_set_capture g c) s) = section_bytes (gas_ops.truncate g) s"
  proof -
    have "frag_bytes (gas_ops.truncate g) (on_ext (gas_set_capture g c) s) = frag_bytes (gas_ops.truncate g) s"
      by (intro HOL.ext) (simp only: frag_bytes_def size, simp add: on_ext_def)
    then show ?thesis unfolding section_bytes_def by (simp add: on_ext_def)
  qed
  then show "section_bytes (gas_ops.truncate g) (snd (capture_window_end g s)) = section_bytes (gas_ops.truncate g) s"
    by (simp add: t)
  show "extractable (gas_ops.truncate g) (snd (capture_window_end g s)) = extractable (gas_ops.truncate g) s"
  proof -
    have "literal_ok (gas_ops.truncate g) (on_ext (gas_set_capture g c) s) = literal_ok (gas_ops.truncate g) s"
      by (intro HOL.ext) (simp only: literal_ok_def size, simp add: on_ext_def)
    then show ?thesis unfolding t extractable_def bytes by (simp add: on_ext_def)
  qed
qed

interpretation gas: assembling_glue gas_glue sound_gas settling "\<lambda>g. section_bytes (gas_ops.truncate g)"
  "\<lambda>g. relocs (gas_ops.truncate g)" "\<lambda>g. extractable (gas_ops.truncate g)"
proof
  fix p :: "('a, 'b) gas_api" and a g n g' s z buf
  show "extractable (gas_ops.truncate p) s \<Longrightarrow> g_extract_text_bytes (gas_glue p) None s
      = (length (section_bytes (gas_ops.truncate p) s), None)"
    using bytes.query by (simp add: gas_glue_def Let_def)
  show "extractable (gas_ops.truncate p) s \<Longrightarrow> length buf = length (section_bytes (gas_ops.truncate p) s) \<Longrightarrow>
      g_extract_text_bytes (gas_glue p) (Some buf) s
      = (length (section_bytes (gas_ops.truncate p) s), Some (section_bytes (gas_ops.truncate p) s))"
    using bytes.fill by (simp add: gas_glue_def Let_def)
  show "True \<Longrightarrow> g_collect_relocs (gas_glue p) None s = (length (relocs (gas_ops.truncate p) s), None)"
    using rel.query by (simp add: gas_glue_def Let_def)
  show "True \<Longrightarrow> length rbuf = length (relocs (gas_ops.truncate p) s) \<Longrightarrow>
      g_collect_relocs (gas_glue p) (Some rbuf) s
      = (length (relocs (gas_ops.truncate p) s), Some (relocs (gas_ops.truncate p) s))" for rbuf
    using rel.fill by (simp add: gas_glue_def Let_def)
  show "relocs (gas_ops.truncate p) (snd (g_end_capture (gas_glue p) g)) = relocs (gas_ops.truncate p) g"
    if "sound_gas p"
    using that capture_end_keeps(1) [of p g] by (simp add: gas_glue_def sound_gas_def Let_def)
  assume settling: "settling p g"
  assume "g_resolve_text_fixups (gas_glue p) a g = (n, g')"
  then show "n = int (length (relocs (gas_ops.truncate p) g'))"
    using settling count_is_relocs [of "gas_ops.truncate p" "laid_out (gas_ops.truncate p) g" a]
      rel.fetch_items [of "gas_ops.truncate p" null_reloc g']
    by (auto simp: gas_glue_def Let_def settling_def resolve_laid_out split: prod.splits)
qed

end
