(* ===== verification/Assemble_Gas.thy ===== *)
theory Assemble_Gas
  imports Gas_Glue
begin

text \<open>
  The driver on the glue: what a successful call of \<open>do_assemble\<close> guarantees about the bytes and
  relocations, down to the fields of the single instructions, and the rejection of labels that are
  defined twice. gas is assumed to obey the laws of theory \<open>Gas_Glue\<close>.
\<close>

subsection \<open>From source text to fixups\<close>

text \<open>The section that is handed to the fixup pass: reset, the recorded calls of the source text,
  the caller's labels.\<close>

definition loaded ::
    "('y, 'x) gas_api \<Rightarrow> string \<Rightarrow> label_definition list \<Rightarrow> bool \<Rightarrow> ('y, 'x) segment driver \<Rightarrow> ('y, 'x) segment" where
  "loaded g source ls wr st =
     (let s = fold (perform (gas_glue g)) (gas (parsed source)) (capture_window_begin g (glue_reset g (gas st)))
      in if wr then s else define_labels (gas_glue g) ls s)"

text \<open>The section in which the references are encoded, and the one the bytes are read from.\<close>

definition prepared ::
    "('y, 'x) gas_api \<Rightarrow> string \<Rightarrow> label_definition list \<Rightarrow> bool \<Rightarrow> ('y, 'x) segment driver \<Rightarrow> ('y, 'x) segment" where
  "prepared g source ls wr st =
     addends_recorded (gas_ops.truncate g) (laid_out (gas_ops.truncate g) (loaded g source ls wr st))"

definition encoded ::
    "('y, 'x) gas_api \<Rightarrow> string \<Rightarrow> u64 \<Rightarrow> label_definition list \<Rightarrow> bool \<Rightarrow> ('y, 'x) segment driver
      \<Rightarrow> ('y, 'x) segment" where
  "encoded g source a ls wr st =
     snd (resolve_text_fixups (gas_ops.truncate g) a (loaded g source ls wr st))"

lemma gas_glue_fields [simp]:
  "g_reset (gas_glue g) = glue_reset g" "g_begin_capture (gas_glue g) = capture_window_begin g"
  "g_end_capture (gas_glue g) = capture_window_end g" "g_had_errors (gas_glue g) = errors (gas_ops.truncate g)"
  "g_unsupported_reloc (gas_glue g) = unsupported_reloc" "g_define_abs (gas_glue g) = define_abs g"
  "g_resolve_text_fixups (gas_glue g) a s =
     (int (fst (resolve_text_fixups (gas_ops.truncate g) a s)), snd (resolve_text_fixups (gas_ops.truncate g) a s))"
  by (simp_all add: gas_glue_def Let_def case_prod_unfold glue_had_errors glue_unsupported_reloc)

lemma assemble_run:
  assumes "fst (do_assemble (gas_glue g) source a ls wr st) = Inr core"
  shows "gas.final g source a ls wr st = snd (capture_window_end g (encoded g source a ls wr st))"
    and "errors (gas_ops.truncate g) (loaded g source ls wr st) = errors (gas_ops.truncate g) (glue_reset g (gas st))"
proof -
  define w where "w = assemble_window (gas_glue g) source a ls wr st"
  have "verdict (gas_glue g) wr w = None"
    using assms by (simp add: do_assemble_def w_def Let_def split: option.splits)
  then have ok: "\<not> w_parse_err w" "g_directive_error (w_driver w) = []" "\<not> g_section_violation (w_driver w)"
    by (simp_all add: verdict_def Let_def split: if_splits option.splits)
  have load: "gas (if wr then parse_source (gas_glue g) source (fresh (capture_window_begin g (glue_reset g (gas st))))
      else on_gas (define_labels (gas_glue g) ls)
        (parse_source (gas_glue g) source (fresh (capture_window_begin g (glue_reset g (gas st))))))
    = loaded g source ls wr st"
    by (simp add: loaded_def parse_source_trace Let_def)
  then show errs: "errors (gas_ops.truncate g) (loaded g source ls wr st) = errors (gas_ops.truncate g) (glue_reset g (gas st))"
    using ok(1) by (simp add: w_def window_defs Let_def case_prod_unfold on_gas_fresh split: if_splits)
  show "gas.final g source a ls wr st = snd (capture_window_end g (encoded g source a ls wr st))"
    using ok load errs
    by (simp add: gas.final_def do_assemble_def Let_def encoded_def flip: w_def)
      (simp add: w_def window_defs Let_def case_prod_unfold on_gas_fresh split: if_splits)
qed

lemma capture_end_fields:
  assumes "separate_capture g"
  shows "unsupported_reloc (snd (capture_window_end g s)) = unsupported_reloc s"
    "errors (gas_ops.truncate g) (snd (capture_window_end g s)) = errors (gas_ops.truncate g) s"
  using assms
  by (simp_all add: capture_window_end_def Let_def case_prod_unfold on_ext_def errors_def separate_capture_def)

lemma assemble_clean:
  assumes "sound_gas g" "errors_grow (gas_ops.truncate g)"
    and "fst (do_assemble (gas_glue g) source a ls wr st) = Inr core"
  shows "clean_errors (gas_ops.truncate g) (prepared g source ls wr st) (encoded g source a ls wr st)"
proof -
  define o' where "o' = gas_ops.truncate g"
  define s0 where "s0 = loaded g source ls wr st"
  define p where "p = prepared g source ls wr st"
  define t where "t = encoded g source a ls wr st"
  have cap: "separate_capture g" using assms(1) by (simp add: sound_gas_def)
  have grow: "errors_grow o'" using assms(2) by (simp add: o'_def)
  have t: "t = snd (apply_text_fixups o' a (laid_out o' s0))" and p: "p = addends_recorded o' (laid_out o' s0)"
    by (simp_all add: t_def encoded_def resolve_laid_out o'_def s0_def p_def prepared_def)
  have fin: "unsupported_reloc t = None" "errors o' t = errors o' s0"
    using gas.success(1,2) [OF assms(3)] assemble_run [OF assms(3)]
    by (simp_all add: capture_end_fields [OF cap] t_def o'_def s0_def)
  have "errors o' s0 \<le> errors o' p"
    using errors_laid_out [OF grow, of s0] errors_record [OF grow, of "laid_out o' s0"] by (simp add: p)
  moreover have "errors o' p \<le> errors o' t"
    using fold_errors [of o' p a "fixups p" "fetch (extract_call o') 0 p"] grow
    by (auto simp: t p errors_grow_def apply_text_fixups_def addends_recorded_def Let_def case_prod_unfold
        encode_image_def errors_def copy_back_ext)
  ultimately have "clean_errors o' p t" using fin by (simp add: clean_errors_def)
  then show ?thesis by (simp add: o'_def p_def t_def)
qed

text \<open>\<open>bytes\<close> are those of section \<open>s\<close> with the value of every resolved reference in its field.\<close>

definition holds_references :: "('y, 'x) gas_ops \<Rightarrow> u64 \<Rightarrow> ('y, 'x) segment \<Rightarrow> byte list \<Rightarrow> bool" where
  "holds_references ops a s bytes \<longleftrightarrow>
     (let old = section_bytes ops s; refs = sites ops a s
      in list_all (site_holds old bytes) refs \<and> agree (- (\<Union>x \<in> set refs. span old x)) old bytes)"

text \<open>The relocation for a fixup that is left open.\<close>

definition reference_entry ::
    "('y, 'x) gas_api \<Rightarrow> u64 \<Rightarrow> label_definition list \<Rightarrow> ('y, 'x) segment \<Rightarrow> 'y fixup \<Rightarrow> relocation_info" where
  "reference_entry g a ls t fx =
     (let name = (case fx_addsy fx of Some y \<Rightarrow> gas_name g y | None \<Rightarrow> [])
      in \<lparr>ri_offset = a + fixup_address t fx, ri_addend = Some (fx_addnumber fx),
          ri_symbol = \<lparr>sym_name = name, sym_address = hint_address ls name\<rparr>,
          ri_relocation_type = (case gas_howto g (fx_r_type fx) of None \<Rightarrow> 0 | Some ht \<Rightarrow> h_type ht)\<rparr>)"

lemma references_encoded:
  assumes "sound_gas g" "errors_grow (gas_ops.truncate g)"
    and "fst (do_assemble (gas_glue g) source a ls wr st) = Inr core"
    and "sites_in_place (gas_ops.truncate g) a (prepared g source ls wr st)"
  shows "holds_references (gas_ops.truncate g) a (prepared g source ls wr st) (core_bytes core)"
proof -
  have ops: "counts_errors (gas_ops.truncate g)" "errors_keep_symbols (gas_ops.truncate g)" "separate_capture g"
    using assms(1,2) by (simp_all add: sound_gas_def errors_grow_def)
  have t: "encoded g source a ls wr st = snd (apply_text_fixups (gas_ops.truncate g) a
      (laid_out (gas_ops.truncate g) (loaded g source ls wr st)))"
    by (simp add: encoded_def resolve_laid_out)
  note sites = apply_sites [OF ops(1,2) prepared_def t assms(4) assemble_clean [OF assms(1-3)]]
  then have "core_bytes core = section_bytes (gas_ops.truncate g) (encoded g source a ls wr st)"
    using gas.success(4) [OF assms(3)] capture_end_keeps(2,3) [OF ops(3)]
    by (simp add: assemble_run(1) [OF assms(3)])
  then show ?thesis using sites by (simp add: holds_references_def Let_def)
qed

text \<open>In a plain call the references of the section the fixup pass starts from have to settle.\<close>

definition source_settles :: "('y, 'x) gas_api \<Rightarrow> string \<Rightarrow> label_definition list \<Rightarrow> ('y, 'x) segment driver \<Rightarrow> bool" where
  "source_settles g source ls st \<longleftrightarrow>
     references_settle (gas_ops.truncate g) (laid_out (gas_ops.truncate g) (loaded g source ls False st))"

lemma loaded_state: "gas.unresolved_state g source ls wr st = loaded g source ls wr st"
  by (simp add: gas.unresolved_state_def loaded_def on_gas_fresh parse_source_trace Let_def)

lemma references_listed:
  assumes "sound_gas g" "fst (do_assemble (gas_glue g) source a ls wr st) = Inr core"
    and "wr \<or> source_settles g source ls st"
  shows "let t = encoded g source a ls wr st; open_refs = filter (unresolved (gas_ops.truncate g) t) (fixups t)
    in if wr then core_relocations core = map (reference_entry g a ls t) open_refs
       else open_refs = [] \<and> core_relocations core = []"
proof -
  have cap: "separate_capture g" using assms(1) by (simp add: sound_gas_def)
  have settling: "\<not> wr \<Longrightarrow> settling g (gas.unresolved_state g source ls wr st)"
    using assms(1,3) unfolding loaded_state by (auto simp: settling_def source_settles_def sound_gas_def)
  note ok = gas.success(3,5) [OF assms(2)]
  show ?thesis
    using ok assms(1) settling unfolding assemble_run(1) [OF assms(2)] capture_end_keeps(1) [OF cap]
    by (auto simp: Let_def relocs_def relocation_of_def reloc_entry_def reference_entry_def split: option.split)
qed

text \<open>When a call succeeds, every reference to a symbol that is defined, in the source or by a
  label, is encoded in the bytes that are returned: the field at its site reads as the value
  computed from symbol, addend and base address, an instruction keeps all its other bits, and
  every byte outside the sites is what gas produced.\<close>

theorem assembled_references_encoded:
  assumes "sound_gas g" "errors_grow (gas_ops.truncate g)"
    and "fst (do_assemble (gas_glue g) source a ls wr st) = Inr core"
    and "sites_in_place (gas_ops.truncate g) a (prepared g source ls wr st)"
  shows "let old = section_bytes (gas_ops.truncate g) (prepared g source ls wr st);
      refs = sites (gas_ops.truncate g) a (prepared g source ls wr st)
    in list_all (site_holds old (core_bytes core)) refs \<and>
       agree (- (\<Union>x \<in> set refs. span old x)) old (core_bytes core)"
  using references_encoded [OF assms] by (simp add: holds_references_def)

text \<open>A plain call never returns bytes with an open reference: on success no fixup is left to
  an undefined symbol. With relocations, each fixup that is left yields one entry, in order, at the
  base address plus the address of its frag plus its offset, with gas's addend and, as hint, the
  address of the first label of its name.\<close>

theorem assembled_relocations:
  assumes "sound_gas g" "fst (do_assemble (gas_glue g) source a ls wr st) = Inr core"
    and "wr \<or> source_settles g source ls st"
  shows "let ops = gas_ops.truncate g; t = encoded g source a ls wr st;
      open_refs = filter (unresolved ops t) (fixups t)
    in if wr then core_relocations core = map (\<lambda>fx.
           \<lparr>ri_offset = a + fixup_address t fx, ri_addend = Some (fx_addnumber fx),
            ri_symbol = (let name = (case fx_addsy fx of Some y \<Rightarrow> gas_name g y | None \<Rightarrow> [])
              in \<lparr>sym_name = name, sym_address = hint_address ls name\<rparr>),
            ri_relocation_type = (case gas_howto g (fx_r_type fx) of None \<Rightarrow> 0 | Some ht \<Rightarrow> h_type ht)\<rparr>) open_refs
       else open_refs = [] \<and> core_relocations core = []"
  using references_listed [OF assms] by (cases wr) (simp_all add: reference_entry_def [abs_def] Let_def)

subsection \<open>A concrete gas\<close>

text \<open>The branch of theory \<open>Write_Back\<close> as what \<open>md_assemble\<close> leaves behind; symbol 8 is a local
  label, 500 an undefined one, and a line \<open>j ext\<close> refers to the latter.\<close>

definition branch_to :: "nat \<Rightarrow> (nat, int) segment" where
  "branch_to y = branch_section\<lparr>fixups := map (\<lambda>fx. fx\<lparr>fx_addsy := Some y\<rparr>) (fixups branch_section)\<rparr>"

definition sample_api :: "(nat, int) gas_api" where
  "sample_api = gas_ops.extend branch_gas \<lparr>
     gas_symbol_end = (\<lambda>s. s), gas_symbol_begin = (\<lambda>s. s), gas_restart_obstack = (\<lambda>_ _ x. x),
     gas_chains = (\<lambda>_ _. None), gas_set_chains = (\<lambda>_ _ x. x),
     gas_select_text = (\<lambda>x. x), gas_colon = (\<lambda>_ s. s),
     gas_symbol_find = (\<lambda>name _. if name = ''local'' then Some 8 else None),
     gas_set_absolute = (\<lambda>_ x. x), gas_set_value = (\<lambda>_ _ x. x),
     gas_symbol_new_absolute = (\<lambda>_ _ x. (300, x)), gas_symbol_table_insert = (\<lambda>_ x. x),
     gas_line_pointer = (\<lambda>_. None), gas_set_line_pointer = (\<lambda>_ x. x),
     gas_equals = (\<lambda>_ _ s. s), gas_cons = (\<lambda>_ s. s),
     gas_fb_label_instance_inc = (\<lambda>_ x. x), gas_fb_label_name = (\<lambda>_ _ _. ''1''),
     gas_md_assemble = (\<lambda>line _. branch_to (if line = ''j ext'' then 500 else 8)),
     gas_frag_more = (\<lambda>_ s. ((0, 0), s)), gas_frag_align = (\<lambda>_ _ _ s. s),
     gas_frag_var = (\<lambda>_ _ _ _ _ _ s. ((0, 0), s)),
     gas_capture = (\<lambda>_. idle_capture), gas_set_capture = (\<lambda>_ x. x), c_fopencookie = True\<rparr>"

lemma sample_api_ops: "gas_ops.truncate sample_api = branch_gas"
  by (simp add: sample_api_def gas_ops.truncate_def gas_ops.extend_def branch_gas_def)

lemma sample_api_sound: "sound_gas sample_api" "errors_grow (gas_ops.truncate sample_api)"
proof -
  have "separate_capture sample_api"
    by (simp add: separate_capture_def sample_api_def gas_ops.extend_def)
  then show "sound_gas sample_api"
    by (simp add: sound_gas_def sample_api_ops branch_gas_keeps)
  show "errors_grow (gas_ops.truncate sample_api)"
    unfolding sample_api_ops by (simp add: errors_grow_def counts_errors_def errors_def branch_gas_def sample_gas_def)
qed

lemma sample_settles: "source_settles sample_api source ls st"
  by (simp add: source_settles_def sample_api_ops branch_settles)

lemma sample_local:
  "fst (do_assemble (gas_glue sample_api) ''j local'' 0x1000 [] False (fresh branch_section))
     = Inr \<lparr>core_bytes = [0x1d, 0, 4, 0, 9, 9, 9, 9], core_relocations = []\<rparr>"
  by code_simp

lemma sample_ext:
  "fst (do_assemble (gas_glue sample_api) ''j ext'' 0x1000 [\<lparr>l_name = ''sym'', l_address = 0x44\<rparr>] True (fresh branch_section))
     = Inr \<lparr>core_bytes = [0x1d, 0, 0, 0, 9, 9, 9, 9], core_relocations =
         [\<lparr>ri_offset = 0x1000, ri_addend = Some 0, ri_symbol = \<lparr>sym_name = ''sym'', sym_address = 0x44\<rparr>,
           ri_relocation_type = 3\<rparr>]\<rparr>"
  by code_simp

lemma sample_prepared: "prepared sample_api ''j local'' [] False (fresh branch_section) = branch_section"
  by code_simp

theorem assembled_references_encoded_witness:
  "fst (do_assemble (gas_glue sample_api) ''j local'' 0x1000 [] False (fresh branch_section))
     = Inr \<lparr>core_bytes = [0x1d, 0, 4, 0, 9, 9, 9, 9], core_relocations = []\<rparr> \<and>
   site_holds [0x1d, 0, 0, 0, 9, 9, 9, 9] [0x1d, 0, 4, 0, 9, 9, 9, 9] (0, branch_howto, 8)"
  using assembled_references_encoded [OF sample_api_sound sample_local] sample_local
  by (simp add: sample_prepared sample_api_ops branch_place branch_bytes branch_sites Let_def)

theorem assembled_relocations_witness:
  "(let t = encoded sample_api ''j local'' 0x1000 [] False (fresh branch_section)
    in filter (unresolved branch_gas t) (fixups t) = []) \<and>
   length (let t = encoded sample_api ''j ext'' 0x1000 [\<lparr>l_name = ''sym'', l_address = 0x44\<rparr>] True (fresh branch_section)
    in filter (unresolved branch_gas t) (fixups t)) = 1"
proof -
  have "length (let t = encoded sample_api ''j ext'' 0x1000 [\<lparr>l_name = ''sym'', l_address = 0x44\<rparr>] True (fresh branch_section)
    in map f (filter (unresolved branch_gas t) (fixups t))) = 1"
    if "[r] = (let t = encoded sample_api ''j ext'' 0x1000 [\<lparr>l_name = ''sym'', l_address = 0x44\<rparr>] True (fresh branch_section)
    in map f (filter (unresolved branch_gas t) (fixups t)))" for f and r :: relocation_info
    using that by (metis length_Cons list.size(3) One_nat_def)
  then show ?thesis
    using assembled_relocations [OF sample_api_sound(1) sample_local]
      assembled_relocations [OF sample_api_sound(1) sample_ext]
    by (simp add: Let_def sample_api_ops sample_settles)
qed

subsection \<open>A forward \<open>.equ\<close>\<close>

text \<open>A gas with symbols that are defined when they are resolved: its state has the number of errors and
  the symbols whose section has been set. Symbol 12 is one that an \<open>.equ\<close> equates to a label further down, at
  offset 4; a line \<open>j tgt\<close> jumps there. This is the test \<open>.equ forward label\<close> of
  \<^verbatim>\<open>src/tests/tests.cpp\<close>.\<close>

definition equ_ops :: "(nat, int \<times> nat list) gas_ops" where
  "equ_ops = \<lparr>
     gas_now_fix = (\<lambda>_. 0), gas_as_bad = (\<lambda>_ (n, ys). (n + 1, ys)), gas_had_errors = fst,
     gas_value = (\<lambda>y _. if y = 12 then 4 else 0), gas_in_text = (\<lambda>y x. y = 12 \<and> y \<in> set (snd x)),
     gas_is_defined = (\<lambda>y x. y = 12 \<and> y \<in> set (snd x)), gas_name = (\<lambda>_. ''tgt''),
     gas_resolve_value = (\<lambda>y s. s\<lparr>ext := (fst (ext s), y # snd (ext s))\<rparr>), gas_pcrel_from = (\<lambda>fx _. fx_where fx),
     gas_md_apply_fix = (\<lambda>_ _ s. s), gas_md_convert_frag = (\<lambda>_ s. s), gas_relax_segment = (\<lambda>_ s. (False, s)),
     gas_rlx_more = (\<lambda>_. 0), gas_howto = (\<lambda>_. Some branch_howto), c_malloc = (\<lambda>_. True)\<rparr>"

definition equ_section :: "(nat, int \<times> nat list) segment" where
  "equ_section = \<lparr>
     frags = [sample_frag Rs_fill 0 [0x1d, 0, 0, 0, 0, 0]], tails = [0], frag_now = 1,
     fixups = [\<lparr>fx_frag = 0, fx_where = 0, fx_addsy = Some 12, fx_offset = 0, fx_pcrel = True,
       fx_done = False, fx_addnumber = 0, fx_r_type = 0\<rparr>],
     unsupported_reloc = None, ext = (0, [])\<rparr>"

definition equ_api :: "(nat, int \<times> nat list) gas_api" where
  "equ_api = gas_ops.extend equ_ops \<lparr>
     gas_symbol_end = (\<lambda>s. s), gas_symbol_begin = (\<lambda>s. s), gas_restart_obstack = (\<lambda>_ _ x. x),
     gas_chains = (\<lambda>_ _. None), gas_set_chains = (\<lambda>_ _ x. x),
     gas_select_text = (\<lambda>x. x), gas_colon = (\<lambda>_ s. s),
     gas_symbol_find = (\<lambda>_ _. None),
     gas_set_absolute = (\<lambda>_ x. x), gas_set_value = (\<lambda>_ _ x. x),
     gas_symbol_new_absolute = (\<lambda>_ _ x. (300, x)), gas_symbol_table_insert = (\<lambda>_ x. x),
     gas_line_pointer = (\<lambda>_. None), gas_set_line_pointer = (\<lambda>_ x. x),
     gas_equals = (\<lambda>_ _ s. s), gas_cons = (\<lambda>_ s. s),
     gas_fb_label_instance_inc = (\<lambda>_ x. x), gas_fb_label_name = (\<lambda>_ _ _. ''1''),
     gas_md_assemble = (\<lambda>line s. if line = ''j tgt'' then equ_section else s),
     gas_frag_more = (\<lambda>_ s. ((0, 0), s)), gas_frag_align = (\<lambda>_ _ _ s. s),
     gas_frag_var = (\<lambda>_ _ _ _ _ _ s. ((0, 0), s)),
     gas_capture = (\<lambda>_. idle_capture), gas_set_capture = (\<lambda>_ x. x), c_fopencookie = True\<rparr>"

lemma equ_api_ops: "gas_ops.truncate equ_api = equ_ops"
  by (simp add: equ_api_def gas_ops.truncate_def gas_ops.extend_def equ_ops_def)

lemma equ_sound: "sound_gas equ_api" "errors_grow (gas_ops.truncate equ_api)"
proof -
  have "separate_capture equ_api"
    by (simp add: separate_capture_def equ_api_def gas_ops.extend_def)
  moreover have "errors_keep_symbols equ_ops"
    by (simp add: errors_keep_symbols_def same_symbols_def same_but_def as_bad_def set_unsupported_def equ_ops_def
        case_prod_unfold)
  ultimately show "sound_gas equ_api" by (simp add: sound_gas_def equ_api_ops)
  show "errors_grow (gas_ops.truncate equ_api)"
    unfolding equ_api_ops
    by (simp add: errors_grow_def counts_errors_def errors_def as_bad_def equ_ops_def case_prod_unfold)
qed

lemma equ_settles: "references_settle equ_ops s"
proof -
  have later: "set (snd (ext t)) \<subseteq> set (snd (ext u))" if "(pass_step equ_ops)\<^sup>*\<^sup>* t u" for t u
    using that
  proof (induction rule: rtranclp_induct)
    case (step u v)
    from step(2) have "set (snd (ext u)) \<subseteq> set (snd (ext v))"
      by cases (auto simp: equ_ops_def)
    then show ?case using step(3) by blast
  qed simp
  have "decided equ_ops y (gas_resolve_value equ_ops y t)" for y t
    unfolding decided_def
  proof (intro allI impI)
    fix u assume "(pass_step equ_ops)\<^sup>*\<^sup>* (gas_resolve_value equ_ops y t) u"
    from later [OF this] have "y \<in> set (snd (ext u))" by (simp add: equ_ops_def)
    then show "gas_is_defined equ_ops y (ext u) = gas_is_defined equ_ops y (ext (gas_resolve_value equ_ops y t))"
      by (simp add: equ_ops_def)
  qed
  then show ?thesis
    by (simp add: references_settle_def resolving_decides_def fixes_are_local_def)
      (simp add: equ_ops_def)
qed

definition equ_source :: string where
  "equ_source = ''.equ tgt, after'' @ NEWLINE # '' j tgt'' @ NEWLINE # ''after: nop'' @ [NEWLINE]"

lemma equ_assembled:
  "fst (do_assemble (gas_glue equ_api) equ_source 0x1000 [] False (fresh equ_section))
     = Inr \<lparr>core_bytes = [0x1d, 0, 2, 0, 0, 0], core_relocations = []\<rparr>"
  by code_simp

definition equ_prepared :: "(nat, int \<times> nat list) segment" where
  "equ_prepared = equ_section\<lparr>ext := (0, [12])\<rparr>"

lemma equ_prepared: "prepared equ_api equ_source [] False (fresh equ_section) = equ_prepared"
  by code_simp

lemma equ_place: "sites_in_place equ_ops 0x1000 equ_prepared"
proof -
  have unit: "unit_filled equ_ops equ_prepared" by code_simp
  have bytes: "section_bytes equ_ops equ_prepared = [0x1d, 0, 0, 0, 0, 0]" by code_simp
  have "extractable equ_ops equ_prepared"
    by (rule unit_filled_extractable [OF unit]) (simp only: bytes, simp)
  moreover have "fills_behind equ_ops equ_prepared" by code_simp
  moreover have "sites equ_ops 0x1000 equ_prepared = [(0, branch_howto, 4)]" by code_simp
  moreover have "c_malloc equ_ops n" for n by (simp add: equ_ops_def)
  moreover have "frag_fix_size equ_ops equ_prepared 0 = 6" "length (frags equ_prepared) = 1" by code_simp+
  ultimately show ?thesis
    by (simp add: sites_in_place_def bytes apart_def span_def site_width_def plain_width_def
        form_suffix_def insn_len_def fixed_positions_def offset_of_def lessThan_Suc branch_howto_def)
qed

end
