(* ===== verification/Gas_Steps.thy ===== *)
theory Gas_Steps
  imports Assemble_Gas
begin

text \<open>
  What the glue does to gas: every function of \<^verbatim>\<open>src/src/nyxstone_glue.c\<close> and the whole
  of \<open>do_assemble\<close> changes gas's own state by calls into gas and by nothing else. The calls are the
  steps of a transition relation, so a property of gas's state that each single step keeps, such as
  a counter that never falls or a stream that is left in place, is kept by every call of the library.
\<close>

text \<open>The calls the parse phase and the fixup pass make. gas works on the section and on its own
  state; the relation is about the latter.\<close>

inductive gas_step :: "('y, 'x) gas_api \<Rightarrow> 'x \<Rightarrow> 'x \<Rightarrow> bool" for g where
  As_bad: "gas_step g x (gas_as_bad g msg x)"
| Resolve_value: "gas_step g (ext s) (ext (gas_resolve_value g y s))"
| Apply_fix: "gas_step g (ext s) (ext (gas_md_apply_fix g j v s))"
| Convert_frag: "gas_step g (ext s) (ext (gas_md_convert_frag g i s))"
| Relax_segment: "gas_step g (ext s) (ext (snd (gas_relax_segment g p s)))"
| Colon_step: "gas_step g (ext s) (ext (gas_colon g name s))"
| Set_absolute: "gas_step g x (gas_set_absolute g y x)"
| Set_value_step: "gas_step g x (gas_set_value g y v x)"
| New_absolute: "gas_step g x (snd (gas_symbol_new_absolute g name v x))"
| Table_insert: "gas_step g x (gas_symbol_table_insert g y x)"
| Set_line: "gas_step g x (gas_set_line_pointer g line x)"
| Equals: "gas_step g (ext s) (ext (gas_equals g name b s))"
| Cons_step: "gas_step g (ext s) (ext (gas_cons g n s))"
| Instance_inc: "gas_step g x (gas_fb_label_instance_inc g k x)"
| Md_assemble_step: "gas_step g (ext s) (ext (gas_md_assemble g line s))"
| Frag_more: "gas_step g (ext s) (ext (snd (gas_frag_more g sz s)))"
| Frag_align: "gas_step g (ext s) (ext (gas_frag_align g a b c s))"
| Frag_var: "gas_step g (ext s) (ext (snd (gas_frag_var g t m n k y v s)))"

abbreviation gas_steps :: "('y, 'x) gas_api \<Rightarrow> 'x \<Rightarrow> 'x \<Rightarrow> bool" where
  "gas_steps g \<equiv> (gas_step g)\<^sup>*\<^sup>*"

text \<open>The calls of the reset, made before the diagnostics are captured.\<close>

inductive reset_step :: "('y, 'x) gas_api \<Rightarrow> 'x \<Rightarrow> 'x \<Rightarrow> bool" for g where
  Symbol_end_step: "reset_step g (ext s) (ext (gas_symbol_end g s))"
| Symbol_begin_step: "reset_step g (ext s) (ext (gas_symbol_begin g s))"
| Restart_obstack: "reset_step g x (gas_restart_obstack g seg i x)"
| Set_chains: "reset_step g x (gas_set_chains g seg c x)"
| Select_text: "reset_step g x (gas_select_text g x)"

text \<open>\<open>moves g s t\<close>: from section \<open>s\<close> to section \<open>t\<close> gas's state takes steps only.\<close>

definition moves :: "('y, 'x) gas_api \<Rightarrow> ('y, 'x) segment \<Rightarrow> ('y, 'x) segment \<Rightarrow> bool" where
  "moves g s t \<longleftrightarrow> gas_steps g (ext s) (ext t)"

named_theorems move_rules

lemma moves_refl [simp, move_rules]: "moves g s s"
  by (simp add: moves_def)

lemma moves_trans: "moves g s t \<Longrightarrow> moves g t u \<Longrightarrow> moves g s u"
  by (simp add: moves_def)

lemma moves_ext: "ext t = ext s \<Longrightarrow> moves g s t"
  by (simp add: moves_def)

lemma moves_step: "gas_step g (ext s) (ext t) \<Longrightarrow> moves g s t"
  by (simp add: moves_def)

lemma moves_fold: "(\<And>x s. moves g s (f x s)) \<Longrightarrow> moves g s (fold f xs s)"
  by (induction xs arbitrary: s) (auto intro: moves_trans)

lemma moves_fold_snd:
  assumes "\<And>x p. moves g (snd p) (snd (f x p))"
  shows "moves g (snd p) (snd (fold f xs p))"
proof (induction xs arbitrary: p)
  case (Cons x xs)
  show ?case using moves_trans [OF assms Cons.IH [of "f x p"]] by simp
qed simp

lemma moves_update [move_rules]: "moves g s (update_frag i f s)" "moves g s (s\<lparr>unsupported_reloc := u\<rparr>)"
  by (simp_all add: moves_ext update_frag_def)

lemmas moves_calls [move_rules] =
  moves_step [OF Resolve_value] moves_step [OF Apply_fix] moves_step [OF Convert_frag]
  moves_step [OF Relax_segment] moves_step [OF Colon_step] moves_step [OF Equals] moves_step [OF Cons_step]
  moves_step [OF Md_assemble_step] moves_step [OF Frag_more] moves_step [OF Frag_align] moves_step [OF Frag_var]

lemma moves_on_ext: "gas_step g (ext s) (f (ext s)) \<Longrightarrow> moves g s (on_ext f s)"
  by (simp add: moves_step on_ext_def)

subsection \<open>The parse phase\<close>

lemma moves_with_line:
  assumes "\<And>s. moves g s (f s)"
  shows "moves g s (with_line g line f s)"
proof -
  have line: "moves g t (on_ext (gas_set_line_pointer g p) t)" for p t
    by (rule moves_on_ext) (rule Set_line)
  show ?thesis
    unfolding with_line_def Let_def by (rule moves_trans [OF moves_trans [OF line assms] line])
qed

lemma moves_perform: "moves g s (perform (gas_glue g) call s)"
proof (cases call)
  case (Fb_label n)
  have "moves g s (on_ext (gas_fb_label_instance_inc g n) s)" by (rule moves_on_ext) (rule gas_step.intros)
  then show ?thesis
    by (auto simp: Fb_label gas_glue_def fb_label_def Let_def intro: moves_trans move_rules)
next
  case (Emit_bytes bs)
  have "moves g s (poke q bs (snd (gas_frag_more g n s)))" for q n
    unfolding poke_def by (blast intro: moves_trans move_rules)
  then show ?thesis
    by (simp add: Emit_bytes gas_glue_def emit_bytes_def Let_def case_prod_unfold)
next
  case (Org t f)
  have "moves g s (poke q b (snd (gas_frag_var g Rs_org 1 1 0 None t s)))" for q b
    unfolding poke_def by (blast intro: moves_trans move_rules)
  then show ?thesis
    by (simp add: Org gas_glue_def glue_org_def Let_def case_prod_unfold)
qed (auto simp: gas_glue_def glue_colon_def glue_md_assemble_def emit_cons_def set_sym_def glue_align_def Let_def
    intro: move_rules moves_with_line)

lemma moves_define_abs: "moves g s (define_abs g name v s)"
proof -
  have bad: "moves g s (on_ext (gas_as_bad g m) s)" and abs: "moves g s (on_ext (gas_set_absolute g y) s)"
    and val: "moves g s (on_ext (gas_set_value g y w) s)" and ins: "moves g s (on_ext (gas_symbol_table_insert g y) s)"
    and new: "moves g s (s\<lparr>ext := snd (gas_symbol_new_absolute g name v (ext s))\<rparr>)" for s m y w
    by (rule moves_on_ext, rule As_bad Set_absolute Set_value_step Table_insert)+
      (simp add: moves_def New_absolute r_into_rtranclp)
  show ?thesis
    by (auto simp: define_abs_def case_prod_unfold Let_def split: option.split
        intro: bad moves_trans [OF abs val] moves_trans [OF new ins])
qed

lemma moves_loaded:
  "moves g (capture_window_begin g (glue_reset g (gas st))) (loaded g source ls wr st)"
proof -
  let ?s = "capture_window_begin g (glue_reset g (gas st))"
  let ?t = "fold (perform (gas_glue g)) (gas (parsed source)) ?s"
  have "moves g ?s ?t" by (rule moves_fold) (rule moves_perform)
  moreover have "moves g ?t (define_labels (gas_glue g) ls ?t)"
    unfolding define_labels_def by (rule moves_fold) (simp add: moves_define_abs)
  ultimately show ?thesis
    by (auto simp: loaded_def Let_def intro: moves_trans)
qed


subsection \<open>The fixup pass\<close>

lemma truncate_calls [simp]:
  "gas_as_bad (gas_ops.truncate g) = gas_as_bad g" "gas_resolve_value (gas_ops.truncate g) = gas_resolve_value g"
  "gas_md_apply_fix (gas_ops.truncate g) = gas_md_apply_fix g"
  "gas_md_convert_frag (gas_ops.truncate g) = gas_md_convert_frag g"
  "gas_relax_segment (gas_ops.truncate g) = gas_relax_segment g"
  by (simp_all add: gas_ops.truncate_def)

lemma moves_as_bad [move_rules]: "moves g s (as_bad (gas_ops.truncate g) msg s)"
  by (simp add: moves_def as_bad_def As_bad r_into_rtranclp)

lemma moves_layout [move_rules]: "moves g s (layout (gas_ops.truncate g) s)"
  by (rule moves_ext) (simp add: layout_addresses)

lemma moves_finalize: "moves g s (finalize_align_org (gas_ops.truncate g) s)"
proof -
  let ?o = "gas_ops.truncate g"
  have settle: "moves g s (update_frag i f (as_bad ?o m (update_frag j h s)))" for s i j f h m
    by (rule moves_trans [OF moves_trans [OF moves_update(1) moves_as_bad] moves_update(1)])
  have settle': "moves g s (update_frag i f (update_frag j h s))" for s i j f h
    by (rule moves_trans [OF moves_update(1) moves_update(1)])
  have "moves g (snd p) (snd (finalize_frag ?o i p))" for i p
    by (cases p) (auto simp: finalize_frag_def Let_def settle settle' moves_update)
  then show ?thesis
    unfolding finalize_align_org_def using moves_fold_snd [of g "finalize_frag ?o" "(0, s)"] by simp
qed

lemma moves_relax_loop: "moves g s (relax_loop (gas_ops.truncate g) pass s)"
proof (induction "32 - pass" arbitrary: pass s rule: less_induct)
  case less
  show ?case
    using moves_calls(4) [of g s pass] less [of "Suc pass" "snd (gas_relax_segment g pass s)"]
    by (subst relax_loop.simps) (auto simp: case_prod_unfold Let_def intro: moves_trans)
qed

lemma moves_laid_out: "moves g s (laid_out (gas_ops.truncate g) s)"
proof -
  let ?o = "gas_ops.truncate g"
  have steps: "moves g t (settle_frag ?o i t)" "moves g t (seed_subtype ?o i t)" "moves g t (resolve_target ?o i t)"
    "moves g t (convert_frag ?o i t)" for t i
    by (auto simp: settle_frag_def seed_subtype_def resolve_target_def convert_frag_def Let_def
        intro: move_rules split: option.split)
  note folds = steps [THEN moves_fold]
  have "moves g s (relax_branches ?o s)"
    unfolding relax_branches_def Let_def
    by (auto intro: moves_trans [OF moves_trans [OF moves_trans [OF folds(1) moves_layout] folds(2)] moves_relax_loop])
  then show ?thesis
    unfolding laid_out_def Let_def
    by (rule moves_trans [OF moves_trans [OF moves_trans [OF moves_trans [OF _ folds(3)] folds(4)] moves_finalize]
          moves_layout])
qed

lemma moves_recorded: "moves g s (snd (fold (record_addend (gas_ops.truncate g)) js (n, s\<lparr>unsupported_reloc := u\<rparr>)))"
proof -
  let ?o = "gas_ops.truncate g"
  have "moves g (snd p) (snd (record_addend ?o j p))" for j p
    by (cases p) (auto simp: record_addend_def Let_def move_rules intro: moves_trans [OF moves_calls(1) moves_calls(2)]
        split: option.split)
  then show ?thesis
    using moves_trans [OF moves_update(2) moves_fold_snd [of g "record_addend ?o" "(n, s\<lparr>unsupported_reloc := u\<rparr>)", simplified]]
    by blast
qed

lemma moves_resolve: "moves g s (snd (resolve_text_fixups (gas_ops.truncate g) a s))"
proof -
  let ?o = "gas_ops.truncate g"
  let ?t = "laid_out ?o s"
  let ?r = "fold (record_addend ?o) [0..<length (fixups ?t)] (0, ?t\<lparr>unsupported_reloc := None\<rparr>)"
  have unsup: "moves g t (set_unsupported m t)" for t m
    by (simp add: set_unsupported_def moves_update)
  have "moves g (snd p) (snd (encode_fixup ?o a fx p))" for fx p
    by (cases p) (auto simp: encode_fixup_def Let_def unsup moves_as_bad split: option.split encode_rc.split prod.split)
  then have image: "moves g t (snd (encode_image ?o a buf t))" for buf t
    unfolding encode_image_def using moves_fold_snd [of g "encode_fixup ?o a" "(buf, t)"] by simp
  have copy: "moves g t (copy_back ?o buf t)" for buf t
    by (rule moves_ext) (simp add: copy_back_ext)
  have "moves g (snd ?r) (snd (apply_text_fixups ?o a ?t))"
    by (auto simp: apply_text_fixups_def Let_def case_prod_unfold intro: moves_trans [OF image copy])
  then show ?thesis
    unfolding resolve_laid_out
    by (rule moves_trans [OF moves_trans [OF moves_laid_out moves_recorded]])
qed

end
