(* ===== verification/Silent.thy ===== *)
theory Silent
  imports Gas_Steps
begin

text \<open>
  A call of \<open>do_assemble\<close> never lets gas write to the \<open>stderr\<close> of the host process, and always
  gives the stream back. gas prints when it likes: the hypothesis is only that the output of each
  single call into gas goes to \<open>stderr\<close>, and that none of it replaces the stream.
\<close>

definition prints_only :: "reallocator \<Rightarrow> ('y, 'x) gas_api \<Rightarrow> bool" where
  "prints_only realloc g \<longleftrightarrow>
     (\<forall>x x'. gas_step g x x' \<longrightarrow> (\<exists>ts. prints realloc ts (gas_capture g x) = Some (gas_capture g x'))) \<and>
     (\<forall>x x'. reset_step g x x' \<longrightarrow> gas_capture g x' = gas_capture g x) \<and>
     (\<forall>c x. gas_capture g (gas_set_capture g c x) = c)"

abbreviation capture_of :: "('y, 'x) gas_api \<Rightarrow> ('y, 'x) segment \<Rightarrow> capture" where
  "capture_of g s \<equiv> gas_capture g (ext s)"

subsection \<open>The reset\<close>

lemma reset_other_steps: "(reset_step g)\<^sup>*\<^sup>* x (reset_other g seg x)"
proof -
  have "(reset_step g)\<^sup>*\<^sup>* y (fold (gas_restart_obstack g seg) is y)" for "is" y
    by (induction "is" arbitrary: y) (auto intro: converse_rtranclp_into_rtranclp Restart_obstack)
  then show ?thesis
    by (auto simp: reset_other_def Let_def split: option.split intro: rtranclp.rtrancl_into_rtrancl Set_chains)
qed

lemma reset_steps: "(reset_step g)\<^sup>*\<^sup>* (ext s) (ext (glue_reset g s))"
proof -
  let ?r = "(reset_step g)\<^sup>*\<^sup>*"
  let ?s1 = "gas_symbol_begin g (gas_symbol_end g s)"
  let ?x2 = "fold (gas_restart_obstack g ''.text'') [0..<length (tails ?s1)] (ext ?s1)"
  let ?x3 = "reset_other g ''.data'' ?x2"
  let ?x4 = "reset_other g ''.bss'' ?x3"
  have one: "reset_step g x y \<Longrightarrow> ?r x y" for x y by (rule r_into_rtranclp)
  have tr: "?r x y \<Longrightarrow> ?r y z \<Longrightarrow> ?r x z" for x y z by (rule rtranclp_trans)
  have obs: "?r x (fold (gas_restart_obstack g ''.text'') is x)" for "is" x
    by (induction "is" arbitrary: x) (auto intro: converse_rtranclp_into_rtranclp Restart_obstack)
  have "?r (ext s) (ext ?s1)" by (rule tr [OF one [OF Symbol_end_step] one [OF Symbol_begin_step]])
  then have "?r (ext s) ?x2" by (rule tr [OF _ obs])
  then have "?r (ext s) ?x3" by (rule tr [OF _ reset_other_steps])
  then have *: "?r (ext s) ?x4" by (rule tr [OF _ reset_other_steps])
  have **: "?r (ext s) (gas_select_text g ?x4)" by (rule tr [OF * one [OF Select_text]])
  show ?thesis using * ** by (simp add: glue_reset_def reset_section_def Let_def on_ext_def)
qed

lemma capture_of_reset: "prints_only realloc g \<Longrightarrow> capture_of g (glue_reset g s) = capture_of g s"
proof -
  assume p: "prints_only realloc g"
  have "(reset_step g)\<^sup>*\<^sup>* x y \<Longrightarrow> gas_capture g y = gas_capture g x" for x y
    by (induction rule: rtranclp_induct) (use p in \<open>auto simp: prints_only_def\<close>)
  then show ?thesis using reset_steps by blast
qed

subsection \<open>The window\<close>

lemma prints_append:
  "prints realloc (ts @ us) s = (case prints realloc ts s of None \<Rightarrow> None | Some s' \<Rightarrow> prints realloc us s')"
  by (induction ts arbitrary: s) (auto split: option.split)

lemma steps_print:
  assumes "prints_only realloc g" "gas_steps g x y"
  shows "\<exists>ts. prints realloc ts (gas_capture g x) = Some (gas_capture g y)"
  using assms(2)
proof (induction rule: rtranclp_induct)
  case base
  show ?case by (rule exI [of _ "[]"]) simp
next
  case (step y z)
  then obtain ts us where "prints realloc ts (gas_capture g x) = Some (gas_capture g y)"
    "prints realloc us (gas_capture g y) = Some (gas_capture g z)"
    using assms(1) unfolding prints_only_def by blast
  then have "prints realloc (ts @ us) (gas_capture g x) = Some (gas_capture g z)"
    by (simp add: prints_append)
  then show ?case by blast
qed

text \<open>The parse phase and the fixup pass take gas from the beginning of the window to its end.\<close>

lemma assemble_window_moves:
  obtains s where "moves g (capture_window_begin g (glue_reset g (gas st))) s"
    and "gas (snd (do_assemble (gas_glue g) source a ls wr st)) = snd (capture_window_end g s)"
    and "w_diag (assemble_window (gas_glue g) source a ls wr st) = clean_gas_diag (fst (capture_window_end g s))"
proof -
  let ?gl = "gas_glue g"
  let ?b = "capture_window_begin g (glue_reset g (gas st))"
  let ?w = "assemble_window ?gl source a ls wr st"
  have start: "on_gas (g_begin_capture ?gl) (fresh (g_reset ?gl (gas st))) = fresh ?b"
    by (simp add: on_gas_fresh)
  define t where "t = (if wr then parse_source ?gl source (fresh ?b)
    else on_gas (define_labels ?gl ls) (parse_source ?gl source (fresh ?b)))"
  define l where "l = loaded g source ls wr st"
  have load: "gas t = l"
    by (simp add: t_def l_def loaded_def parse_source_trace Let_def)
  define r where "r = (if g_had_errors ?gl l = g_had_errors ?gl (glue_reset g (gas st)) \<and>
    \<not> g_section_violation t \<and> g_directive_error t = [] then g_resolve_text_fixups ?gl a l else (0, l))"
  have "moves g l (snd r)"
    using moves_resolve [of g l a] by (simp add: r_def)
  then have m: "moves g ?b (snd r)" using moves_trans [OF moves_loaded] by (simp add: l_def)
  have "gas (w_driver ?w) = snd (capture_window_end g (snd r)) \<and>
      w_diag ?w = clean_gas_diag (fst (capture_window_end g (snd r)))"
    unfolding window_defs Let_def case_prod_unfold start t_def [symmetric] r_def by (simp add: load)
  then show ?thesis using that [OF m] by (simp add: do_assemble_def Let_def)
qed

subsection \<open>The host's stream\<close>

lemma print_keeps_ok:
  assumes "reallocates realloc" "capture_ok h s" "print_stderr realloc t s = Some s'"
  shows "capture_ok h s'"
proof (cases "stderr s")
  case Cap_stream
  obtain log where "growbuf_append realloc t (caplog s) = Some log" "wf_buf log"
    using log_buf.add_keeps [OF assms(1), of "caplog s" t] assms(2) by (auto simp: capture_ok_def)
  then show ?thesis
    using assms(2,3) Cap_stream by (auto simp: print_stderr_def cap_write_def capture_ok_def)
next
  case (Host_stream k)
  then show ?thesis using assms(2,3) by (auto simp: print_stderr_def capture_ok_def)
qed

lemma prints_keep_ok:
  "reallocates realloc \<Longrightarrow> capture_ok h s \<Longrightarrow> prints realloc ts s = Some s' \<Longrightarrow> capture_ok h s'"
  by (induction ts arbitrary: s) (auto split: option.splits dest: print_keeps_ok)

lemma begin_ok: "capture_ok h s \<Longrightarrow> capture_ok h (begin_capture b s)"
  using empty_log_wf [of "caplog s"] by (auto simp: capture_ok_def begin_capture_def Let_def)

lemma capture_of_begin: "prints_only realloc g \<Longrightarrow>
    capture_of g (capture_window_begin g (glue_reset g s)) = begin_capture (c_fopencookie g) (capture_of g s)"
  using capture_of_reset [of realloc g s]
  by (simp add: capture_window_begin_def on_ext_def prints_only_def)

lemma capture_of_end:
  "prints_only realloc g \<Longrightarrow> capture_of g (snd (capture_window_end g s)) = snd (end_capture (capture_of g s))"
  "fst (capture_window_end g s) = fst (end_capture (capture_of g s))"
  by (simp_all add: capture_window_end_def on_ext_def prints_only_def Let_def case_prod_unfold)

text \<open>Whatever gas prints while a call assembles, and whatever the allocator does, the call ends
  with the host's \<open>stderr\<close> in place, the log buffer intact and nothing printed to the host; this holds
  for every source, with any labels, whether the call succeeds or fails, and also when an earlier
  call was left by an exception with its capture still open. Where the C library cannot open
  the cookie stream, gas's text goes to the host, but the stream is still the host's.\<close>

lemma assemble_gives_stderr_back:
  assumes "reallocates realloc" "prints_only realloc g"
    and "capture_ok h (capture_of g (gas st))"
  shows "let c' = capture_of g (gas (snd (do_assemble (gas_glue g) source a ls wr st)))
    in wf_buf (caplog c') \<and> stderr c' = Host_stream h \<and> saved_stderr c' = None \<and>
       (c_fopencookie g \<longrightarrow> host_output c' = host_output (capture_of g (gas st)))"
proof -
  let ?c = "capture_of g (gas st)"
  let ?b = "begin_capture (c_fopencookie g) ?c"
  obtain s where s: "moves g (capture_window_begin g (glue_reset g (gas st))) s"
    "gas (snd (do_assemble (gas_glue g) source a ls wr st)) = snd (capture_window_end g s)"
    by (rule assemble_window_moves)
  obtain ts where ts: "prints realloc ts ?b = Some (capture_of g s)"
    using steps_print [OF assms(2)] s(1) capture_of_begin [OF assms(2)] unfolding moves_def by metis
  have "host_output (capture_of g s) = host_output ?c" if "c_fopencookie g"
    using that ts prints_captured [OF assms(1), of h ?b ts] begin_captures [OF assms(3)] by auto
  moreover note end_restores [OF prints_keep_ok [OF assms(1) begin_ok [OF assms(3)] ts]]
  ultimately show ?thesis
    by (simp add: Let_def s(2) capture_of_end(1) [OF assms(2)])
qed

subsection \<open>A gas that prints\<close>

text \<open>Its state is the number of errors and the capture; a diagnostic is counted and printed, and
  every instruction is an unknown one.\<close>

definition complain :: "string \<Rightarrow> int \<times> capture \<Rightarrow> int \<times> capture" where
  "complain msg = (\<lambda>(n, c).
     (n + 1, case print_stderr generous (''<input>:0: Error: '' @ msg @ [NEWLINE]) c of None \<Rightarrow> c | Some c' \<Rightarrow> c'))"

definition talking_ops :: "(nat, int \<times> capture) gas_ops" where
  "talking_ops = \<lparr>
     gas_now_fix = (\<lambda>_. 0), gas_as_bad = complain, gas_had_errors = fst, gas_value = (\<lambda>y _. of_nat y),
     gas_in_text = (\<lambda>_ _. True), gas_is_defined = (\<lambda>_ _. True), gas_name = (\<lambda>_. ''sym''),
     gas_resolve_value = (\<lambda>_ s. s), gas_pcrel_from = (\<lambda>fx _. fx_where fx),
     gas_md_apply_fix = (\<lambda>_ _ s. s), gas_md_convert_frag = (\<lambda>_ s. s),
     gas_relax_segment = (\<lambda>_ s. (False, s)), gas_rlx_more = (\<lambda>_. 0),
     gas_howto = (\<lambda>_. None), c_malloc = (\<lambda>_. True)\<rparr>"

definition talking_gas :: "(nat, int \<times> capture) gas_api" where
  "talking_gas = gas_ops.extend talking_ops \<lparr>
     gas_symbol_end = (\<lambda>s. s), gas_symbol_begin = (\<lambda>s. s), gas_restart_obstack = (\<lambda>_ _ x. x),
     gas_chains = (\<lambda>_ _. None), gas_set_chains = (\<lambda>_ _ x. x),
     gas_select_text = (\<lambda>x. x), gas_colon = (\<lambda>_ s. s), gas_symbol_find = (\<lambda>_ _. Some 8),
     gas_set_absolute = (\<lambda>_ x. x), gas_set_value = (\<lambda>_ _ x. x),
     gas_symbol_new_absolute = (\<lambda>_ _ x. (300, x)), gas_symbol_table_insert = (\<lambda>_ x. x),
     gas_line_pointer = (\<lambda>_. None), gas_set_line_pointer = (\<lambda>_ x. x),
     gas_equals = (\<lambda>_ _ s. s), gas_cons = (\<lambda>_ s. s),
     gas_fb_label_instance_inc = (\<lambda>_ x. x), gas_fb_label_name = (\<lambda>_ _ _. ''1''),
     gas_md_assemble = (\<lambda>line. on_ext (complain (''unknown opcode '' @ line))),
     gas_frag_more = (\<lambda>_ s. ((0, 0), s)), gas_frag_align = (\<lambda>_ _ _ s. s),
     gas_frag_var = (\<lambda>_ _ _ _ _ _ s. ((0, 0), s)),
     gas_capture = snd, gas_set_capture = (\<lambda>c x. (fst x, c)), c_fopencookie = True\<rparr>"

lemma complain_prints: "\<exists>ts. prints generous ts (snd x) = Some (snd (complain msg x))"
proof (cases "print_stderr generous (''<input>:0: Error: '' @ msg @ [NEWLINE]) (snd x)")
  case None
  then show ?thesis
    by (intro exI [of _ "[]"]) (simp add: complain_def case_prod_unfold)
next
  case (Some c)
  then show ?thesis
    by (intro exI [of _ "[''<input>:0: Error: '' @ msg @ [NEWLINE]]"]) (simp add: complain_def case_prod_unfold)
qed

lemma talking_prints_only: "prints_only generous talking_gas"
proof -
  have stay: "\<exists>ts. prints generous ts c = Some c" for c by (rule exI [of _ "[]"]) simp
  have "\<exists>ts. prints generous ts (snd x) = Some (snd y)" if "gas_step talking_gas x y" for x y
    using that
    by cases (simp_all add: talking_gas_def talking_ops_def gas_ops.extend_def on_ext_def complain_prints stay)
  moreover have "snd y = snd x" if "reset_step talking_gas x y" for x y
    using that by cases (simp_all add: talking_gas_def talking_ops_def gas_ops.extend_def)
  moreover have "gas_capture talking_gas = snd" "\<And>c x. snd (gas_set_capture talking_gas c x) = c"
    by (simp_all add: talking_gas_def gas_ops.extend_def)
  ultimately show ?thesis by (simp add: prints_only_def)
qed

definition quiet_section :: "(nat, int \<times> capture) segment" where
  "quiet_section = \<lparr>frags = [fresh_frag], tails = [0], frag_now = 0, fixups = [], unsupported_reloc = None,
     ext = (0, idle_capture)\<rparr>"

lemma quiet_ok: "capture_ok 2 (capture_of talking_gas (gas (fresh quiet_section)))"
  using idle_ok by (simp add: talking_gas_def quiet_section_def fresh_def gas_ops.extend_def)

lemma talking_cookie: "c_fopencookie talking_gas"
  by (simp add: talking_gas_def gas_ops.extend_def)

end
