(* ===== verification/Unwind.thy ===== *)
theory Unwind
  imports Silent
begin

text \<open>
  C++ exceptions inside \<open>do_assemble\<close> of \<^verbatim>\<open>src/src/nyxstone.cpp\<close>. Its containers hold
  pieces of the input, but two are as large as the text demands: the fill vector of \<open>.skip\<close>,
  \<open>.space\<close> and \<open>.zero\<close>, whose size is an operand, and the vector of the bytes that are returned. Whether
  a vector of so many bytes can be had is the parameter \<open>room\<close>. An exception leaves \<open>do_assemble\<close> on the
  spot; what gas and the driver's flags are at that moment is what the next call finds.
\<close>

type_synonym room = "nat \<Rightarrow> bool"

text \<open>The size of the fill vector that the handling of a directive constructs; 0 when it constructs none.\<close>

definition skip_request :: "string \<Rightarrow> nat" where
  "skip_request line =
     (let d = directive_word line;
          (n_args, vals) = parse_int_args (directive_args line) [0, 0] (if d = ''.zero'' then 1 else 2)
      in if (d = ''.skip'' \<or> d = ''.space'' \<or> d = ''.zero'') \<and> 1 \<le> n_args \<and> 0 < vals ! 0
         then nat (vals ! 0) else 0)"

text \<open>\<open>Inl\<close> is the state an exception leaves behind.\<close>

definition dispatch_throwing :: "room \<Rightarrow> 'g glue \<Rightarrow> string \<Rightarrow> 'g driver \<Rightarrow> 'g driver + 'g driver" where
  "dispatch_throwing room gl line st =
     (if hd line = CHR ''.'' \<and> skip_request line > 0 \<and> \<not> room (skip_request line)
      then Inl st else Inr (dispatch gl line st))"

definition process_throwing :: "room \<Rightarrow> 'g glue \<Rightarrow> string \<Rightarrow> 'g driver \<Rightarrow> 'g driver + 'g driver" where
  "process_throwing room gl raw st =
     (let line = statement_text raw in
      if line = [] then Inr st
      else (let (line', st') = strip_labels gl line st
            in if line' = [] then Inr st' else dispatch_throwing room gl line' st'))"

fun run_throwing :: "room \<Rightarrow> 'g glue \<Rightarrow> string list \<Rightarrow> 'g driver \<Rightarrow> 'g driver + 'g driver" where
  "run_throwing room gl [] st = Inr st"
| "run_throwing room gl (raw # raws) st =
     (case process_throwing room gl raw st of Inl st' \<Rightarrow> Inl st' | Inr st' \<Rightarrow> run_throwing room gl raws st')"

definition parse_throwing :: "room \<Rightarrow> 'g glue \<Rightarrow> string \<Rightarrow> 'g driver \<Rightarrow> 'g driver + 'g driver" where
  "parse_throwing room gl source st =
     run_throwing room gl (split_statements (strip_block_comments source)) st"

text \<open>The whole call: \<open>None\<close> is an exception.\<close>

definition do_assemble_throwing ::
    "room \<Rightarrow> 'g glue \<Rightarrow> string \<Rightarrow> u64 \<Rightarrow> label_definition list \<Rightarrow> bool \<Rightarrow> 'g driver
      \<Rightarrow> (string + assemble_core) option \<times> 'g driver" where
  "do_assemble_throwing room gl source address labels with_relocs st =
     (let g0 = g_reset gl (gas st);
          errs_before = g_had_errors gl g0;
          st1 = on_gas (g_begin_capture gl) (fresh g0)
      in case parse_throwing room gl source st1 of
           Inl st' \<Rightarrow> (None, st')
         | Inr st2 \<Rightarrow>
             let w = window_rest gl address labels with_relocs errs_before st2;
                 g = gas (w_driver w)
             in (case verdict gl with_relocs w of
                   Some msg \<Rightarrow> Some (Inl msg)
                 | None \<Rightarrow>
                     if \<not> room (fst (g_extract_text_bytes gl None g)) then None
                     else Some (Inr (read_result gl address labels with_relocs g)),
                 w_driver w))"

subsection \<open>A call that returns\<close>

lemma skip_emits:
  assumes "skip_request line > 0"
  shows "\<exists>fill. handle_directive gl line st = (True, emit gl (replicate (skip_request line) fill) st)"
proof -
  have d: "directive_word line = ''.skip'' \<or> directive_word line = ''.space'' \<or> directive_word line = ''.zero''"
    using assms by (simp add: skip_request_def Let_def case_prod_unfold split: if_splits)
  have "handle_directive gl line st = (True, handle_skip gl (directive_word line) (directive_args line) st)"
    using d by (elim disjE) (simp_all add: handle_directive_def data_width_def)
  moreover have "\<exists>fill. handle_skip gl (directive_word line) (directive_args line) st
      = emit gl (replicate (skip_request line) fill) st"
    using assms
    by (cases "parse_int_args (directive_args line) [0, 0] (if directive_word line = ''.zero'' then 1 else 2)")
      (auto simp: handle_skip_def skip_request_def Let_def split: if_splits)
  ultimately show ?thesis by auto
qed

lemma run_throwing_agrees: "run_throwing room gl raws st = Inr st' \<Longrightarrow> st' = fold (process gl) raws st"
proof (induction raws arbitrary: st)
  case (Cons raw raws)
  have "process_throwing room gl raw st = Inr st1 \<Longrightarrow> st1 = process gl raw st" for st1
    by (auto simp: process_throwing_def process_def dispatch_throwing_def Let_def split: if_splits prod.splits)
  then show ?case using Cons by (auto split: sum.splits)
qed simp

lemma parse_throwing_agrees: "parse_throwing room gl source st = Inr st' \<Longrightarrow> st' = parse_source gl source st"
  unfolding parse_throwing_def parse_source_def by (rule run_throwing_agrees)

lemma returned_agrees:
  assumes "do_assemble_throwing room gl source a ls wr st = (Some r, st')"
  shows "do_assemble gl source a ls wr st = (r, st')"
  using assms
  by (auto simp: do_assemble_throwing_def do_assemble_def assemble_window_def Let_def
      dest!: parse_throwing_agrees split: sum.splits option.splits if_splits)

subsection \<open>What an exception leaves behind\<close>

context glue_simulation
begin

lemma lift_dispatch_throwing:
  "dispatch_throwing room dst line (lift s) = map_sum lift lift (dispatch_throwing room src line s)"
  by (simp add: dispatch_throwing_def frame_simps)

lemma lift_process_throwing:
  "process_throwing room dst raw (lift s) = map_sum lift lift (process_throwing room src raw s)"
  by (simp add: process_throwing_def Let_def lift_strip_labels lift_dispatch_throwing case_prod_unfold)

lemma lift_run_throwing:
  "run_throwing room dst raws (lift s) = map_sum lift lift (run_throwing room src raws s)"
proof (induction raws arbitrary: s)
  case (Cons raw raws)
  show ?case
    by (cases "process_throwing room src raw s") (simp_all add: lift_process_throwing Cons.IH)
qed simp

end

lemma thrown_trace:
  assumes "parse_throwing room gl source (fresh g) = Inl st"
  shows "\<exists>cs. gas st = fold (perform gl) cs g"
proof -
  have "fresh g = replay.lift gl g (fresh [])"
    by (simp add: replay.lift_def fresh_def replay_def)
  then obtain s where "st = replay.lift gl g s"
    using assms replay.lift_run_throwing [of room gl "split_statements (strip_block_comments source)" g "fresh []"]
    by (cases "run_throwing room recorder (split_statements (strip_block_comments source)) (fresh [])")
      (auto simp: parse_throwing_def)
  then show ?thesis by (auto simp: replay.lift_def replay_def)
qed

lemma run_throwing_fits: "run_throwing room gl raws st = Inl st' \<Longrightarrow> \<exists>n. \<not> room n"
  by (induction raws arbitrary: st)
    (auto simp: process_throwing_def dispatch_throwing_def Let_def split: sum.splits if_splits prod.splits)

lemma throws_without_room:
  "do_assemble_throwing room gl source a ls wr st = (None, st') \<Longrightarrow> \<exists>n. \<not> room n"
  by (auto simp: do_assemble_throwing_def parse_throwing_def Let_def dest: run_throwing_fits
      split: sum.splits option.splits if_splits)

lemma always_returns:
  assumes "\<And>n. room n"
  shows "do_assemble_throwing room gl source a ls wr st = map_prod Some id (do_assemble gl source a ls wr st)"
proof (cases "do_assemble_throwing room gl source a ls wr st")
  case (Pair r st')
  then show ?thesis
    using throws_without_room [of room gl source a ls wr st st'] returned_agrees [of room gl source a ls wr st] assms
    by (cases r) auto
qed

text \<open>Calls one after the other, each finding the state the one before left, by return or by exception.\<close>

record request =
  rq_source :: string
  rq_address :: u64
  rq_labels :: "label_definition list"
  rq_relocs :: bool
  rq_room :: room

fun session :: "'g glue \<Rightarrow> request list \<Rightarrow> 'g driver \<Rightarrow> (string + assemble_core) option list \<times> 'g driver" where
  "session gl [] st = ([], st)"
| "session gl (q # qs) st =
     (let (r, st1) = do_assemble_throwing (rq_room q) gl (rq_source q) (rq_address q) (rq_labels q) (rq_relocs q) st;
          (rs, st2) = session gl qs st1
      in (r # rs, st2))"

subsection \<open>The host's stream\<close>

text \<open>\<open>held g h out st\<close>: the host's stream \<open>h\<close> is in place or saved, and what was printed to it is \<open>out\<close>.\<close>

definition held :: "('y, 'x) gas_api \<Rightarrow> nat \<Rightarrow> string \<Rightarrow> ('y, 'x) segment driver \<Rightarrow> bool" where
  "held g h out st \<longleftrightarrow> capture_ok h (capture_of g (gas st)) \<and>
     (c_fopencookie g \<longrightarrow> host_output (capture_of g (gas st)) = out)"

lemma window_holds:
  assumes "reallocates realloc" "prints_only realloc g" "held g h out st"
    and "moves g (capture_window_begin g (glue_reset g (gas st))) s"
  shows "capture_ok h (capture_of g s) \<and>
    (c_fopencookie g \<longrightarrow> host_output (capture_of g s) = out \<and> stderr (capture_of g s) = Cap_stream)"
proof -
  let ?b = "begin_capture (c_fopencookie g) (capture_of g (gas st))"
  have ok: "capture_ok h (capture_of g (gas st))" using assms(3) by (simp add: held_def)
  obtain ts where ts: "prints realloc ts ?b = Some (capture_of g s)"
    using steps_print [OF assms(2)] assms(4) capture_of_begin [OF assms(2)] unfolding moves_def by metis
  have "host_output (capture_of g s) = out \<and> capturing h (capture_of g s)" if "c_fopencookie g"
    using that ts prints_captured [OF assms(1), of h ?b ts] begin_captures [OF ok] assms(3) by (auto simp: held_def)
  then show ?thesis
    using prints_keep_ok [OF assms(1) begin_ok [OF ok] ts] by (auto simp: capturing_def)
qed

lemma thrown_moves:
  assumes "parse_throwing room (gas_glue g) source (on_gas (g_begin_capture (gas_glue g)) (fresh g0)) = Inl st'"
  shows "moves g (capture_window_begin g g0) (gas st')"
proof -
  obtain cs where "gas st' = fold (perform (gas_glue g)) cs (capture_window_begin g g0)"
    using thrown_trace [of room "gas_glue g" source] assms by (auto simp: on_gas_fresh)
  then show ?thesis by (auto intro: moves_fold moves_perform)
qed

lemma call_holds:
  assumes "reallocates realloc" "prints_only realloc g" "held g h out st"
    and "do_assemble_throwing room (gas_glue g) source a ls wr st = (r, st')"
  shows "held g h out st' \<and>
    (r \<noteq> None \<longrightarrow> stderr (capture_of g (gas st')) = Host_stream h \<and> saved_stderr (capture_of g (gas st')) = None)"
proof (cases "parse_throwing room (gas_glue g) source
    (on_gas (g_begin_capture (gas_glue g)) (fresh (g_reset (gas_glue g) (gas st))))")
  case (Inl st1)
  then have "r = None" "st' = st1" using assms(4) by (simp_all add: do_assemble_throwing_def Let_def)
  then show ?thesis
    using window_holds [OF assms(1-3) thrown_moves [OF Inl, simplified]] by (simp add: held_def)
next
  case (Inr st2)
  have "w_driver (assemble_window (gas_glue g) source a ls wr st) = st'"
    using assms(4) Inr parse_throwing_agrees [OF Inr]
    by (simp add: do_assemble_throwing_def assemble_window_def Let_def split: option.splits if_splits)
  then have st': "snd (do_assemble (gas_glue g) source a ls wr st) = st'" by (simp add: do_assemble_def Let_def)
  have "capture_ok h (capture_of g (gas st))" using assms(3) by (simp add: held_def)
  note given = assemble_gives_stderr_back [OF assms(1,2) this, of source a ls wr, unfolded Let_def st']
  then show ?thesis using assms(3) by (auto simp: held_def capture_ok_def)
qed

lemma session_holds:
  assumes "reallocates realloc" "prints_only realloc g"
  shows "held g h out st \<Longrightarrow> session (gas_glue g) qs st = (rs, st') \<Longrightarrow> held g h out st' \<and>
    (rs \<noteq> [] \<and> last rs \<noteq> None \<longrightarrow>
      stderr (capture_of g (gas st')) = Host_stream h \<and> saved_stderr (capture_of g (gas st')) = None)"
proof (induction qs arbitrary: st rs)
  case (Cons q qs)
  obtain r st1 rs1 where q: "do_assemble_throwing (rq_room q) (gas_glue g) (rq_source q) (rq_address q) (rq_labels q)
      (rq_relocs q) st = (r, st1)" "session (gas_glue g) qs st1 = (rs1, st')" "rs = r # rs1"
    using Cons.prems(2) by (auto split: prod.splits)
  note one = call_holds [OF assms Cons.prems(1) q(1)]
  show ?case
  proof (cases qs)
    case Nil
    then show ?thesis using one q by simp
  next
    case (Cons q' qs')
    then have "rs1 \<noteq> []" using q(2) by (auto split: prod.splits)
    then show ?thesis using Cons.IH [OF conjunct1 [OF one] q(2)] q(3) by simp
  qed
qed simp

text \<open>C22. Over any sequence of calls, some of which may end in an exception while gas's output is
  redirected: nothing gas prints reaches the host's \<open>stderr\<close>, the stream is never lost (it is in place or
  saved, for good measure), and every call that returns leaves it in place, whatever earlier calls did.
  Where the C library has no cookie streams gas's text goes to the host, but the stream stays its own.\<close>

theorem sessions_give_stderr_back:
  assumes "reallocates realloc" "prints_only realloc g" "capture_ok h (capture_of g (gas st))"
  shows "let (rs, st') = session (gas_glue g) qs st; c = capture_of g (gas st); c' = capture_of g (gas st')
    in capture_ok h c' \<and> (c_fopencookie g \<longrightarrow> host_output c' = host_output c) \<and>
       (rs \<noteq> [] \<and> last rs \<noteq> None \<longrightarrow> stderr c' = Host_stream h \<and> saved_stderr c' = None)"
proof -
  have "held g h (host_output (capture_of g (gas st))) st" using assms(3) by (simp add: held_def)
  from session_holds [OF assms(1,2) this] show ?thesis by (auto simp: Let_def held_def split: prod.split)
qed

text \<open>C24. An exception leaves the redirection open: when the vector of a \<open>.skip\<close> cannot be had, the call
  ends with the host's \<open>stderr\<close> still pointing at the log. Until a later call returns, whatever the
  host prints there is written into the log and does not appear.\<close>

theorem exception_leaves_stderr_redirected:
  assumes "reallocates realloc" "prints_only realloc g" "capture_ok h (capture_of g (gas st))" "c_fopencookie g"
    and "parse_throwing room (gas_glue g) source (fresh (capture_window_begin g (glue_reset g (gas st)))) = Inl st1"
  shows "do_assemble_throwing room (gas_glue g) source a ls wr st = (None, st1) \<and>
    stderr (capture_of g (gas st1)) = Cap_stream \<and>
    (\<exists>c. print_stderr realloc t (capture_of g (gas st1)) = Some c \<and>
       host_output c = host_output (capture_of g (gas st)))"
proof -
  let ?c = "capture_of g (gas st1)"
  have start: "on_gas (g_begin_capture (gas_glue g)) (fresh (g_reset (gas_glue g) (gas st)))
      = fresh (capture_window_begin g (glue_reset g (gas st)))"
    by (simp add: on_gas_fresh)
  have "held g h (host_output (capture_of g (gas st))) st" using assms(3) by (simp add: held_def)
  note w = window_holds [OF assms(1,2) this thrown_moves [of room g source, unfolded on_gas_fresh gas_glue_fields, OF assms(5)]]
  then have c: "capturing h ?c" using assms(4) by (auto simp: capture_ok_def capturing_def)
  then have "\<exists>c. print_stderr realloc t ?c = Some c \<and> host_output c = host_output ?c"
    using prints_captured [OF assms(1) c, of "[t]"] by (auto split: option.splits)
  then show ?thesis
    using w assms(4,5) unfolding do_assemble_throwing_def Let_def start by simp
qed

subsection \<open>Witnesses\<close>

text \<open>A process that can have vectors of less than 10 bytes. The first source asks for more, the second
  has an unknown instruction.\<close>

definition small_room :: room where
  "small_room n \<longleftrightarrow> n < 10"

definition two_requests :: "request list" where
  "two_requests = map (\<lambda>src. \<lparr>rq_source = src, rq_address = 0, rq_labels = [], rq_relocs = False, rq_room = small_room\<rparr>)
     [''a: .skip 12'', ''frob'']"

definition cut_short :: "(nat, int \<times> capture) segment driver" where
  "cut_short = fresh (quiet_section\<lparr>ext := (0, begin_capture True idle_capture)\<rparr>)"

lemma first_throws: "do_assemble_throwing small_room (gas_glue talking_gas) ''a: .skip 12'' 0 [] False (fresh quiet_section)
    = (None, cut_short)"
  by code_simp

lemma second_returns: "fst (do_assemble_throwing small_room (gas_glue talking_gas) ''frob'' 0 [] False cut_short)
    = Some (Inl ''assemble: <input>:0: Error: unknown opcode frob'')"
  by code_simp

lemma two_results:
  "fst (session (gas_glue talking_gas) two_requests (fresh quiet_section))
     = [None, Some (Inl ''assemble: <input>:0: Error: unknown opcode frob'')]"
  by (simp add: two_requests_def first_throws second_returns case_prod_unfold Let_def)

theorem sessions_give_stderr_back_witness:
  "let (rs, st') = session (gas_glue talking_gas) two_requests (fresh quiet_section);
      c' = capture_of talking_gas (gas st')
   in rs = [None, Some (Inl ''assemble: <input>:0: Error: unknown opcode frob'')] \<and>
      stderr c' = Host_stream 2 \<and> host_output c' = ''> ''"
proof -
  have "host_output (capture_of talking_gas (gas (fresh quiet_section))) = ''> ''"
    by (simp add: talking_gas_def quiet_section_def fresh_def gas_ops.extend_def idle_capture_def)
  then show ?thesis
    using sessions_give_stderr_back [OF generous_reallocates talking_prints_only quiet_ok, of two_requests]
      two_results talking_cookie
    by (simp add: case_prod_unfold Let_def)
qed

theorem exception_leaves_stderr_redirected_witness:
  "\<exists>st1. do_assemble_throwing small_room (gas_glue talking_gas) ''a: .skip 12'' 0 [] False (fresh quiet_section)
       = (None, st1) \<and> stderr (capture_of talking_gas (gas st1)) = Cap_stream"
proof -
  let ?p = "parse_throwing small_room (gas_glue talking_gas) ''a: .skip 12''
    (fresh (capture_window_begin talking_gas (glue_reset talking_gas (gas (fresh quiet_section)))))"
  have "case ?p of Inl _ \<Rightarrow> True | Inr _ \<Rightarrow> False" by code_simp
  then obtain st1 where "?p = Inl st1" by (auto split: sum.splits)
  then show ?thesis
    using exception_leaves_stderr_redirected
      [OF generous_reallocates talking_prints_only quiet_ok talking_cookie, of small_room _ st1 0 "[]" False]
    by blast
qed

end
