(* ===== verification/Emit_Bounds.thy ===== *)
theory Emit_Bounds
  imports Unwind
begin

text \<open>
  How many bytes a directive may emit. \<open>nyxstone_glue_emit_bytes\<close> of
  \<^verbatim>\<open>src/src/nyxstone_glue.c\<close> asks gas for \<open>(int) n\<close> bytes and copies \<open>n\<close>, a
  \<open>size_t\<close>; the parameter of \<open>frag_more\<close> is a \<open>size_t\<close> again. The sizes of the driver's data lists and
  strings are those of the source text, but \<open>.skip\<close>, \<open>.space\<close> and \<open>.zero\<close> take any positive 64-bit
  number.
\<close>

subsection \<open>What is asked for\<close>

lemma signed_size: "sint (word_of_int (int n) :: i32) = (if n mod 2 ^ 32 < 2 ^ 31 then int (n mod 2 ^ 32) else int (n mod 2 ^ 32) - 2 ^ 32)"
proof -
  define m where "m = n mod 2 ^ 32"
  have bound: "m < 2 ^ 32" unfolding m_def by (rule mod_less_divisor) simp
  have "sint (word_of_int (int n) :: i32) = signed_take_bit 31 (int n)"
    by (simp add: sint_uint unsigned_of_int signed_take_bit_take_bit del: of_int_of_nat_eq)
  also have "\<dots> = signed_take_bit 31 (int m)"
    by (simp add: m_def signed_take_bit_eq_take_bit_shift take_bit_eq_mod zmod_int mod_add_left_eq flip: of_nat_mod)
  also have "\<dots> = (int m + 2 ^ 31) mod 2 ^ 32 - 2 ^ 31"
    by (simp add: signed_take_bit_eq_take_bit_shift take_bit_eq_mod)
  also have "\<dots> = (if m < 2 ^ 31 then int m else int m - 2 ^ 32)"
  proof (cases "m < 2 ^ 31")
    case False
    have "(int m + 2 ^ 31) mod 2 ^ 32 = int m - 2 ^ 31"
      using False bound by (intro int_mod_pos_eq [where q = 1]) simp_all
    then show ?thesis using False by simp
  qed simp
  finally show ?thesis by (simp only: m_def)
qed

lemma uint_sign_extended: "uint (scast (w :: i32) :: u64) = sint w mod 2 ^ 64"
  by (simp only: scast_eq uint_word_of_int ) simp

text \<open>A size whose low 32 bits are below 2 to the power of 31 is cut to them; any other becomes a number
  close to the whole address space.\<close>

lemma unat_request:
  "unat (frag_request n) = (if n mod 2 ^ 32 < 2 ^ 31 then n mod 2 ^ 32 else 2 ^ 64 - 2 ^ 32 + n mod 2 ^ 32)"
proof -
  define m where "m = n mod 2 ^ 32"
  have bound: "m < 2 ^ 32" unfolding m_def by (rule mod_less_divisor) simp
  have u: "uint (frag_request n) = sint (word_of_int (int n) :: i32) mod 2 ^ 64"
    unfolding frag_request_def by (rule uint_sign_extended)
  have "uint (frag_request n) = int (if m < 2 ^ 31 then m else 2 ^ 64 - 2 ^ 32 + m)"
  proof (cases "m < 2 ^ 31")
    case True
    then show ?thesis unfolding u signed_size m_def [symmetric] by (simp add: mod_pos_pos_trivial)
  next
    case False
    have "(int m - 2 ^ 32) mod 2 ^ 64 = int m - 2 ^ 32 + 2 ^ 64"
      using bound by (intro int_mod_pos_eq [where q = "-1"]) simp_all
    then show ?thesis unfolding u signed_size m_def [symmetric] using False by simp
  qed
  then show ?thesis unfolding m_def by (simp only: unat_eq_nat_uint nat_int)
qed

lemma frag_request_small: "n < 2 ^ 31 \<Longrightarrow> frag_request n = of_nat n"
  by (intro word_unat_eq_iff [THEN iffD2]) (simp add: unat_request unat_small)

text \<open>gas's \<open>frag_more\<close>, where it can serve a request, makes the literal grow by exactly what was asked
  for. It does not return from a request it cannot serve; \<open>limit\<close> stands for the memory there is.\<close>

definition grants_up_to :: "nat \<Rightarrow> ('y, 'x) gas_api \<Rightarrow> bool" where
  "grants_up_to limit g \<longleftrightarrow>
     (\<forall>sz s. frags s \<noteq> [] \<and> unat sz \<le> limit \<longrightarrow>
        (let ((i, off), s') = gas_frag_more g sz s
         in length (fr_literal (frags s' ! i)) = off + unat sz))"

text \<open>The copy of \<open>emit_bytes\<close> stays inside the literal.\<close>

definition copy_fits :: "('y, 'x) gas_api \<Rightarrow> byte list \<Rightarrow> ('y, 'x) segment \<Rightarrow> bool" where
  "copy_fits g p s \<longleftrightarrow>
     (p = [] \<or>
      (let ((i, off), s') = gas_frag_more g (frag_request (length p)) s
       in off + length p \<le> length (fr_literal (frags s' ! i))))"

lemma not_cut: "n mod 2 ^ 32 < 2 ^ 31 \<Longrightarrow> n \<le> n mod 2 ^ 32 \<longleftrightarrow> n < 2 ^ 31" for n :: nat
proof
  assume "n mod 2 ^ 32 < 2 ^ 31" "n \<le> n mod 2 ^ 32"
  then show "n < 2 ^ 31" by (metis le_less_trans)
next
  assume "n < 2 ^ 31"
  then have "n < 2 ^ 32" by simp
  then show "n \<le> n mod 2 ^ 32" by simp
qed

lemma copy_fits_iff:
  assumes "grants_up_to limit g" "frags s \<noteq> []" "unat (frag_request (length p)) \<le> limit" "limit < 2 ^ 63"
  shows "copy_fits g p s \<longleftrightarrow> length p < 2 ^ 31"
proof -
  have low: "length p mod 2 ^ 32 < 2 ^ 31"
    using assms(3,4) unfolding unat_request by (auto split: if_splits)
  have "copy_fits g p s \<longleftrightarrow> p = [] \<or> length p \<le> unat (frag_request (length p))"
    using assms(1-3) by (auto simp: grants_up_to_def copy_fits_def Let_def case_prod_unfold)
  also have "\<dots> \<longleftrightarrow> length p \<le> length p mod 2 ^ 32" unfolding unat_request using low by auto
  also have "\<dots> \<longleftrightarrow> length p < 2 ^ 31" by (rule not_cut [OF low])
  finally show ?thesis .
qed

text \<open>C28. A \<open>.skip\<close>, \<open>.space\<close> or \<open>.zero\<close> of a positive size emits that many bytes, in one call. When gas can
  serve what it is asked for, the copy into the frag stays inside it exactly when the size is below 2 to the power of
  31. A larger size whose low 32 bits are below 2 to the power of 31 is cut to them, and the copy writes behind
  the frag; for every other size gas is asked for almost 2 to the power of 64 bytes, which it
  cannot serve.\<close>

theorem skip_in_bounds:
  assumes "grants_up_to limit g" "limit < 2 ^ 63" "skip_request line > 0" "frags (gas st) \<noteq> []"
  shows "\<exists>fill. handle_directive (gas_glue g) line st = (True, emit (gas_glue g) (replicate (skip_request line) fill) st) \<and>
    (let n = skip_request line; asked = unat (frag_request n)
     in (asked \<le> limit \<longrightarrow> (copy_fits g (replicate n fill) (gas st) \<longleftrightarrow> n < 2 ^ 31)) \<and>
        (n mod 2 ^ 32 < 2 ^ 31 \<longrightarrow> asked = n mod 2 ^ 32) \<and>
        (2 ^ 31 \<le> n mod 2 ^ 32 \<longrightarrow> 2 ^ 64 - 2 ^ 31 \<le> asked \<and> limit < asked))"
proof -
  obtain fill where "handle_directive (gas_glue g) line st
      = (True, emit (gas_glue g) (replicate (skip_request line) fill) st)"
    using skip_emits [OF assms(3)] by blast
  then show ?thesis
    using copy_fits_iff [OF assms(1,4), of "replicate (skip_request line) fill"] assms(2)
    by (intro exI [of _ fill]) (simp add: Let_def unat_request)
qed

text \<open>A gas whose \<open>frag_more\<close> appends to the first frag.\<close>

definition growing_gas :: "(nat, int) gas_api" where
  "growing_gas = sample_api\<lparr>gas_frag_more := (\<lambda>sz s.
     ((0, length (fr_literal (frags s ! 0))),
      update_frag 0 (\<lambda>fr. fr\<lparr>fr_literal := fr_literal fr @ replicate (unat sz) 0\<rparr>) s))\<rparr>"

lemma growing_grants: "grants_up_to limit growing_gas"
  by (auto simp: grants_up_to_def growing_gas_def update_frag_def)

lemma skip_requests: "skip_request ''.skip 4'' = 4" "skip_request ''.zero 4294967296'' = 2 ^ 32"
proof -
  have args: "directive_args ''.zero 4294967296'' = ''4294967296''" "directive_word ''.zero 4294967296'' = ''.zero''"
    by code_simp+
  have "parse_int ''4294967296'' = Some (4294967296, [])"
    by (simp add: parse_int_def strtoll0_def strto_magnitude_def is_digit_of_def digit_value_def isdigit_def
        isspace_def clamp64_def Let_def)
  then have "parse_int_args ''4294967296'' [0, 0] 1 = (1, [4294967296, 0])"
    by (simp add: parse_int_args_def parse_args_last isspace_def)
  then show "skip_request ''.zero 4294967296'' = 2 ^ 32" by (simp add: skip_request_def args)
  show "skip_request ''.skip 4'' = 4" by code_simp
qed

theorem skip_in_bounds_witness:
  "(\<exists>fill. copy_fits growing_gas (replicate 4 fill) branch_section) \<and>
   (\<exists>fill. \<not> copy_fits growing_gas (replicate (2 ^ 32) fill) branch_section)"
proof -
  have "frags (gas (fresh branch_section)) \<noteq> []" by (simp add: fresh_def branch_section_def)
  note bounds = skip_in_bounds [OF growing_grants, of 1024, OF _ _ this]
  have "unat (frag_request 4) = 4" "unat (frag_request (2 ^ 32)) = 0" by (simp_all add: unat_request)
  then show ?thesis
    using bounds [of "''.skip 4''"] bounds [of "''.zero 4294967296''"] unfolding skip_requests Let_def
    by (auto simp: fresh_def)
qed

end
