(* ===== verification/Data_Sources.thy ===== *)
theory Data_Sources
  imports Emit_Bounds
begin

text \<open>
  Sources that emit data only, from the text to the bytes that are returned: the parse phase of
  \<^verbatim>\<open>src/src/nyxstone.cpp\<close>, \<open>nyxstone_glue_emit_bytes\<close>, the fixup pass and the readout of
  \<^verbatim>\<open>src/src/nyxstone_glue.c\<close> run one after the other. What they use of gas is its
  documented frag discipline: \<open>frag_more\<close> makes room at the end of the section, and a section
  without variable frags is left as it is by \<open>relax_segment\<close>.
\<close>

subsection \<open>A section of plain frags\<close>

definition plain_frag :: "'y frag \<Rightarrow> bool" where
  "plain_frag fr \<longleftrightarrow> fr_type fr \<in> {Rs_zero, Rs_fill} \<and> fr_offset fr = 0 \<and> fr_symbol fr = None"

definition last_frag :: "('y, 'x) segment \<Rightarrow> nat" where
  "last_frag s = length (frags s) - 1"

text \<open>One chain, whose last frag is the live one: the closed frags hold what their \<open>fr_fix\<close> says, the
  live one what is on the obstack.\<close>

definition data_section :: "('y, 'x) gas_ops \<Rightarrow> ('y, 'x) segment \<Rightarrow> bool" where
  "data_section g s \<longleftrightarrow>
     frags s \<noteq> [] \<and> tails s = [last_frag s] \<and> frag_now s = last_frag s \<and> fixups s = [] \<and>
     (\<forall>i < length (frags s). plain_frag (frags s ! i) \<and>
        unat (frag_fix_size g s i) \<le> length (fr_literal (frags s ! i)))"

text \<open>What a data section holds, and the error count.\<close>

definition holds :: "('y, 'x) gas_ops \<Rightarrow> byte list \<Rightarrow> int \<Rightarrow> ('y, 'x) segment \<Rightarrow> bool" where
  "holds g bs e s \<longleftrightarrow> data_section g s \<and> section_bytes g s = bs \<and> errors g s = e"

lemma plain_fill: "plain_frag fr \<Longrightarrow> frag_fill_size fr = 0"
  by (simp add: plain_frag_def frag_fill_size_def)

lemma data_frag_bytes:
  "data_section g s \<Longrightarrow> i < length (frags s) \<Longrightarrow>
    frag_bytes g s i = take (unat (frag_fix_size g s i)) (fr_literal (frags s ! i))"
  by (simp add: data_section_def frag_bytes_def fill_count_def plain_fill)

text \<open>A step that keeps the size and the contents of every frag keeps what the section holds.\<close>

lemma holds_cong:
  assumes "holds g bs e s"
    and "length (frags t) = length (frags s)" "tails t = tails s" "frag_now t = frag_now s" "fixups t = fixups s"
    and "gas_now_fix g (ext t) = gas_now_fix g (ext s)" "errors g t = errors g s"
    and "\<And>i. i < length (frags s) \<Longrightarrow> plain_frag (frags s ! i) \<Longrightarrow> plain_frag (frags t ! i) \<and>
      fr_literal (frags t ! i) = fr_literal (frags s ! i) \<and>
      (i \<noteq> last_frag s \<longrightarrow> fr_fix (frags t ! i) = fr_fix (frags s ! i))"
  shows "holds g bs e t"
proof -
  have s: "data_section g s" using assms(1) by (simp add: holds_def)
  have last: "last_frag t = last_frag s" by (simp add: last_frag_def assms(2))
  have same: "frag_fix_size g t i = frag_fix_size g s i" if "i < length (frags s)" for i
    using s assms(8) [OF that] that by (auto simp: data_section_def frag_fix_size_def assms(3,4,6))
  have "data_section g t"
    unfolding data_section_def
  proof (intro conjI allI impI)
    fix i assume "i < length (frags t)"
    then have i: "i < length (frags s)" using assms(2) by simp
    show "plain_frag (frags t ! i)" "unat (frag_fix_size g t i) \<le> length (fr_literal (frags t ! i))"
      using s assms(8) [OF i] i same [OF i] by (auto simp: data_section_def)
  next
    have "0 < length (frags t)" using s assms(2) by (simp add: data_section_def)
    then show "frags t \<noteq> []" by simp
  qed (use s in \<open>auto simp: data_section_def assms(2-5) last\<close>)
  moreover have "frag_bytes g t i = frag_bytes g s i" if "i < length (frags s)" for i
    using s assms(2) assms(8) [OF that] that same [OF that] \<open>data_section g t\<close>
    by (simp add: data_frag_bytes) (simp add: data_section_def)
  then have "section_bytes g t = section_bytes g s"
    unfolding section_bytes_def assms(2) by (intro arg_cong [where f = concat] map_cong) auto
  ultimately show ?thesis using assms(1,7) by (simp add: holds_def)
qed

lemma holds_update:
  assumes "holds g bs e s"
    and "plain_frag (frags s ! i) \<Longrightarrow> plain_frag (f (frags s ! i)) \<and> fr_literal (f (frags s ! i)) = fr_literal (frags s ! i)
      \<and> (i \<noteq> last_frag s \<longrightarrow> fr_fix (f (frags s ! i)) = fr_fix (frags s ! i))"
  shows "holds g bs e (update_frag i f s)"
proof (rule holds_cong [OF assms(1)])
  fix j assume "j < length (frags s)" "plain_frag (frags s ! j)"
  then show "plain_frag (frags (update_frag i f s) ! j) \<and>
      fr_literal (frags (update_frag i f s) ! j) = fr_literal (frags s ! j) \<and>
      (j \<noteq> last_frag s \<longrightarrow> fr_fix (frags (update_frag i f s) ! j) = fr_fix (frags s ! j))"
    using assms(2) by (cases "i = j") auto
qed (simp_all add: update_frag_def errors_def)

text \<open>The passes loop over the positions of the chain and keep its length.\<close>

definition holds_in :: "('y, 'x) gas_ops \<Rightarrow> byte list \<Rightarrow> int \<Rightarrow> nat \<Rightarrow> ('y, 'x) segment \<Rightarrow> bool" where
  "holds_in g bs e n s \<longleftrightarrow> holds g bs e s \<and> length (frags s) = n"

lemma holds_in_update:
  assumes "holds_in g bs e n s" "i < n"
    and "plain_frag (frags s ! i) \<Longrightarrow> plain_frag (f (frags s ! i)) \<and> fr_literal (f (frags s ! i)) = fr_literal (frags s ! i)
      \<and> (i \<noteq> last_frag s \<longrightarrow> fr_fix (f (frags s ! i)) = fr_fix (frags s ! i))"
  shows "holds_in g bs e n (update_frag i f s)"
proof -
  have "holds g bs e (update_frag i f s)"
    using assms(1) by (intro holds_update assms(3)) (simp_all add: holds_in_def)
  then show ?thesis using assms(1) by (simp add: holds_in_def)
qed

lemma holds_in_plain: "holds_in g bs e n s \<Longrightarrow> i < n \<Longrightarrow> plain_frag (frags s ! i)"
  by (auto simp: holds_in_def holds_def data_section_def)

lemma fold_keeps: "(\<And>x s. x \<in> set xs \<Longrightarrow> P s \<Longrightarrow> P (f x s)) \<Longrightarrow> P s \<Longrightarrow> P (fold f xs s)"
  by (induction xs arbitrary: s) auto

lemma holds_in_fold:
  assumes "holds_in g bs e n s" "\<And>i s. i < n \<Longrightarrow> holds_in g bs e n s \<Longrightarrow> holds_in g bs e n (f i s)"
  shows "holds_in g bs e n (fold f [0..<length (frags s)] s)"
  by (rule fold_keeps) (use assms in \<open>auto simp: holds_in_def\<close>)

lemma holds_in_fold_snd:
  assumes "holds_in g bs e n s"
    and "\<And>i a s. i < n \<Longrightarrow> holds_in g bs e n s \<Longrightarrow> holds_in g bs e n (snd (f i (a, s)))"
  shows "holds_in g bs e n (snd (fold f [0..<length (frags s)] (a, s)))"
proof -
  have "length (frags s) = n" using assms(1) by (simp add: holds_in_def)
  then show ?thesis
    by (intro fold_keeps [where P = "\<lambda>p. holds_in g bs e n (snd p)"]) (use assms in auto)
qed

subsection \<open>The passes leave data alone\<close>

lemma holds_settle: "i < n \<Longrightarrow> holds_in g bs e n s \<Longrightarrow> holds_in g bs e n (settle_frag g i s)"
proof -
  assume i: "i < n" and s: "holds_in g bs e n s"
  then have "tails s = [last_frag s]" "frag_now s = last_frag s"
    by (simp_all add: holds_in_def holds_def data_section_def)
  then show ?thesis
    unfolding settle_frag_def by (intro holds_in_update [OF s i]) (auto simp: Let_def plain_frag_def)
qed

lemma plain_type: "plain_frag fr \<Longrightarrow> fr_type fr \<noteq> Rs_machine_dependent \<and> fr_type fr \<noteq> Rs_align \<and>
    fr_type fr \<noteq> Rs_align_code \<and> fr_type fr \<noteq> Rs_org \<and> fr_symbol fr = None"
  by (auto simp: plain_frag_def)

lemma holds_seed: "i < n \<Longrightarrow> holds_in g bs e n s \<Longrightarrow> holds_in g bs e n (seed_subtype g i s)"
  unfolding seed_subtype_def by (rule holds_in_update) (auto dest: plain_type split: option.split)

lemma holds_address: "i < n \<Longrightarrow> holds_in g bs e n s \<Longrightarrow> holds_in g bs e n (update_frag i (fr_address_update a) s)"
  by (rule holds_in_update) (auto simp: plain_frag_def)

lemma holds_layout: "holds_in g bs e n s \<Longrightarrow> holds_in g bs e n (layout g s)"
  unfolding layout_def by (rule holds_in_fold_snd) (auto simp: layout_frag_def holds_address)

lemma holds_finalize: "holds_in g bs e n s \<Longrightarrow> holds_in g bs e n (finalize_align_org g s)"
  unfolding finalize_align_org_def
proof (rule holds_in_fold_snd)
  fix i a s
  assume i: "i < n" and s: "holds_in g bs e n s"
  have "holds_in g bs e n (update_frag i (fr_address_update (\<lambda>_. a)) s)" by (rule holds_address [OF i s])
  with plain_type [OF holds_in_plain [OF this i]]
  show "holds_in g bs e n (snd (finalize_frag g i (a, s)))" by (simp add: finalize_frag_def Let_def)
qed

lemma holds_target: "i < n \<Longrightarrow> holds_in g bs e n s \<Longrightarrow> holds_in g bs e n (resolve_target g i s)"
  using plain_type [OF holds_in_plain [of g bs e n s i]] by (simp add: resolve_target_def)

lemma holds_convert: "i < n \<Longrightarrow> holds_in g bs e n s \<Longrightarrow> holds_in g bs e n (convert_frag g i s)"
  using plain_type [OF holds_in_plain [of g bs e n s i]] by (simp add: convert_frag_def)

text \<open>After the first loop of \<open>relax_branches\<close> every frag is of type \<open>rs_fill\<close>.\<close>

definition settled :: "('y, 'x) segment \<Rightarrow> bool" where
  "settled s \<longleftrightarrow> (\<forall>fr \<in> set (frags s). fr_type fr = Rs_fill)"

text \<open>What gas's \<open>relax_segment\<close> does where no frag can grow: it computes addresses.\<close>

definition relax_keeps_fills :: "('y, 'x) gas_ops \<Rightarrow> bool" where
  "relax_keeps_fills g \<longleftrightarrow>
     (\<forall>pass s. data_section g s \<and> settled s \<longrightarrow>
        (let t = snd (gas_relax_segment g pass s); zero = map (fr_address_update (\<lambda>_. 0))
         in zero (frags t) = zero (frags s) \<and> tails t = tails s \<and> frag_now t = frag_now s \<and>
            fixups t = fixups s \<and> gas_now_fix g (ext t) = gas_now_fix g (ext s) \<and> errors g t = errors g s))"

lemma settle_type:
  "j < length (frags s) \<Longrightarrow> fr_type (frags (settle_frag g i s) ! j) =
     (if i = j \<and> fr_type (frags s ! i) = Rs_zero then Rs_fill else fr_type (frags s ! j))"
  by (cases "i = j") (simp_all add: settle_frag_def Let_def)

lemma settle_all:
  assumes "holds_in g bs e n s"
  shows "settled (fold (settle_frag g) [0..<length (frags s)] s)"
proof -
  have n: "length (frags s) = n" using assms by (simp add: holds_in_def)
  have "holds_in g bs e n (fold (settle_frag g) [0..<k] s) \<and>
      (\<forall>j < k. fr_type (frags (fold (settle_frag g) [0..<k] s) ! j) = Rs_fill)" if "k \<le> n" for k
    using that
  proof (induction k)
    case (Suc k)
    define t where "t = fold (settle_frag g) [0..<k] s"
    have t: "holds_in g bs e n t" "\<forall>j < k. fr_type (frags t ! j) = Rs_fill" using Suc by (simp_all add: t_def)
    have "fr_type (frags t ! k) \<in> {Rs_zero, Rs_fill}" "length (frags t) = n"
      using holds_in_plain [OF t(1), of k] t(1) Suc.prems by (auto simp: plain_frag_def holds_in_def)
    then have "\<forall>j < Suc k. fr_type (frags (settle_frag g k t) ! j) = Rs_fill"
      using t(2) Suc.prems by (auto simp: settle_type less_Suc_eq)
    then show ?case using holds_settle [OF _ t(1), of k] Suc.prems by (simp add: t_def)
  qed (use assms in simp)
  from this [of n] show ?thesis by (auto simp: settled_def in_set_conv_nth holds_in_def n)
qed

lemma settled_layout: "settled s \<Longrightarrow> settled (layout g s)"
proof -
  have "map fr_type (frags (snd (fold (layout_frag g) is p))) = map fr_type (frags (snd p))" for "is" p
  proof (induction "is" arbitrary: p)
    case (Cons i "is")
    have "map fr_type (frags (snd (layout_frag g i p))) = map fr_type (frags (snd p))"
      by (cases p; cases "i < length (frags (snd p))")
        (simp_all add: layout_frag_rest map_update list_update_beyond list_update_same_conv)
    then show ?case using Cons by simp
  qed simp
  from this [of "[0..<length (frags s)]" "(0, s)"]
  have "map fr_type (frags (layout g s)) = map fr_type (frags s)" by (simp add: layout_def)
  then have "fr_type ` set (frags (layout g s)) = fr_type ` set (frags s)" by (metis set_map)
  then show "settled s \<Longrightarrow> settled (layout g s)" by (auto simp: settled_def)
qed

lemma relax_keeps:
  fixes pass :: nat
  assumes "relax_keeps_fills g" "holds_in g bs e n s" "settled s"
  defines "t \<equiv> snd (gas_relax_segment g pass s)"
  shows "holds_in g bs e n t" "settled t"
proof -
  let ?zero = "fr_address_update (\<lambda>_. 0)"
  have law: "map ?zero (frags t) = map ?zero (frags s)" "tails t = tails s" "frag_now t = frag_now s"
      "fixups t = fixups s" "gas_now_fix g (ext t) = gas_now_fix g (ext s)" "errors g t = errors g s"
    using assms by (simp_all add: relax_keeps_fills_def holds_in_def holds_def Let_def)
  then have len: "length (frags t) = length (frags s)" by (metis length_map)
  have same: "?zero (frags t ! i) = ?zero (frags s ! i)" if "i < length (frags s)" for i
    using law(1) that len by (metis nth_map)
  have fields: "fr_type (frags t ! i) = fr_type (frags s ! i)" "fr_literal (frags t ! i) = fr_literal (frags s ! i)"
      "fr_fix (frags t ! i) = fr_fix (frags s ! i)" "fr_offset (frags t ! i) = fr_offset (frags s ! i)"
      "fr_symbol (frags t ! i) = fr_symbol (frags s ! i)" if "i < length (frags s)" for i
    using same [OF that] by (cases "frags t ! i"; cases "frags s ! i"; simp)+
  have "holds g bs e t"
    by (rule holds_cong [of g bs e s]) (use assms(2) law len fields in \<open>simp_all add: holds_in_def plain_frag_def\<close>)
  then show "holds_in g bs e n t" using assms(2) len by (simp add: holds_in_def)
  show "settled t" using assms(3) fields len by (simp add: settled_def all_set_conv_all_nth)
qed

lemma relax_loop_keeps:
  assumes "relax_keeps_fills g"
  shows "holds_in g bs e n s \<Longrightarrow> settled s \<Longrightarrow> holds_in g bs e n (relax_loop g pass s)"
proof (induction g\<equiv>g pass s rule: relax_loop.induct)
  case (1 pass s)
  obtain changed t where t: "gas_relax_segment g pass s = (changed, t)" by fastforce
  have "holds_in g bs e n t" "settled t"
    using relax_keeps [OF assms 1(2,3), of pass] by (simp_all add: t)
  then show ?case using 1(1) [OF t [symmetric]] by (subst relax_loop.simps) (simp add: t)
qed

lemma seed_plain: "i < n \<Longrightarrow> holds_in g bs e n s \<Longrightarrow> seed_subtype g i s = s"
  using plain_type [OF holds_in_plain [of g bs e n s i]]
  by (simp add: seed_subtype_def update_frag_def)

lemma holds_relax:
  assumes "relax_keeps_fills g" "holds_in g bs e n s"
  shows "holds_in g bs e n (relax_branches g s)"
proof -
  define s1 where "s1 = fold (settle_frag g) [0..<length (frags s)] s"
  have s1: "holds_in g bs e n s1" "settled s1"
    using holds_in_fold [OF assms(2) holds_settle] settle_all [OF assms(2)] by (simp_all add: s1_def)
  note s2 = holds_layout [OF s1(1)] settled_layout [OF s1(2), of g]
  have n: "length (frags (layout g s1)) = n" using s2(1) by (simp add: holds_in_def)
  have "fold (seed_subtype g) [0..<k] (layout g s1) = layout g s1" if "k \<le> n" for k
    using that by (induction k) (simp_all add: seed_plain [OF _ s2(1)])
  then have "relax_branches g s = relax_loop g 0 (layout g s1)"
    using assms(2) n by (simp add: relax_branches_def s1_def holds_in_def holds_def data_section_def)
  then show ?thesis using relax_loop_keeps [OF assms(1) s2] by simp
qed

lemma holds_laid_out:
  assumes "relax_keeps_fills g" "holds_in g bs e n s"
  shows "holds_in g bs e n (laid_out g s)"
proof -
  note s1 = holds_relax [OF assms]
  note s2 = holds_in_fold [OF s1 holds_target]
  note s3 = holds_in_fold [OF s2 holds_convert]
  show ?thesis using holds_layout [OF holds_finalize [OF s3]] by (simp add: laid_out_def Let_def)
qed

subsection \<open>No fixups, no change\<close>

lemma data_extractable:
  assumes "data_section g s" "length (section_bytes g s) < 2 ^ 64"
  shows "extractable g s" "fills_behind g s"
  using assms by (auto simp: extractable_def literal_ok_def fills_behind_def list_all_iff data_section_def plain_fill Let_def)

lemma copied_back_same:
  assumes "data_section g s" "length (section_bytes g s) < 2 ^ 64"
  shows "section_bytes g (copy_back g (section_bytes g s) s) = section_bytes g s"
    "extractable g (copy_back g (section_bytes g s) s)"
  using copy_back_image [OF data_extractable [OF assms], of "section_bytes g s"] by (simp_all add: agree_def)

lemma applied_data:
  fixes a :: u64
  assumes "holds g bs e s" "length bs < 2 ^ 64"
  defines "r \<equiv> apply_text_fixups g a s"
  shows "fst r = 0" "section_bytes g (snd r) = bs" "extractable g (snd r)" "errors g (snd r) = e"
    "unsupported_reloc (snd r) = None" "relocs g (snd r) = []"
proof -
  let ?t = "s\<lparr>unsupported_reloc := None\<rparr>"
  have t: "holds g bs e ?t" by (rule holds_cong [OF assms(1)]) (simp_all add: errors_def)
  then have d: "data_section g ?t" "section_bytes g ?t = bs" "errors g ?t = e" "fixups ?t = []"
    by (simp_all add: holds_def data_section_def)
  have fits: "length (section_bytes g ?t) < 2 ^ 64" using d(2) assms(2) by simp
  note ex = data_extractable [OF d(1) fits]
  have r: "r = (0, ?t) \<or> r = (0, copy_back g (section_bytes g ?t) ?t)"
    using d(4) assms(1) bytes.fetch_items [OF ex(1), of 0]
    by (auto simp: r_def apply_text_fixups_def Let_def encode_image_def holds_def data_section_def)
  show "fst r = 0" using r by auto
  show "section_bytes g (snd r) = bs" "extractable g (snd r)"
    using r copied_back_same [OF d(1) fits] ex(1) d(2) by auto
  show "errors g (snd r) = e" "unsupported_reloc (snd r) = None"
    using r d(3) copy_back_ext [of g "section_bytes g ?t" ?t] by (auto simp: errors_def)
  have "fixups (copy_back g buf ?t) = []" if "length buf = length (section_bytes g ?t)" for buf
    using copy_back_frags [OF ex(1) that] d(4) by simp
  then show "relocs g (snd r) = []" using r d(4) by (auto simp: relocs_def)
qed

subsection \<open>Emitting a block\<close>

text \<open>The closed frags and the live one.\<close>

abbreviation closed_bytes :: "'y frag list \<Rightarrow> byte list" where
  "closed_bytes fs \<equiv> concat (map (\<lambda>fr. take (unat (fr_fix fr)) (fr_literal fr)) fs)"

lemma data_section_snoc:
  assumes "frags s = fs @ [fr]"
  shows "data_section g s \<longleftrightarrow> tails s = [length fs] \<and> frag_now s = length fs \<and> fixups s = [] \<and>
      (\<forall>f \<in> set fs. plain_frag f \<and> unat (fr_fix f) \<le> length (fr_literal f)) \<and> plain_frag fr \<and>
      unat (gas_now_fix g (ext s)) \<le> length (fr_literal fr)" (is "_ \<longleftrightarrow> ?r")
proof -
  let ?here = "\<lambda>i. plain_frag (frags s ! i) \<and> unat (frag_fix_size g s i) \<le> length (fr_literal (frags s ! i))"
  have all: "(\<forall>i < length (frags s). ?here i) \<longleftrightarrow> (\<forall>i < length fs. ?here i) \<and> ?here (length fs)"
    by (auto simp: assms less_Suc_eq)
  show ?thesis
  proof (cases "tails s = [length fs] \<and> frag_now s = length fs")
    case True
    then have size: "frag_fix_size g s i = (if i = length fs then gas_now_fix g (ext s) else fr_fix (frags s ! i))" for i
      by (simp add: frag_fix_size_def)
    show ?thesis
      unfolding data_section_def all using True
      by (simp add: assms last_frag_def size nth_append all_set_conv_all_nth conj_ac)
  qed (auto simp: data_section_def assms last_frag_def)
qed

lemma section_bytes_snoc:
  assumes "frags s = fs @ [fr]" "data_section g s"
  shows "section_bytes g s = closed_bytes fs @ take (unat (gas_now_fix g (ext s))) (fr_literal fr)"
proof -
  have live: "tails s = [length fs]" "frag_now s = length fs"
    using assms(2) unfolding data_section_snoc [OF assms(1)] by simp_all
  have "frag_bytes g s i = take (unat (fr_fix (fs ! i))) (fr_literal (fs ! i))" if "i < length fs" for i
    using data_frag_bytes [OF assms(2), of i] that live by (simp add: assms(1) frag_fix_size_def nth_append)
  then have "map (frag_bytes g s) [0..<length fs] = map (\<lambda>fr. take (unat (fr_fix fr)) (fr_literal fr)) fs"
    by (intro nth_equalityI) simp_all
  moreover have "frag_bytes g s (length fs) = take (unat (gas_now_fix g (ext s))) (fr_literal fr)"
    using data_frag_bytes [OF assms(2), of "length fs"] live by (simp add: assms(1) frag_fix_size_def nth_append)
  ultimately show ?thesis by (simp add: section_bytes_def assms(1))
qed

text \<open>\<open>frag_more\<close> on a data section: the room is at the end of the live frag, or, when the obstack
  has no room for it, in a new frag behind it, and the old one is closed. What is in the new room
  is not said.\<close>

definition makes_room :: "('y, 'x) gas_api \<Rightarrow> nat \<Rightarrow> ('y, 'x) segment \<Rightarrow> bool" where
  "makes_room g n s \<longleftrightarrow>
     (let ((i, off), t) = gas_frag_more g (of_nat n) s; k = last_frag s; fr = frags s ! k;
          used = gas_now_fix g (ext s); lit = fr_literal (frags t ! i)
      in frag_now t = i \<and> tails t = [i] \<and> fixups t = fixups s \<and>
         gas_had_errors g (ext t) = gas_had_errors g (ext s) \<and>
         gas_now_fix g (ext t) = of_nat (off + n) \<and> length lit = off + n \<and>
         (if i = k then off = unat used \<and> take off lit = take off (fr_literal fr) \<and>
            frags t = (frags s)[k := fr\<lparr>fr_literal := lit\<rparr>]
          else i = Suc k \<and> off = 0 \<and>
            frags t = (frags s)[k := fr\<lparr>fr_fix := used, fr_type := Rs_fill, fr_offset := 0, fr_var := 0\<rparr>] @
              [fresh_frag\<lparr>fr_type := Rs_zero, fr_literal := lit\<rparr>]))"

definition frag_more_law :: "('y, 'x) gas_api \<Rightarrow> bool" where
  "frag_more_law g \<longleftrightarrow>
     (\<forall>n s. data_section (gas_ops.truncate g) s \<and> n < 2 ^ 31 \<and> unat (gas_now_fix g (ext s)) + n < 2 ^ 64 \<longrightarrow>
        makes_room g n s)"

lemma poke_end: "length lit = off + length p \<Longrightarrow> take (off + length p) (overwrite lit off p) = take off lit @ p"
  by (simp add: overwrite_def)

lemma emit_holds:
  assumes "frag_more_law g" "holds (gas_ops.truncate g) bs e s" "length p < 2 ^ 31" "length (bs @ p) < 2 ^ 64"
  shows "holds (gas_ops.truncate g) (bs @ p) e (emit_bytes g p s)"
proof (cases "p = []")
  case True
  then show ?thesis using assms(2) by (simp add: emit_bytes_def)
next
  case False
  let ?o = "gas_ops.truncate g" and ?used = "gas_now_fix g (ext s)"
  have data: "data_section ?o s" and bs: "section_bytes ?o s = bs" and e: "errors ?o s = e"
    using assms(2) by (simp_all add: holds_def)
  then obtain fs fr where fs: "frags s = fs @ [fr]" by (metis append_butlast_last_id data_section_def)
  note d = data [unfolded data_section_snoc [OF fs], simplified]
  have bytes: "bs = closed_bytes fs @ take (unat ?used) (fr_literal fr)"
    using section_bytes_snoc [OF fs data] bs by simp
  then have "unat ?used \<le> length bs" using d by simp
  then have fits: "unat ?used + length p < 2 ^ 64" using assms(4) by simp
  obtain i off t where t: "gas_frag_more g (of_nat (length p)) s = ((i, off), t)"
    by (metis prod.collapse)
  have k: "last_frag s = length fs" by (simp add: last_frag_def fs)
  define lit where "lit = fr_literal (frags t ! i)"
  have room: "frag_now t = i" "tails t = [i]" "fixups t = []" "gas_had_errors g (ext t) = gas_had_errors g (ext s)"
      "gas_now_fix g (ext t) = of_nat (off + length p)" "length lit = off + length p"
    and split: "if i = length fs then off = unat ?used \<and> take off lit = take off (fr_literal fr) \<and>
        frags t = fs @ [fr\<lparr>fr_literal := lit\<rparr>]
      else i = Suc (length fs) \<and> off = 0 \<and>
        frags t = (fs @ [fr\<lparr>fr_fix := ?used, fr_type := Rs_fill, fr_offset := 0, fr_var := 0\<rparr>]) @
          [fresh_frag\<lparr>fr_type := Rs_zero, fr_literal := lit\<rparr>]"
  proof -
    have "makes_room g (length p) s" using assms(1,3) fits data unfolding frag_more_law_def by blast
    note this [unfolded makes_room_def t Let_def prod.case k, folded lit_def]
    then show "frag_now t = i" "tails t = [i]" "fixups t = []" "gas_had_errors g (ext t) = gas_had_errors g (ext s)"
      "gas_now_fix g (ext t) = of_nat (off + length p)" "length lit = off + length p"
      "if i = length fs then off = unat ?used \<and> take off lit = take off (fr_literal fr) \<and>
          frags t = fs @ [fr\<lparr>fr_literal := lit\<rparr>]
        else i = Suc (length fs) \<and> off = 0 \<and>
          frags t = (fs @ [fr\<lparr>fr_fix := ?used, fr_type := Rs_fill, fr_offset := 0, fr_var := 0\<rparr>]) @
            [fresh_frag\<lparr>fr_type := Rs_zero, fr_literal := lit\<rparr>]"
      using d by (cases "i = length fs"; simp add: fs nth_append)+
  qed
  have off: "unat (of_nat (off + length p) :: u64) = off + length p"
    by (rule unat_small) (use split fits in \<open>auto split: if_splits\<close>)
  define u where "u = poke (i, off) p t"
  have u: "emit_bytes g p s = u" using False assms(3) by (simp only: emit_bytes_def frag_request_small t Let_def prod.case u_def if_False)
  have kept: "tails u = [i]" "frag_now u = i" "fixups u = []" "ext u = ext t"
    using room by (simp_all add: u_def poke_def update_frag_def)
  have errs: "errors ?o u = e" using room(4) kept e by (simp add: errors_def)
  have plain: "plain_frag (f\<lparr>fr_literal := l\<rparr>) = plain_frag f" for f :: "'a frag" and l
    by (simp add: plain_frag_def)
  obtain gs fr' where gs: "frags u = gs @ [fr'\<lparr>fr_literal := overwrite lit off p\<rparr>]" "i = length gs"
      "plain_frag fr'" "\<forall>f \<in> set gs. plain_frag f \<and> unat (fr_fix f) \<le> length (fr_literal f)"
      "closed_bytes gs @ take off lit = bs"
  proof (cases "i = length fs")
    case True
    then have at: "off = unat ?used" "frags t = fs @ [fr\<lparr>fr_literal := lit\<rparr>]"
        "take (unat ?used) lit = take (unat ?used) (fr_literal fr)"
      using split by auto
    show ?thesis
      by (rule that [of fs fr]) (use at True d bytes in \<open>simp_all add: u_def poke_def update_frag_def\<close>)
  next
    case False
    let ?closed = "fr\<lparr>fr_fix := ?used, fr_type := Rs_fill, fr_offset := 0, fr_var := 0\<rparr>"
    from False have at: "i = Suc (length fs)" "off = 0"
        "frags t = (fs @ [?closed]) @ [fresh_frag\<lparr>fr_type := Rs_zero, fr_literal := lit\<rparr>]"
      using split by auto
    have snoc: "(xs @ [x])[length xs := y] = xs @ [y]" "(xs @ [x]) ! length xs = x" for xs and x y :: "'a frag"
      by simp_all
    have i: "i = length (fs @ [?closed])" using at(1) by simp
    have "frags u = (fs @ [?closed]) @ [fresh_frag\<lparr>fr_type := Rs_zero, fr_literal := overwrite lit off p\<rparr>]"
      by (simp only: u_def poke_def update_frag_def at(3) i snoc fst_conv snd_conv) simp
    then show ?thesis
      by (intro that [of "fs @ [?closed]" "fresh_frag\<lparr>fr_type := Rs_zero\<rparr>"])
        (use i at(2) d bytes in \<open>simp_all add: plain_frag_def fresh_frag_def\<close>)
  qed
  have len: "length (overwrite lit off p) = off + length p" by (simp add: overwrite_def room(6))
  have "data_section ?o u"
    unfolding data_section_snoc [OF gs(1)]
    using gs kept len off by (simp add: plain room(5))
  moreover from section_bytes_snoc [OF gs(1) this] have "section_bytes ?o u = bs @ p"
    using gs(5) kept off by (simp add: room(5) poke_end [OF room(6)] flip: append.assoc)
  ultimately show ?thesis using errs by (simp add: u holds_def)
qed

lemma emits_hold:
  assumes "frag_more_law g" "\<forall>p \<in> set ps. length p < 2 ^ 31"
  shows "holds (gas_ops.truncate g) bs e s \<Longrightarrow> length (bs @ concat ps) < 2 ^ 64 \<Longrightarrow>
    holds (gas_ops.truncate g) (bs @ concat ps) e (fold (emit_bytes g) ps s)"
  using assms(2)
proof (induction ps arbitrary: bs s)
  case (Cons p ps)
  then have "holds (gas_ops.truncate g) (bs @ p) e (emit_bytes g p s)"
    by (intro emit_holds [OF assms(1)]) auto
  then show ?case using Cons.IH [of "bs @ p"] Cons.prems by simp
qed simp

subsection \<open>The whole call\<close>

text \<open>What the reset leaves: the text section's one obstack is empty. \<open>clear\<close> stands for gas's
  states in which it is; closing the other sections and selecting \<open>.text\<close> keeps that, and
  \<open>frag_now_fix\<close> reads it.\<close>

definition reset_law :: "('y, 'x) gas_api \<Rightarrow> ('x \<Rightarrow> bool) \<Rightarrow> bool" where
  "reset_law g clear \<longleftrightarrow>
     (\<forall>s. tails (gas_symbol_end g s) = tails s \<and> tails (gas_symbol_begin g s) = tails s) \<and>
     (\<forall>x. clear (gas_restart_obstack g ''.text'' 0 x)) \<and>
     (\<forall>seg i x. seg \<noteq> ''.text'' \<longrightarrow> clear x \<longrightarrow> clear (gas_restart_obstack g seg i x)) \<and>
     (\<forall>seg c x. seg \<noteq> ''.text'' \<longrightarrow> clear x \<longrightarrow> clear (gas_set_chains g seg c x)) \<and>
     (\<forall>x. clear x \<longrightarrow> gas_now_fix g (gas_select_text g x) = 0)"

definition data_gas :: "('y, 'x) gas_api \<Rightarrow> ('x \<Rightarrow> bool) \<Rightarrow> bool" where
  "data_gas g clear \<longleftrightarrow>
     separate_capture g \<and> reset_law g clear \<and> frag_more_law g \<and> relax_keeps_fills (gas_ops.truncate g)"

lemma reset_other_empty:
  assumes "reset_law g clear" "clear x" "seg \<noteq> ''.text''"
  shows "clear (reset_other g seg x)"
proof -
  have "clear (fold (gas_restart_obstack g seg) is x)" for "is"
    by (rule fold_keeps [where P = clear]) (use assms in \<open>auto simp: reset_law_def\<close>)
  then show ?thesis using assms by (auto simp: reset_other_def reset_law_def Let_def split: option.split)
qed

lemma reset_holds:
  assumes "data_gas g clear" "tails s = [k]"
  shows "\<exists>e. holds (gas_ops.truncate g) [] e (capture_window_begin g (glue_reset g s))"
proof -
  let ?s = "gas_symbol_begin g (gas_symbol_end g s)"
  have law: "reset_law g clear" "separate_capture g" using assms(1) by (simp_all add: data_gas_def)
  then have tails: "tails ?s = [k]" using assms(2) by (simp add: reset_law_def)
  define x where "x = reset_other g ''.bss'' (reset_other g ''.data'' (gas_restart_obstack g ''.text'' 0 (ext ?s)))"
  have "clear x"
    unfolding x_def using law(1) by (intro reset_other_empty [OF law(1)]) (simp_all add: reset_law_def)
  then have now: "gas_now_fix g (gas_select_text g x) = 0" using law(1) by (simp add: reset_law_def)
  define t where "t = glue_reset g s"
  have t: "frags t = [] @ [fresh_frag]" "tails t = [0]" "frag_now t = 0" "fixups t = []"
      "ext t = gas_select_text g x"
    using tails by (simp_all add: t_def glue_reset_def reset_section_def emptied_def Let_def on_ext_def x_def)
  define u where "u = capture_window_begin g t"
  have u: "frags u = [] @ [fresh_frag]" "tails u = [0]" "frag_now u = 0" "fixups u = []"
      "gas_now_fix g (ext u) = 0"
    using t now law(2) by (simp_all add: u_def capture_window_begin_def on_ext_def separate_capture_def)
  have "data_section (gas_ops.truncate g) u"
    unfolding data_section_snoc [OF u(1)] using u by (simp add: plain_frag_def fresh_frag_def)
  moreover from section_bytes_snoc [OF u(1) this] have "section_bytes (gas_ops.truncate g) u = []"
    using u(5) by simp
  ultimately show ?thesis by (simp add: holds_def u_def t_def)
qed

text \<open>The text has no error of its own and calls nothing but \<open>nyxstone_glue_emit_bytes\<close>.\<close>

definition emits_only :: "string \<Rightarrow> byte list list \<Rightarrow> bool" where
  "emits_only source ps \<longleftrightarrow> parsed source = fresh (map Emit_bytes ps)"

lemma perform_emits: "fold (perform (gas_glue g)) (map Emit_bytes ps) s = fold (emit_bytes g) ps s"
  by (induction ps arbitrary: s) (simp_all add: gas_glue_def Let_def)

lemma data_assembled:
  assumes "data_gas g clear" "tails (gas st) = [k]"
    and "emits_only source ps" "\<forall>p \<in> set ps. length p < 2 ^ 31" "length (concat ps) < 2 ^ 64" "wr \<or> ls = []"
  shows "fst (do_assemble (gas_glue g) source a ls wr st) = Inr \<lparr>core_bytes = concat ps, core_relocations = []\<rparr>"
proof -
  let ?o = "gas_ops.truncate g"
  define s0 where "s0 = capture_window_begin g (glue_reset g (gas st))"
  obtain e where s0: "holds ?o [] e s0" using reset_holds [OF assms(1,2)] by (auto simp: s0_def)
  define s where "s = fold (emit_bytes g) ps s0"
  have cap: "separate_capture g" and more: "frag_more_law g" and relax: "relax_keeps_fills ?o"
    using assms(1) by (simp_all add: data_gas_def)
  have s: "holds ?o (concat ps) e s"
    using emits_hold [OF more assms(4) s0] assms(5) by (simp add: s_def)
  then obtain n where "holds_in ?o (concat ps) e n s" by (simp add: holds_in_def)
  from holds_laid_out [OF relax this] have laid: "holds ?o (concat ps) e (laid_out ?o s)"
    by (simp add: holds_in_def)
  define r where "r = resolve_text_fixups ?o a s"
  note r = applied_data [OF laid assms(5), of a, folded resolve_laid_out, folded r_def]
  define t where "t = snd (capture_window_end g (snd r))"
  have t: "errors ?o t = e" "unsupported_reloc t = None"
    using r capture_end_fields [OF cap, of "snd r"] by (simp_all add: t_def)
  have before: "errors ?o (glue_reset g (gas st)) = e"
    using s0 cap by (simp add: holds_def s0_def errors_def capture_window_begin_def on_ext_def separate_capture_def)
  have parse: "parse_source (gas_glue g) source (fresh s0) = fresh s"
    using assms(3) by (simp only: parse_source_trace emits_only_def) (simp add: fresh_def perform_emits s_def)
  have loaded: "(if wr then fresh s else on_gas (define_labels (gas_glue g) ls) (fresh s)) = fresh s"
    using assms(6) by (auto simp: define_labels_def on_gas_def fresh_def)
  have errs: "errors ?o s = e" using s by (simp add: holds_def)
  define w where "w = assemble_window (gas_glue g) source a ls wr st"
  have "w = window_rest (gas_glue g) a ls wr e (fresh s)"
    using before parse by (simp add: w_def assemble_window_def on_gas_fresh Let_def flip: s0_def)
  also have "\<dots> = \<lparr>w_driver = fresh t, w_errs_before = e, w_parse_err = False, w_unresolved = 0,
      w_diag = clean_gas_diag (fst (capture_window_end g (snd r)))\<rparr>"
    unfolding window_rest_def loaded Let_def
    using errs r(1) by (simp add: fresh_def case_prod_unfold t_def flip: r_def)
  finally have w: "w_driver w = fresh t" "w_errs_before w = e" "\<not> w_parse_err w" "w_unresolved w = 0"
    by simp_all
  have ready: "extractable ?o t" "section_bytes ?o t = concat ps" "relocs ?o t = []"
    using capture_end_keeps [OF cap, of "snd r"] r by (simp_all add: t_def)
  have "read_result (gas_glue g) a ls wr t = \<lparr>core_bytes = concat ps, core_relocations = []\<rparr>"
    using gas.fetch_image [OF ready(1), of 0] ready by (simp add: read_result_def gas.fetch_refs)
  moreover have "verdict (gas_glue g) wr w = None"
    by (simp add: verdict_def w t fresh_def Let_def)
  ultimately show ?thesis by (simp add: do_assemble_def w fresh_def flip: w_def)
qed

end
