(* ===== verification/Data_Text.thy ===== *)
theory Data_Text
  imports Data_Sources
begin

text \<open>
  Programs of data directives as text. A line is a list of strings, written as literals, or a
  list of integers, written in decimal; the theory prints it, follows the text through the
  scanners, the statement split and the handlers of \<^verbatim>\<open>src/src/nyxstone.cpp\<close>, and
  composes that with theory \<open>Data_Sources\<close>: the assembler gives back the bytes the program
  was printed from.
\<close>

subsection \<open>Lines and their text\<close>

datatype data_line = Strings bool "string list" | Numbers string "int list"

definition int_text :: "int \<Rightarrow> string" where
  "int_text v = (if v < 0 then CHR ''-'' # numeral_string 10 (nat (- v)) else numeral_string 10 (nat v))"

fun int_list_text :: "int list \<Rightarrow> string" where
  "int_list_text [] = []"
| "int_list_text [v] = int_text v"
| "int_list_text (v # vs) = int_text v @ CHR '','' # int_list_text vs"

definition line_word :: "data_line \<Rightarrow> string" where
  "line_word l = (case l of Strings z ss \<Rightarrow> if z then ''.asciz'' else ''.ascii'' | Numbers d vs \<Rightarrow> d)"

definition line_args :: "data_line \<Rightarrow> string" where
  "line_args l = (case l of Strings z ss \<Rightarrow> quoted_list ss | Numbers d vs \<Rightarrow> int_list_text vs)"

definition line_text :: "data_line \<Rightarrow> string" where
  "line_text l = line_word l @ CHR '' '' # line_args l"

definition line_ok :: "data_line \<Rightarrow> bool" where
  "line_ok l = (case l of Strings z ss \<Rightarrow> ss \<noteq> [] | Numbers d vs \<Rightarrow> data_width d \<noteq> 0 \<and> vs \<noteq> [])"

text \<open>What a line stands for: the bytes of the strings, each with its zero, or the low bytes of the
  values, least significant first.\<close>

definition line_blocks :: "data_line \<Rightarrow> byte list list" where
  "line_blocks l = (case l of
     Strings z ss \<Rightarrow> concat (map (\<lambda>s. bytes_of_string s # (if z then [[0]] else [])) ss)
   | Numbers d vs \<Rightarrow> map (\<lambda>v. emit_width (data_width d) (clamp64 v)) vs)"

fun program_text :: "data_line list \<Rightarrow> string" where
  "program_text [] = []"
| "program_text (l # ls) = line_text l @ NEWLINE # program_text ls"

subsection \<open>Literals and plain text under the scanners\<close>

definition tame :: "char \<Rightarrow> bool" where
  "tame c \<longleftrightarrow> c \<notin> {QUOTE, CHR ''/'', CHR ''#'', CHR '';'', NEWLINE}"

lemma literal_escaped: "literal_body (concat (map escape_char s))"
  by (induction s) (auto simp: escape_char_def)

lemma clean_literal: "literal_body b \<Longrightarrow> clean stop t True (b @ QUOTE # p) = clean stop t False p"
  by (induction b rule: literal_body.induct) (auto split: list.splits)

lemma clean_quoted: "clean stop t False (quoted s @ p) = clean stop t False p"
  by (simp add: quoted_def clean_literal [OF literal_escaped])

text \<open>None of the scanners stops at a tame character.\<close>

definition skips_tame :: "(char \<Rightarrow> string \<Rightarrow> bool) \<Rightarrow> bool" where
  "skips_tame stop \<longleftrightarrow> (\<forall>c s. tame c \<longrightarrow> \<not> stop c s)"

lemma scanners_skip_tame: "skips_tame block_start" "skips_tame line_start" "skips_tame separator_start"
  by (auto simp: skips_tame_def tame_def start_defs is_separator_def)

lemma clean_tame: "skips_tame stop \<Longrightarrow> \<forall>c \<in> set p. tame c \<Longrightarrow> clean stop t False (p @ q) = clean stop t False q"
  by (induction p) (auto simp: skips_tame_def tame_def)

lemma clean_quoted_list: "skips_tame stop \<Longrightarrow> clean stop t False (quoted_list ss)"
proof (induction ss rule: quoted_list.induct)
  case (2 s)
  then show ?case using clean_quoted [of stop t s "[]"] by simp
next
  case (3 s r ss)
  have "tame (CHR '','')" by (simp add: tame_def)
  then show ?case using 3 by (simp add: clean_quoted skips_tame_def)
qed simp

lemma numeral_chars: "c \<in> set (numeral_string 10 n) \<Longrightarrow> isdigit c"
proof (induction "10 :: nat" n rule: numeral_string.induct)
  case (1 n)
  have digit: "isdigit (digit_char d)" if "d < 10" for d
    using that by (simp add: digit_char_def isdigit_def)
  show ?case
    using 1 digit [of n] digit [of "n mod 10"]
    by (subst (asm) numeral_string.simps) (auto split: if_splits)
qed

lemma int_text_chars: "c \<in> set (int_text v) \<Longrightarrow> isdigit c \<or> c = CHR ''-''"
  by (auto simp: int_text_def dest: numeral_chars split: if_splits)

lemma int_list_chars: "c \<in> set (int_list_text vs) \<Longrightarrow> isdigit c \<or> c = CHR ''-'' \<or> c = CHR '',''"
  by (induction vs rule: int_list_text.induct) (auto dest: int_text_chars)

lemma digit_tame: "isdigit c \<Longrightarrow> tame c \<and> \<not> isspace c \<and> c \<noteq> CHR '','' \<and> c \<noteq> CHR '':''"
  by (auto simp: isdigit_def tame_def isspace_def)

lemma int_list_tame: "c \<in> set (int_list_text vs) \<Longrightarrow> tame c \<and> \<not> isspace c"
proof -
  assume "c \<in> set (int_list_text vs)"
  then consider "isdigit c" | "c = CHR ''-''" | "c = CHR '',''" using int_list_chars by blast
  then show ?thesis by cases (simp_all add: digit_tame, simp_all add: tame_def isspace_def)
qed

subsection \<open>Operand lists read back\<close>

lemma comma_pieces_plain: "CHR '','' \<notin> set p \<Longrightarrow> comma_pieces p = [p]"
  by (induction p) auto

lemma int_text_no_comma: "CHR '','' \<notin> set (int_text v)"
  using int_text_chars [of _ v] digit_tame by fastforce

lemma int_text_pieces:
  "vs \<noteq> [] \<Longrightarrow> comma_pieces (int_list_text vs) = map int_text vs"
proof (induction vs rule: int_list_text.induct)
  case (2 v)
  then show ?case by (simp add: comma_pieces_plain int_text_no_comma)
next
  case (3 v w vs)
  then show ?case by (simp add: comma_pieces_comma int_text_no_comma)
qed simp

lemma int_text_value: "literal_value (int_text v) = Some (clamp64 v)"
  by (simp add: literal_value_def int_text_def parse_int_roundtrip_eqs)

lemma int_text_not_blank: "ltrim (int_text v) \<noteq> []"
  using int_text_value [of v] by (auto simp: literal_value_def parse_int_def Let_def split: option.splits)

lemma int_text_values: "piece_values (map int_text vs) = Some (map clamp64 vs)"
  by (induction vs rule: int_list_text.induct) (simp_all add: int_text_value int_text_not_blank)

lemma numbers_read_back:
  assumes "vs \<noteq> []"
  shows "all_int_literals (int_list_text vs) \<and>
    emit_int_list (int_list_text vs) w = map (\<lambda>v. emit_width w (clamp64 v)) vs"
  using literal_list_cases [of "int_list_text vs" w] by (simp add: int_text_pieces [OF assms] int_text_values)

lemma emit_strings: "fold (emit_string gl z) ss st
    = fold (emit gl) (concat (map (\<lambda>s. bytes_of_string s # (if z then [[0]] else [])) ss)) st"
  by (induction ss arbitrary: st) (simp_all add: emit_string_def emit_u8_def)

text \<open>The directive words contain neither blanks nor colons.\<close>

lemma data_widths:
  assumes "data_width d \<noteq> 0"
  shows "d \<in> set [''.byte'', ''.half'', ''.hword'', ''.short'', ''.2byte'', ''.word'', ''.int'', ''.long'',
    ''.4byte'', ''.quad'', ''.8byte'']"
  using assms by (auto simp: data_width_def split: if_splits)

lemma word_shape:
  assumes "line_ok l"
  shows "hd (line_word l) = CHR ''.''" "list_all label_char (line_word l)" "list_all tame (line_word l)"
    "list_all (\<lambda>c. \<not> isspace c) (line_word l)" "line_word l \<noteq> []"
proof -
  have "line_word l \<in> set [''.ascii'', ''.asciz'', ''.byte'', ''.half'', ''.hword'', ''.short'', ''.2byte'',
      ''.word'', ''.int'', ''.long'', ''.4byte'', ''.quad'', ''.8byte'']"
  proof (cases l)
    case (Numbers d vs)
    then have "data_width d \<noteq> 0" using assms by (simp add: line_ok_def)
    from data_widths [OF this] show ?thesis by (auto simp: Numbers line_word_def)
  qed (simp add: line_word_def)
  moreover have "list_all (\<lambda>d. hd d = CHR ''.'' \<and> list_all label_char d \<and> list_all tame d \<and>
      list_all (\<lambda>c. \<not> isspace c) d \<and> d \<noteq> [])
    [''.ascii'', ''.asciz'', ''.byte'', ''.half'', ''.hword'', ''.short'', ''.2byte'',
      ''.word'', ''.int'', ''.long'', ''.4byte'', ''.quad'', ''.8byte'']"
    by (simp add: label_char_def tame_def char_class_defs)
  ultimately have "hd (line_word l) = CHR ''.'' \<and> list_all label_char (line_word l) \<and> list_all tame (line_word l) \<and>
      list_all (\<lambda>c. \<not> isspace c) (line_word l) \<and> line_word l \<noteq> []"
    unfolding list_all_iff by blast
  then show "hd (line_word l) = CHR ''.''" "list_all label_char (line_word l)" "list_all tame (line_word l)"
    "list_all (\<lambda>c. \<not> isspace c) (line_word l)" "line_word l \<noteq> []" by simp_all
qed

lemma quoted_list_ends: "ss \<noteq> [] \<Longrightarrow> quoted_list ss \<noteq> [] \<and> hd (quoted_list ss) = QUOTE \<and> last (quoted_list ss) = QUOTE"
  by (induction ss rule: quoted_list.induct) (simp_all add: quoted_def)

lemma int_list_nonempty: "vs \<noteq> [] \<Longrightarrow> int_list_text vs \<noteq> []"
  using int_text_not_blank [of "hd vs"] by (cases vs rule: int_list_text.cases) auto

lemma args_shape:
  assumes "line_ok l"
  shows "line_args l \<noteq> []" "\<not> isspace (hd (line_args l))" "\<not> isspace (last (line_args l))"
    "skips_tame stop \<Longrightarrow> clean stop t False (line_args l)"
proof -
  have "line_args l \<noteq> [] \<and> \<not> isspace (hd (line_args l)) \<and> \<not> isspace (last (line_args l)) \<and>
    (skips_tame stop \<longrightarrow> clean stop t False (line_args l))"
  proof (cases l)
    case (Strings z ss)
    then show ?thesis
      using assms quoted_list_ends [of ss] by (simp add: line_ok_def line_args_def clean_quoted_list isspace_def)
  next
    case (Numbers d vs)
    then have "int_list_text vs \<noteq> []" using assms by (simp add: line_ok_def int_list_nonempty)
    then show ?thesis
      using int_list_tame [of _ vs] clean_tame [of stop "int_list_text vs" t "[]"]
      by (auto simp: Numbers line_args_def)
  qed
  then show "line_args l \<noteq> []" "\<not> isspace (hd (line_args l))" "\<not> isspace (last (line_args l))"
    "skips_tame stop \<Longrightarrow> clean stop t False (line_args l)" by blast+
qed

lemma trim_ends:
  "xs \<noteq> [] \<Longrightarrow> \<not> isspace (hd xs) \<Longrightarrow> ltrim xs = xs" "xs \<noteq> [] \<Longrightarrow> \<not> isspace (last xs) \<Longrightarrow> rtrim xs = xs"
proof -
  show trim: "ys \<noteq> [] \<Longrightarrow> \<not> isspace (hd ys) \<Longrightarrow> ltrim ys = ys" for ys by (cases ys) simp_all
  show "xs \<noteq> [] \<Longrightarrow> \<not> isspace (last xs) \<Longrightarrow> rtrim xs = xs" by (simp add: rtrim_def trim hd_rev)
qed

lemma line_directive:
  assumes "line_ok l"
  shows "directive_word (line_text l) = line_word l" "directive_args (line_text l) = line_args l"
proof -
  have blanks: "\<forall>c \<in> set (line_word l). \<not> isspace c" using word_shape(4) [OF assms] by (simp add: list_all_iff)
  then show "directive_word (line_text l) = line_word l"
    by (simp add: directive_word_def line_text_def takeWhile_append isspace_def)
  have "rtrim (ltrim (line_args l)) = line_args l" using args_shape [OF assms] by (simp add: trim_ends)
  then show "directive_args (line_text l) = line_args l"
    using blanks by (simp add: directive_args_def line_text_def dropWhile_append isspace_def)
qed

subsection \<open>A program through the parse phase\<close>

lemma line_clean:
  assumes "line_ok l" "skips_tame stop"
  shows "clean stop t False (line_text l @ p) = clean stop t False p"
proof -
  have front: "\<forall>c \<in> set (line_word l @ '' ''). tame c"
    using word_shape(3) [OF assms(1)] by (auto simp: list_all_iff tame_def)
  have args: "clean stop t False (line_args l @ p) = clean stop t False p"
  proof (cases l)
    case (Strings z ss)
    have "tame (CHR '','')" by (simp add: tame_def)
    then have "clean stop t False (quoted_list ss @ p) = clean stop t False p"
      using assms(2) by (induction ss rule: quoted_list.induct) (simp_all add: clean_quoted skips_tame_def)
    then show ?thesis by (simp add: Strings line_args_def)
  next
    case (Numbers d vs)
    then show ?thesis using clean_tame [OF assms(2)] int_list_tame by (simp add: line_args_def)
  qed
  show ?thesis using clean_tame [OF assms(2) front, of t "line_args l @ p"] by (simp add: line_text_def args)
qed

lemma line_clean_whole: "line_ok l \<Longrightarrow> skips_tame stop \<Longrightarrow> clean stop t False (line_text l)"
  using line_clean [of l stop t "[]"] by simp

lemma program_clean:
  assumes "list_all line_ok ls"
  shows "strip_block_comments (program_text ls) = program_text ls"
proof -
  have "clean block_start [] False (program_text ls)"
    using assms
    by (induction ls) (simp_all add: line_clean scanners_skip_tame, simp_all add: block_start_def)
  then show ?thesis using block_scan.clean_prefix by (fastforce simp: strip_block_comments_def)
qed

lemma program_statements:
  assumes "list_all line_ok ls"
  shows "split_statements (program_text ls) = map line_text ls"
proof -
  have "pieces False (program_text ls) = map line_text ls @ [[]]"
    using assms
  proof (induction ls)
    case (Cons l ls)
    have "clean separator_start t False (line_text l)" for t
      using Cons.prems by (simp add: line_clean_whole scanners_skip_tame)
    then show ?case using Cons by (simp add: split_at_separator is_separator_def)
  qed simp
  then show ?thesis by (simp add: split_statements_pieces drop_last_empty_def butlast_append)
qed

lemma line_ends:
  assumes "line_ok l"
  shows "line_text l \<noteq> []" "hd (line_text l) = CHR ''.''" "\<not> isspace (last (line_text l))"
  using word_shape(1,5) [OF assms] args_shape(1,3) [OF assms] by (simp_all add: line_text_def)

lemma line_statement: "line_ok l \<Longrightarrow> statement_text (line_text l) = line_text l"
  using line_ends [of l] line_scan.clean_prefix [OF line_clean_whole [of l line_start "[]"]]
  by (simp add: statement_text_def strip_comment_def trim_ends scanners_skip_tame isspace_def)

lemma line_no_labels: "line_ok l \<Longrightarrow> strip_labels gl (line_text l) st = (line_text l, st)"
  using word_shape(2) [of l]
  by (subst strip_labels.simps)
    (simp add: line_text_def takeWhile_append dropWhile_append list_all_iff label_char_def char_class_defs)

lemma line_handled:
  assumes "line_ok l"
  shows "handle_directive gl (line_text l) st = (True, fold (emit gl) (line_blocks l) st)"
proof (cases l)
  case (Strings z ss)
  then have "ss \<noteq> []" using assms by (simp add: line_ok_def)
  then show ?thesis
    unfolding handle_directive_def line_directive [OF assms] Let_def
    by (simp add: Strings line_word_def line_args_def line_blocks_def data_width_def emit_ascii_def
        emit_ascii_loop_list emit_strings)
next
  case (Numbers d vs)
  then have "data_width d \<noteq> 0" "vs \<noteq> []" using assms by (simp_all add: line_ok_def)
  then show ?thesis
    unfolding handle_directive_def line_directive [OF assms] Let_def
    by (simp add: Numbers line_word_def line_args_def line_blocks_def handle_data_def numbers_read_back)
qed

lemma line_processed:
  assumes "line_ok l"
  shows "process gl (line_text l) st = fold (emit gl) (line_blocks l) st"
  using line_ends [OF assms]
  by (simp add: process_def line_statement [OF assms] line_no_labels [OF assms] dispatch_def line_handled [OF assms])

lemma fold_emit_recorder: "fold (emit recorder) ps (fresh cs) = fresh (cs @ map Emit_bytes ps)"
  by (induction ps arbitrary: cs) (simp_all add: emit_def on_gas_fresh)

lemma program_trace:
  assumes "list_all line_ok ls"
  shows "emits_only (program_text ls) (concat (map line_blocks ls))"
proof -
  have "fold (process recorder) (map line_text ls) (fresh cs) = fresh (cs @ map Emit_bytes (concat (map line_blocks ls)))" for cs
    using assms
    by (induction ls arbitrary: cs) (simp_all add: line_processed fold_emit_recorder)
  from this [of "[]"] show ?thesis
    by (simp add: emits_only_def parsed_def parse_source_def program_clean [OF assms] program_statements [OF assms])
qed


subsection \<open>A gas with small obstack chunks\<close>

text \<open>Eight bytes fit a chunk; a larger request opens a new frag. The size of the obstack's object is
  all there is to gas's state.\<close>

definition chunk_more :: "u64 \<Rightarrow> (nat, int) segment \<Rightarrow> literal_ptr \<times> (nat, int) segment" where
  "chunk_more sz s =
     (let n = unat sz; k = last_frag s; fr = frags s ! k;
          now = word_of_int (ext s) :: u64; used = unat now
      in if used + n \<le> 8 then
           ((k, used), s\<lparr>frags := (frags s)[k := fr\<lparr>fr_literal := take used (fr_literal fr) @ replicate n 0\<rparr>],
             ext := int (used + n)\<rparr>)
         else
           ((Suc k, 0), s\<lparr>frags := (frags s)[k := fr\<lparr>fr_fix := now, fr_type := Rs_fill, fr_offset := 0, fr_var := 0\<rparr>] @
              [fresh_frag\<lparr>fr_type := Rs_zero, fr_literal := replicate n 0\<rparr>],
             tails := [Suc k], frag_now := Suc k, ext := int n\<rparr>))"

definition chunk_gas :: "(nat, int) gas_api" where
  "chunk_gas = sample_api\<lparr>gas_now_fix := word_of_int, gas_had_errors := (\<lambda>_. 0),
     gas_relax_segment := (\<lambda>_ s. (False, s)), gas_frag_more := chunk_more,
     gas_restart_obstack := (\<lambda>seg i x. if seg = ''.text'' then 0 else x)\<rparr>"

lemma chunk_gas_fields:
  "gas_now_fix chunk_gas = word_of_int" "gas_had_errors chunk_gas = (\<lambda>_. 0)"
  "gas_relax_segment chunk_gas = (\<lambda>_ s. (False, s))" "gas_frag_more chunk_gas = chunk_more"
  "gas_restart_obstack chunk_gas = (\<lambda>seg i x. if seg = ''.text'' then 0 else x)"
  "gas_set_capture chunk_gas c x = x" "gas_select_text chunk_gas x = x" "gas_set_chains chunk_gas seg ch x = x"
  "gas_symbol_end chunk_gas s = s" "gas_symbol_begin chunk_gas s = s"
  by (simp_all add: chunk_gas_def sample_api_def gas_ops.extend_def)

lemma chunk_makes_room:
  assumes "data_section (gas_ops.truncate chunk_gas) s" "n < 2 ^ 31"
  shows "makes_room chunk_gas n s"
proof -
  have n: "unat (of_nat n :: u64) = n" using assms(2) by (intro unat_small) simp
  obtain fs fr where fs: "frags s = fs @ [fr]" using assms(1) by (metis append_butlast_last_id data_section_def)
  have k: "last_frag s = length fs" by (simp add: last_frag_def fs)
  note d = assms(1) [unfolded data_section_snoc [OF fs], simplified]
  have "unat (word_of_int (ext s) :: u64) \<le> length (fr_literal fr)" using d by (simp add: chunk_gas_fields)
  then show ?thesis
    unfolding makes_room_def chunk_gas_fields chunk_more_def n k Let_def
    using d by (simp add: fs nth_append)
qed

lemma chunk_data_gas: "data_gas chunk_gas (\<lambda>x. x = 0)"
proof -
  have "separate_capture chunk_gas" by (simp add: separate_capture_def chunk_gas_fields)
  moreover have "reset_law chunk_gas (\<lambda>x. x = 0)" by (simp add: reset_law_def chunk_gas_fields)
  moreover have "frag_more_law chunk_gas" by (simp add: frag_more_law_def chunk_makes_room)
  moreover have "relax_keeps_fills (gas_ops.truncate chunk_gas)"
    by (simp add: relax_keeps_fills_def gas_ops.truncate_def chunk_gas_fields Let_def)
  ultimately show ?thesis by (simp add: data_gas_def)
qed

text \<open>A string with a quote, a comment mark and a separator in it, three words and a string with
  its zero: two frags are closed on the way.\<close>

definition sample_program :: "data_line list" where
  "sample_program = [Strings False [[QUOTE] @ ''#;''], Numbers ''.word'' [1, -2, 0x12345678], Strings True [''ok'']]"

lemma sample_program_blocks: "concat (map line_blocks sample_program) =
    [[34, 35, 59], [1, 0, 0, 0], [0xfe, 0xff, 0xff, 0xff], [0x78, 0x56, 0x34, 0x12], [111, 107], [0]]"
  by (simp add: sample_program_def line_blocks_def bytes_of_string_def data_width_def emit_width_def emit_u32_def
      clamp64_def)


end
