(* ===== verification/Sections.thy ===== *)
theory Sections
  imports Data_Text "HOL-Library.Sublist"
begin

text \<open>
  Which programs select a section other than \<open>.text\<close>. Statements are given by their parts,
  labels, directive or mnemonic, and operands, and printed; the specification looks at the parts only.
  The theory follows the text through the scanners, the statement split, the label loop and
  \<open>handle_directive\<close> of \<^verbatim>\<open>src/src/nyxstone.cpp\<close>.
\<close>

subsection \<open>Statements and their text\<close>

text \<open>\<open>.section name\<close>, possibly with permissions in quotes and more operands, or any other directive or
  instruction.\<close>

datatype body = Section string "(string \<times> string) option" | Other string string

datatype labelled = Labelled "string list" body

definition word_of :: "body \<Rightarrow> string" where
  "word_of b = (case b of Section name flags \<Rightarrow> ''.section'' | Other w args \<Rightarrow> w)"

definition args_of :: "body \<Rightarrow> string" where
  "args_of b = (case b of
     Section name flags \<Rightarrow> name @ (case flags of None \<Rightarrow> [] | Some (perms, rest) \<Rightarrow> CHR '','' # quoted perms @ rest)
   | Other w args \<Rightarrow> args)"

definition body_text :: "body \<Rightarrow> string" where
  "body_text b = word_of b @ (if args_of b = [] then [] else CHR '' '' # args_of b)"

fun labelled_text :: "string list \<Rightarrow> string \<Rightarrow> string" where
  "labelled_text [] t = t"
| "labelled_text (l # ls) t = l @ CHR '':'' # CHR '' '' # labelled_text ls t"

fun statement_line :: "labelled \<Rightarrow> string" where
  "statement_line (Labelled ls b) = labelled_text ls (body_text b)"

fun statements_text :: "labelled list \<Rightarrow> string" where
  "statements_text [] = []"
| "statements_text (s # ss) = statement_line s @ NEWLINE # statements_text ss"

text \<open>No part looks like something else: names, words and operands contain no quote, comment mark or
  separator, words no blank and no colon, section names neither blank nor comma.\<close>

definition label_ok :: "string \<Rightarrow> bool" where
  "label_ok l \<longleftrightarrow> l \<noteq> [] \<and> list_all (\<lambda>c. isalnum c \<or> c \<in> set ''_.$'') l"

definition operands_ok :: "string \<Rightarrow> bool" where
  "operands_ok args \<longleftrightarrow> list_all tame args \<and> (args \<noteq> [] \<longrightarrow> \<not> isspace (hd args) \<and> \<not> isspace (last args))"

definition body_ok :: "body \<Rightarrow> bool" where
  "body_ok b = (case b of
     Section name flags \<Rightarrow> name \<noteq> [] \<and> list_all (\<lambda>c. tame c \<and> \<not> isspace c \<and> c \<noteq> CHR '','') name \<and>
       (case flags of None \<Rightarrow> True | Some (perms, rest) \<Rightarrow> operands_ok rest)
   | Other w args \<Rightarrow> w \<noteq> [] \<and> w \<noteq> ''.section'' \<and> list_all (\<lambda>c. tame c \<and> \<not> isspace c \<and> c \<noteq> CHR '':'') w \<and>
       operands_ok args)"

fun statement_ok :: "labelled \<Rightarrow> bool" where
  "statement_ok (Labelled ls b) \<longleftrightarrow> list_all label_ok ls \<and> body_ok b"

subsection \<open>The specification\<close>

text \<open>The sections a caller may name are \<open>.text\<close> and those below \<open>.text.\<close>; nine directives select another
  section by themselves, or one that the text does not tell.\<close>

fun foreign :: "labelled \<Rightarrow> bool" where
  "foreign (Labelled ls (Section name flags)) \<longleftrightarrow> \<not> (name = ''.text'' \<or> prefix ''.text.'' name)"
| "foreign (Labelled ls (Other w args)) \<longleftrightarrow>
     w \<in> {''.data'', ''.bss'', ''.rodata'', ''.sdata'', ''.sbss'', ''.tdata'', ''.tbss'', ''.pushsection'', ''.previous''}"

subsection \<open>A statement through the parse phase\<close>

lemma word_ok:
  assumes "body_ok b"
  shows "word_of b \<noteq> []" "list_all (\<lambda>c. tame c \<and> \<not> isspace c \<and> c \<noteq> CHR '':'') (word_of b)"
  using assms by (auto simp: body_ok_def word_of_def tame_def isspace_def split: body.splits)

lemma args_ok:
  assumes "body_ok b" "args_of b \<noteq> []"
  shows "\<not> isspace (hd (args_of b))" "\<not> isspace (last (args_of b))"
proof (atomize (full), cases b)
  case (Section name flags)
  then have name: "name \<noteq> []" "list_all (\<lambda>c. \<not> isspace c) name" using assms by (auto simp: body_ok_def list_all_iff)
  then have "\<not> isspace (hd name)" "\<not> isspace (last name)" by (simp_all add: list_all_iff)
  moreover have "\<not> isspace (last (name @ CHR '','' # quoted perms @ rest))" if "operands_ok rest" for perms rest
    using that by (cases "rest = []") (simp_all add: operands_ok_def quoted_def isspace_def)
  ultimately show "\<not> isspace (hd (args_of b)) \<and> \<not> isspace (last (args_of b))"
    using assms Section name(1) by (cases flags) (auto simp: args_of_def body_ok_def)
qed (use assms in \<open>simp add: args_of_def body_ok_def operands_ok_def\<close>)

lemma clean_plain:
  assumes "skips_tame stop"
  shows "list_all tame xs \<Longrightarrow> clean stop t False (xs @ q) = clean stop t False q"
    "tame c \<Longrightarrow> clean stop t False (c # q) = clean stop t False q"
  using clean_tame [OF assms, of xs t q] clean_tame [OF assms, of "[c]" t q] by (simp_all add: list_all_iff)

lemma tame_marks: "tame (CHR '','')" "tame (CHR '' '')" "tame (CHR '':'')"
  by (simp_all add: tame_def)

lemma args_clean:
  assumes "body_ok b" "skips_tame stop"
  shows "clean stop t False (args_of b @ p) = clean stop t False p"
proof (cases b)
  case (Section name flags)
  then have "list_all tame name" using assms by (simp add: body_ok_def list_all_iff)
  then show ?thesis
    using assms Section
    by (cases flags) (auto simp: args_of_def body_ok_def operands_ok_def clean_plain tame_marks clean_quoted simp del: clean.simps)
next
  case (Other w args)
  then show ?thesis using assms by (simp add: args_of_def body_ok_def operands_ok_def clean_plain)
qed

lemma body_clean:
  assumes "body_ok b" "skips_tame stop"
  shows "clean stop t False (body_text b @ p) = clean stop t False p"
proof -
  have "list_all tame (word_of b)" using word_ok [OF assms(1)] by (simp add: list_all_iff)
  then show ?thesis by (simp add: body_text_def clean_plain [OF assms(2)] tame_marks args_clean [OF assms] del: clean.simps)
qed

lemma label_chars:
  assumes "label_ok l"
  shows "l \<noteq> []" "list_all label_char l" "list_all tame l" "list_all (\<lambda>c. \<not> isspace c) l"
proof -
  have chars: "label_char c \<and> tame c \<and> \<not> isspace c" if "isalnum c \<or> c \<in> set ''_.$''" for c
    using that by (auto simp: label_char_def tame_def char_class_defs)
  then show "l \<noteq> []" "list_all label_char l" "list_all tame l" "list_all (\<lambda>c. \<not> isspace c) l"
    using assms by (auto simp: label_ok_def list_all_iff)
qed

lemma line_scans:
  assumes "statement_ok s" "skips_tame stop"
  shows "clean stop t False (statement_line s @ p) = clean stop t False p"
proof -
  obtain ls b where s: "s = Labelled ls b" by (cases s)
  have "clean stop t False (labelled_text ls u @ p) = clean stop t False (u @ p)" if "list_all label_ok ls" for u
    using that
  proof (induction ls)
    case (Cons l ls)
    then show ?case using label_chars(3) [of l] by (simp add: clean_plain [OF assms(2)] tame_marks del: clean.simps)
  qed simp
  then show ?thesis using assms(1) body_clean [OF _ assms(2)] by (simp add: s)
qed

lemma body_ends:
  assumes "body_ok b"
  shows "body_text b \<noteq> []" "\<not> isspace (hd (body_text b))" "\<not> isspace (last (body_text b))"
  using word_ok [OF assms] args_ok [OF assms] by (auto simp: body_text_def list_all_iff)

lemma labelled_ends:
  assumes "list_all label_ok ls" "body_ok b"
  shows "labelled_text ls (body_text b) \<noteq> []" "\<not> isspace (hd (labelled_text ls (body_text b)))"
    "\<not> isspace (last (labelled_text ls (body_text b)))"
proof -
  show ends: "labelled_text ks (body_text b) \<noteq> []" for ks
    using body_ends [OF assms(2)] by (cases ks) simp_all
  show "\<not> isspace (hd (labelled_text ls (body_text b)))"
    using assms body_ends [OF assms(2)] label_chars(1,4) [of "hd ls"] by (cases ls) (auto simp: list_all_iff)
  show "\<not> isspace (last (labelled_text ls (body_text b)))"
    using assms(1) body_ends [OF assms(2)] by (induction ls) (simp_all add: ends)
qed

lemma statement_kept:
  assumes "statement_ok s"
  shows "statement_text (statement_line s) = statement_line s"
proof -
  obtain ls b where s: "s = Labelled ls b" by (cases s)
  have "clean line_start [] False (statement_line s)"
    using line_scans [OF assms, of line_start "[]" "[]"] by (simp add: scanners_skip_tame)
  then show ?thesis
    using assms labelled_ends [of ls b] line_scan.clean_prefix [of "[]" False "statement_line s"]
    by (simp add: statement_text_def strip_comment_def trim_ends s)
qed

lemma no_label:
  assumes "CHR '':'' \<notin> set w" "u = [] \<or> hd u = CHR '' ''"
  shows "strip_labels gl (w @ u) st = (w @ u, st)"
proof -
  have "dropWhile label_char (w @ u) = [] \<or> hd (dropWhile label_char (w @ u)) \<noteq> CHR '':''"
  proof (cases "\<forall>c \<in> set w. label_char c")
    case True
    then have "dropWhile label_char (w @ u) = dropWhile label_char u" by (simp add: dropWhile_append)
    moreover have "\<not> label_char (CHR '' '')" by (simp add: label_char_def char_class_defs)
    ultimately show ?thesis using assms(2) by (cases u) auto
  next
    case False
    then have ne: "dropWhile label_char w \<noteq> []" by auto
    then have "hd (dropWhile label_char w) \<in> set w" by (metis dropWhile_eq_Nil_conv hd_in_set set_dropWhileD)
    then show ?thesis using ne assms(1) False by (auto simp: dropWhile_append)
  qed
  then show ?thesis by (subst strip_labels.simps) (auto simp: Let_def)
qed

lemma labels_stripped:
  assumes "list_all label_ok ls" "body_ok b"
  shows "fst (strip_labels gl (labelled_text ls (body_text b)) st) = body_text b"
  using assms(1)
proof (induction ls arbitrary: st)
  case Nil
  have "CHR '':'' \<notin> set (word_of b)" using word_ok(2) [OF assms(2)] by (auto simp: list_all_iff)
  from no_label [OF this, of "if args_of b = [] then [] else CHR '' '' # args_of b" gl st]
  show ?case by (simp add: body_text_def)
next
  case (Cons l ls)
  then have l: "l \<noteq> []" "list_all label_char l" using label_chars [of l] by simp_all
  define t where "t = labelled_text ls (body_text b)"
  have colon: "\<not> label_char (CHR '':'')" by (simp add: label_char_def char_class_defs)
  have "ltrim t = t" using labelled_ends [of ls b] Cons.prems assms(2) by (simp add: trim_ends t_def)
  then have trim: "ltrim (CHR '' '' # t) = t" by (simp add: isspace_def)
  have name: "takeWhile label_char (l @ CHR '':'' # CHR '' '' # t) = l"
    "dropWhile label_char (l @ CHR '':'' # CHR '' '' # t) = CHR '':'' # CHR '' '' # t"
    using l colon by (simp_all add: list_all_iff takeWhile_append dropWhile_append)
  have "strip_labels gl (l @ CHR '':'' # CHR '' '' # t) st = strip_labels gl t (define_label gl l st)"
    by (subst strip_labels.simps) (simp add: name trim l del: ltrim.simps)
  then show ?case using Cons by (simp add: t_def)
qed

lemma body_directive:
  assumes "body_ok b"
  shows "directive_word (body_text b) = word_of b"
    "args_of b \<noteq> [] \<Longrightarrow> directive_args (body_text b) = args_of b"
proof -
  have blanks: "\<forall>c \<in> set (word_of b). \<not> isspace c" using word_ok(2) [OF assms] by (simp add: list_all_iff)
  then show "directive_word (body_text b) = word_of b"
    by (auto simp: directive_word_def body_text_def takeWhile_append isspace_def takeWhile_eq_all_conv)
  assume ne: "args_of b \<noteq> []"
  then have "rtrim (ltrim (args_of b)) = args_of b" using args_ok [OF assms] by (simp add: trim_ends)
  then show "directive_args (body_text b) = args_of b"
    using blanks ne by (simp add: directive_args_def body_text_def dropWhile_append isspace_def)
qed

lemma text_section_iff: "is_text_section name \<longleftrightarrow> name = ''.text'' \<or> prefix ''.text.'' name"
proof -
  have "length name > 5 \<and> take 6 name = ''.text.'' \<longleftrightarrow> prefix ''.text.'' name"
  proof
    assume "length name > 5 \<and> take 6 name = ''.text.''"
    then show "prefix ''.text.'' name" by (metis take_is_prefix)
  qed (auto simp: prefix_def)
  then show ?thesis by (simp add: is_text_section_def)
qed

lemma section_named:
  assumes "body_ok (Section name flags)"
  shows "section_name (args_of (Section name flags)) = name"
proof -
  have name: "name \<noteq> []" "\<forall>c \<in> set name. \<not> isspace c \<and> c \<noteq> CHR '',''"
    using assms by (auto simp: body_ok_def list_all_iff)
  then have "ltrim (name @ u) = name @ u" for u by (cases name) simp_all
  then show ?thesis
    using name by (auto simp: section_name_def args_of_def takeWhile_append takeWhile_eq_all_conv split: option.split)
qed

lemma statement_violation:
  assumes "statement_ok s"
  shows "statement_violates (statement_line s) = foreign s"
proof -
  obtain ls b where s: "s = Labelled ls b" by (cases s)
  have ok: "list_all label_ok ls" "body_ok b" using assms by (simp_all add: s)
  have line: "unlabelled (statement_line s) = body_text b"
    using labels_stripped [OF ok] by (simp only: unlabelled_def statement_kept [OF assms]) (simp add: s)
  have "hd (body_text b) = hd (word_of b)" using word_ok(1) [OF ok(2)] by (simp add: body_text_def)
  then have violates: "statement_violates (statement_line s) \<longleftrightarrow> hd (word_of b) = CHR ''.'' \<and> selects_other_section (body_text b)"
    using body_ends(1) [OF ok(2)] by (simp only: statement_violates_def line Let_def simp_thms)
  show ?thesis
  proof (cases b)
    case (Section name flags)
    then have "args_of b \<noteq> []" "word_of b = ''.section''" using ok(2) by (simp_all add: args_of_def body_ok_def word_of_def)
    then show ?thesis
      using body_directive [OF ok(2)] section_named [of name flags] ok(2)
      unfolding violates selects_other_section_def by (simp add: text_section_iff s Section section_directives_def)
  next
    case (Other w args)
    then have "w \<noteq> ''.section''" "word_of b = w" using ok(2) by (simp_all add: body_ok_def word_of_def)
    then show ?thesis
      using body_directive(1) [OF ok(2)]
      unfolding violates selects_other_section_def by (auto simp: s Other section_directives_def)
  qed
qed

lemma statements_split:
  assumes "list_all statement_ok ss"
  shows "split_statements (strip_block_comments (statements_text ss)) = map statement_line ss"
proof -
  have "clean block_start [] False (statements_text ss)"
    using assms
    by (induction ss) (simp_all add: line_scans scanners_skip_tame, simp_all add: block_start_def)
  then have block: "strip_block_comments (statements_text ss) = statements_text ss"
    using block_scan.clean_prefix by (fastforce simp: strip_block_comments_def)
  have "pieces False (statements_text ss) = map statement_line ss @ [[]]"
    using assms
  proof (induction ss)
    case (Cons s ss)
    have "clean separator_start t False (statement_line s)" for t
      using Cons.prems line_scans [of s separator_start t "[]"] by (simp add: scanners_skip_tame)
    then show ?case using Cons by (simp add: split_at_separator is_separator_def)
  qed simp
  then show ?thesis by (simp add: block split_statements_pieces drop_last_empty_def butlast_append)
qed

text \<open>C34. For a program printed from its statements, each with any labels in front, the section flag
  after the parse says exactly whether one of them selects a section other than \<open>.text\<close> and those below
  \<open>.text.\<close>, by \<open>.section\<close> or by one of the nine directives that stand for another section: none is
  missed and none is blamed wrongly, whatever the other statements are.\<close>

theorem section_violation_exact:
  assumes "list_all statement_ok ss"
  shows "g_section_violation (parsed (statements_text ss)) = list_ex foreign ss"
proof -
  have "statement_violates (statement_line s) = foreign s" if "s \<in> set ss" for s
    using assms that by (simp add: statement_violation list_all_iff)
  then show ?thesis
    by (auto simp: parsed_violation statements_split [OF assms] list_ex_iff)
qed

definition sample_statements :: "labelled list" where
  "sample_statements = [Labelled [''start'', ''1''] (Section ''.text.init'' (Some (''ax'', '',@progbits''))),
     Labelled [] (Other ''mov'' ''%d0, 5''), Labelled [''.L1''] (Other ''.global'' ''start'')]"

theorem section_violation_exact_witness:
  "\<not> g_section_violation (parsed (statements_text sample_statements)) \<and>
   g_section_violation (parsed (statements_text (sample_statements @ [Labelled [''a'', ''b''] (Other ''.bss'' '''')]))) \<and>
   g_section_violation (parsed (statements_text [Labelled [] (Section ''.text2'' None)]))"
proof -
  have ok: "list_all statement_ok sample_statements"
    "list_all statement_ok (sample_statements @ [Labelled [''a'', ''b''] (Other ''.bss'' '''')])"
    "list_all statement_ok [Labelled [] (Section ''.text2'' None)]"
    by (simp_all add: sample_statements_def label_ok_def body_ok_def operands_ok_def tame_def char_class_defs)
  show ?thesis
    unfolding section_violation_exact [OF ok(1)] section_violation_exact [OF ok(2)] section_violation_exact [OF ok(3)]
    by (simp add: sample_statements_def)
qed

end
