(* ===== verification/C_Heap.thy ===== *)
theory C_Heap
  imports Api_Types "HOL-Library.Multiset"
begin

text \<open>
  The memory the C interface (\<^verbatim>\<open>src/src/nyxstone_c.cpp\<close>) hands out: a heap of
  objects, \<open>malloc\<close> and \<open>calloc\<close> that may fail at any call, \<open>free\<close>, and the arrays of instructions
  and relocations with the strings and buffers they own. A pointer is an address or \<open>NULL\<close>; freeing
  an address that is not live sets \<open>wild_free\<close>.
\<close>

subsection \<open>Objects and addresses\<close>

type_synonym ptr = "nat option"

text \<open>\<open>nyxstone_instruction_t\<close> and \<open>nyxstone_reloc_t\<close> with its \<open>nyxstone_reloc_symbol_t\<close>.\<close>

record c_instruction =
  ci_address :: u64
  ci_assembly :: ptr
  ci_bytes :: ptr
  ci_bytes_len :: nat

record c_reloc_symbol =
  crs_name :: ptr
  crs_address :: u64

record c_reloc =
  cr_offset :: u64
  cr_addend :: i64
  cr_has_addend :: int
  cr_symbol :: c_reloc_symbol
  cr_relocation_type :: u32

datatype c_object =
    C_string string
  | C_bytes "byte list"
  | C_instructions "c_instruction list"
  | C_relocs "c_reloc list"
  | C_handle

text \<open>\<open>alloc_ok i\<close>: does the \<open>i\<close>-th allocation succeed.\<close>

record mem =
  live :: "nat \<rightharpoonup> c_object"
  next_addr :: nat
  alloc_count :: nat
  alloc_ok :: "nat \<Rightarrow> bool"
  wild_free :: bool

definition mem_alloc :: "c_object \<Rightarrow> mem \<Rightarrow> ptr \<times> mem" where
  "mem_alloc ob m =
     (let m1 = m\<lparr>alloc_count := Suc (alloc_count m)\<rparr>
      in if alloc_ok m (alloc_count m)
         then (Some (next_addr m), m1\<lparr>live := (live m)(next_addr m \<mapsto> ob), next_addr := Suc (next_addr m)\<rparr>)
         else (None, m1))"

definition mem_free :: "ptr \<Rightarrow> mem \<Rightarrow> mem" where
  "mem_free p m =
     (case p of
        None \<Rightarrow> m
      | Some a \<Rightarrow> m\<lparr>live := (live m)(a := None), wild_free := wild_free m \<or> live m a = None\<rparr>)"

definition mem_store :: "nat \<Rightarrow> c_object \<Rightarrow> mem \<Rightarrow> mem" where
  "mem_store a ob m = m\<lparr>live := (live m)(a \<mapsto> ob)\<rparr>"

subsection \<open>What has been allocated since\<close>

definition wf_mem :: "mem \<Rightarrow> bool" where
  "wf_mem m \<longleftrightarrow> (\<forall>x. live m x \<noteq> None \<longrightarrow> x < next_addr m)"

text \<open>\<open>allocated m as m'\<close>: \<open>m'\<close> has exactly the objects of \<open>m\<close>, unchanged, and new ones at the
  addresses \<open>as\<close>; nothing was freed that was not live.\<close>

definition allocated :: "mem \<Rightarrow> nat list \<Rightarrow> mem \<Rightarrow> bool" where
  "allocated m as m' \<longleftrightarrow> wf_mem m \<and> wf_mem m' \<and> distinct as \<and>
     (\<forall>x \<in> set as. next_addr m \<le> x \<and> live m' x \<noteq> None) \<and> (\<forall>x. x \<notin> set as \<longrightarrow> live m' x = live m x) \<and>
     next_addr m \<le> next_addr m' \<and> wild_free m' = wild_free m"

lemma allocated_refl: "wf_mem m \<Longrightarrow> allocated m [] m"
  by (simp add: allocated_def)

lemma allocated_wf: "allocated m as m' \<Longrightarrow> wf_mem m'"
  by (simp add: allocated_def)

lemma allocated_below: "allocated m as m' \<Longrightarrow> x \<in> set as \<Longrightarrow> x < next_addr m'"
  by (auto simp: allocated_def wf_mem_def)

lemma allocated_live: "allocated m as m' \<Longrightarrow> x \<notin> set as \<Longrightarrow> live m' x = live m x"
  by (simp add: allocated_def)

lemma allocated_Nil: "allocated m [] m' \<Longrightarrow> live m' = live m"
  by (simp add: allocated_def fun_eq_iff)

lemma wf_mem_fresh: "wf_mem m \<Longrightarrow> next_addr m \<le> x \<Longrightarrow> live m x = None"
  by (meson leD wf_mem_def)

lemma allocated_fresh: "allocated m as m' \<Longrightarrow> x \<in> set as \<Longrightarrow> live m x = None"
  by (simp add: allocated_def wf_mem_fresh)

lemma allocated_keeps: "allocated m as m' \<Longrightarrow> live m x \<noteq> None \<Longrightarrow> live m' x = live m x"
  using allocated_fresh [of m as m' x] by (cases "x \<in> set as") (auto simp: allocated_def)

lemma allocated_trans:
  assumes "allocated m as m1" "allocated m1 bs m2"
  shows "allocated m (as @ bs) m2"
proof -
  have as: "x < next_addr m1" "live m2 x \<noteq> None" "next_addr m \<le> x" if "x \<in> set as" for x
    using that allocated_below [OF assms(1)] assms(1) allocated_keeps [OF assms(2), of x]
    by (auto simp: allocated_def)
  have bs: "next_addr m1 \<le> x" if "x \<in> set bs" for x using that assms(2) by (simp add: allocated_def)
  have "set as \<inter> set bs = {}" using as(1) bs by fastforce
  then show ?thesis
    using assms as bs unfolding allocated_def by (auto intro: order_trans)
qed

lemma allocated_update:
  assumes "allocated m as m'" "a \<in> set as"
  shows "allocated m as (mem_store a ob m')"
  using assms allocated_below [OF assms] by (auto simp: allocated_def wf_mem_def mem_store_def)

lemma allocated_free:
  assumes "allocated m (a # as) m'"
  shows "allocated m as (mem_free (Some a) m')"
proof -
  have "live m a = None" by (rule allocated_fresh [OF assms]) simp
  then show ?thesis using assms by (auto simp: allocated_def mem_free_def wf_mem_def)
qed

lemma mem_free_None [simp]: "mem_free None m = m"
  by (simp add: mem_free_def)

lemma allocated_cong: "allocated m as m' \<Longrightarrow> mset bs = mset as \<Longrightarrow> allocated m bs m'"
  using mset_eq_setD [of bs as] mset_eq_imp_distinct_iff [of bs as] by (simp add: allocated_def)

lemma mem_alloc_cases:
  assumes "wf_mem m"
  shows "case mem_alloc ob m of
      (None, m') \<Rightarrow> allocated m [] m'
    | (Some a, m') \<Rightarrow> allocated m [a] m' \<and> live m' a = Some ob"
proof (cases "alloc_ok m (alloc_count m)")
  case True
  define m' where "m' = m\<lparr>alloc_count := Suc (alloc_count m), live := (live m)(next_addr m \<mapsto> ob),
    next_addr := Suc (next_addr m)\<rparr>"
  have "wf_mem m'" using assms by (auto simp: m'_def wf_mem_def less_Suc_eq)
  then have "allocated m [next_addr m] m'" using assms by (simp add: allocated_def m'_def)
  moreover have "mem_alloc ob m = (Some (next_addr m), m')" using True by (simp add: mem_alloc_def m'_def)
  moreover have "live m' (next_addr m) = Some ob" by (simp add: m'_def)
  ultimately show ?thesis by simp
next
  case False
  have "wf_mem (m\<lparr>alloc_count := Suc (alloc_count m)\<rparr>)" using assms by (simp add: wf_mem_def)
  then show ?thesis using False assms by (simp add: mem_alloc_def allocated_def)
qed

subsection \<open>Strings\<close>

text \<open>\<open>dup_cstring\<close> and \<open>dup_string\<close>: a copy with a terminating zero.\<close>

definition dup_cstring :: "string \<Rightarrow> mem \<Rightarrow> ptr \<times> mem" where
  "dup_cstring s m = mem_alloc (C_string (s @ [NUL])) m"

text \<open>\<open>*out_err\<close> is \<open>None\<close> when the caller passed no error pointer.\<close>

definition set_err :: "ptr option \<Rightarrow> string \<Rightarrow> mem \<Rightarrow> ptr option \<times> mem" where
  "set_err out_err s m =
     (case out_err of
        None \<Rightarrow> (None, m)
      | Some _ \<Rightarrow> let (p, m') = dup_cstring s m in (Some p, m'))"

definition addresses :: "ptr list \<Rightarrow> nat list" where
  "addresses ps = List.map_filter id ps"

lemma addresses_simps [simp]:
  "addresses [] = []" "addresses (None # ps) = addresses ps" "addresses (Some a # ps) = a # addresses ps"
  "addresses (ps @ qs) = addresses ps @ addresses qs"
  by (simp_all add: addresses_def map_filter_def)

lemma free_addresses:
  "allocated m (addresses ps @ as) m' \<Longrightarrow> allocated m as (fold mem_free ps m')"
proof (induction ps arbitrary: m')
  case (Cons p ps)
  then show ?case using allocated_free by (cases p) auto
qed simp

subsection \<open>Arrays that own memory\<close>

text \<open>How an array of records is kept in the heap: the object it is, the pointers each cell owns,
  the cell \<open>calloc\<close> gives, and how one element is converted. A conversion that fails half-way says
  how many cells from the current one on have to be freed.\<close>

record ('c, 'v) array_kind =
  wrap :: "'c list \<Rightarrow> c_object"
  unwrap :: "c_object \<Rightarrow> 'c list"
  owns :: "'c \<Rightarrow> ptr list"
  zero_cell :: 'c
  convert :: "'v \<Rightarrow> mem \<Rightarrow> ('c \<times> nat option) \<times> mem"

definition cells_at :: "('c, 'v) array_kind \<Rightarrow> nat \<Rightarrow> mem \<Rightarrow> 'c list" where
  "cells_at k a m = (case live m a of Some ob \<Rightarrow> unwrap k ob | None \<Rightarrow> [])"

definition free_array :: "('c, 'v) array_kind \<Rightarrow> ptr \<Rightarrow> nat \<Rightarrow> mem \<Rightarrow> mem" where
  "free_array k p n m =
     (case p of
        None \<Rightarrow> m
      | Some a \<Rightarrow> mem_free p (fold (\<lambda>i m. fold mem_free (owns k (cells_at k a m ! i)) m) [0..<n] m))"

fun convert_loop :: "('c, 'v) array_kind \<Rightarrow> nat \<Rightarrow> nat \<Rightarrow> 'v list \<Rightarrow> mem \<Rightarrow> ptr \<times> mem" where
  "convert_loop k a i [] m = (Some a, m)"
| "convert_loop k a i (v # vs) m =
     (let ((cell, failed), m1) = convert k v m;
          m2 = mem_store a (wrap k ((cells_at k a m)[i := cell])) m1
      in case failed of
           Some extra \<Rightarrow> (None, free_array k (Some a) (i + extra) m2)
         | None \<Rightarrow> convert_loop k a (Suc i) vs m2)"

definition convert_array :: "('c, 'v) array_kind \<Rightarrow> 'v list \<Rightarrow> mem \<Rightarrow> ptr \<times> mem" where
  "convert_array k vs m =
     (case mem_alloc (wrap k (replicate (if vs = [] then 1 else length vs) (zero_cell k))) m of
        (None, m1) \<Rightarrow> (None, m1)
      | (Some a, m1) \<Rightarrow> convert_loop k a 0 vs m1)"

subsection \<open>Instructions and relocations\<close>

definition convert_instruction :: "instruction \<Rightarrow> mem \<Rightarrow> (c_instruction \<times> nat option) \<times> mem" where
  "convert_instruction v m =
     (let (s, m1) = dup_cstring (ins_assembly v) m;
          cell = \<lparr>ci_address = ins_address v, ci_assembly = s, ci_bytes = None, ci_bytes_len = 0\<rparr>
      in if s = None then ((cell, Some 0), m1)
         else if ins_bytes v = [] then ((cell, None), m1)
         else let (b, m2) = mem_alloc (C_bytes (ins_bytes v)) m1
              in if b = None then ((cell, Some 1), m2)
                 else ((cell\<lparr>ci_bytes := b, ci_bytes_len := length (ins_bytes v)\<rparr>, None), m2))"

definition instruction_kind :: "(c_instruction, instruction) array_kind" where
  "instruction_kind = \<lparr>
     wrap = C_instructions, unwrap = (\<lambda>ob. case ob of C_instructions cs \<Rightarrow> cs | _ \<Rightarrow> []),
     owns = (\<lambda>c. [ci_assembly c, ci_bytes c]),
     zero_cell = \<lparr>ci_address = 0, ci_assembly = None, ci_bytes = None, ci_bytes_len = 0\<rparr>,
     convert = convert_instruction\<rparr>"

definition convert_relocation :: "relocation_info \<Rightarrow> mem \<Rightarrow> (c_reloc \<times> nat option) \<times> mem" where
  "convert_relocation v m =
     (let (s, m1) = dup_cstring (sym_name (ri_symbol v)) m;
          cell = \<lparr>cr_offset = ri_offset v,
                  cr_addend = (case ri_addend v of Some x \<Rightarrow> x | None \<Rightarrow> 0),
                  cr_has_addend = (case ri_addend v of Some _ \<Rightarrow> 1 | None \<Rightarrow> 0),
                  cr_symbol = \<lparr>crs_name = s, crs_address = 0\<rparr>,
                  cr_relocation_type = ri_relocation_type v\<rparr>
      in if s = None then ((cell, Some 0), m1)
         else ((cell\<lparr>cr_symbol := \<lparr>crs_name = s, crs_address = sym_address (ri_symbol v)\<rparr>\<rparr>, None), m1))"

definition reloc_kind :: "(c_reloc, relocation_info) array_kind" where
  "reloc_kind = \<lparr>
     wrap = C_relocs, unwrap = (\<lambda>ob. case ob of C_relocs cs \<Rightarrow> cs | _ \<Rightarrow> []),
     owns = (\<lambda>c. [crs_name (cr_symbol c)]),
     zero_cell = \<lparr>cr_offset = 0, cr_addend = 0, cr_has_addend = 0, cr_symbol = \<lparr>crs_name = None, crs_address = 0\<rparr>,
       cr_relocation_type = 0\<rparr>,
     convert = convert_relocation\<rparr>"

definition convert_instructions :: "instruction list \<Rightarrow> mem \<Rightarrow> ptr \<times> mem" where
  "convert_instructions = convert_array instruction_kind"

definition convert_relocations :: "relocation_info list \<Rightarrow> mem \<Rightarrow> ptr \<times> mem" where
  "convert_relocations = convert_array reloc_kind"

definition free_bytes :: "ptr \<Rightarrow> mem \<Rightarrow> mem" where
  "free_bytes p = mem_free p"

definition free_string :: "ptr \<Rightarrow> mem \<Rightarrow> mem" where
  "free_string p = mem_free p"

definition free_instructions :: "ptr \<Rightarrow> nat \<Rightarrow> mem \<Rightarrow> mem" where
  "free_instructions = free_array instruction_kind"

definition free_relocations :: "ptr \<Rightarrow> nat \<Rightarrow> mem \<Rightarrow> mem" where
  "free_relocations = free_array reloc_kind"

subsection \<open>All or nothing\<close>

text \<open>\<open>shows_as m cell v\<close>: reading the cell in the heap \<open>m\<close> gives the value \<open>v\<close>.\<close>

locale owning_array =
  fixes k :: "('c, 'v) array_kind" and shows_as :: "mem \<Rightarrow> 'c \<Rightarrow> 'v \<Rightarrow> bool"
  assumes unwrap_wrap: "unwrap k (wrap k cs) = cs"
    and convert_result: "wf_mem m \<Longrightarrow> convert k v m = ((cell, failed), m') \<Longrightarrow>
      allocated m (addresses (owns k cell)) m' \<and>
      (case failed of
         None \<Rightarrow> shows_as m' cell v
       | Some extra \<Rightarrow> extra \<le> 1 \<and> (extra = 0 \<longrightarrow> addresses (owns k cell) = []))"
    and shows_stable: "shows_as m cell v \<Longrightarrow>
      (\<And>p. p \<in> set (addresses (owns k cell)) \<Longrightarrow> live m' p = live m p) \<Longrightarrow> shows_as m' cell v"
begin

definition own :: "'c list \<Rightarrow> nat list" where
  "own cells = concat (map (\<lambda>c. addresses (owns k c)) cells)"

lemma own_simps [simp]:
  "own [] = []" "own (c # cs) = addresses (owns k c) @ own cs" "own (xs @ ys) = own xs @ own ys"
  by (simp_all add: own_def)

lemma free_keeps: "a \<notin> set (addresses ps) \<Longrightarrow> live (fold mem_free ps m) a = live m a"
proof (induction ps arbitrary: m)
  case (Cons p ps)
  then show ?case by (cases p) (auto simp: mem_free_def)
qed simp

lemma free_cells:
  "allocated m0 (a # own (drop j (take n cells)) @ as) m \<Longrightarrow> live m a = Some (wrap k cells) \<Longrightarrow> j \<le> n \<Longrightarrow> n \<le> length cells \<Longrightarrow>
    allocated m0 (a # as) (fold (\<lambda>i m. fold mem_free (owns k (cells_at k a m ! i)) m) [j..<n] m)"
proof (induction "n - j" arbitrary: j m)
  case (Suc d)
  then have j: "j < n" by simp
  let ?ps = "owns k (cells ! j)" and ?m1 = "fold mem_free (owns k (cells ! j)) m"
  have cells: "cells_at k a m = cells" using Suc.prems(2) by (simp add: cells_at_def unwrap_wrap)
  have split: "drop j (take n cells) = cells ! j # drop (Suc j) (take n cells)"
    using j Suc.prems(4) by (subst Cons_nth_drop_Suc [symmetric]) auto
  have step: "allocated m0 (addresses ?ps @ (a # own (drop (Suc j) (take n cells)) @ as)) m"
    by (rule allocated_cong [OF Suc.prems(1)]) (simp add: split)
  then have "a \<notin> set (addresses ?ps)" by (auto simp: allocated_def)
  then have "live ?m1 a = Some (wrap k cells)" using Suc.prems(2) by (simp add: free_keeps)
  then have "allocated m0 (a # as) (fold (\<lambda>i m. fold mem_free (owns k (cells_at k a m ! i)) m) [Suc j..<n] ?m1)"
    using Suc.hyps free_addresses [OF step] j Suc.prems(4) by (intro Suc.hyps(1)) auto
  then show ?case using j by (simp add: upt_conv_Cons cells)
qed simp

lemma free_array_all:
  assumes "allocated m0 (a # own cells @ as) m" "live m a = Some (wrap k (cells @ pad))" "own (drop n cells) = []" "n \<le> length cells"
  shows "allocated m0 as (free_array k (Some a) n m)"
proof -
  have "own cells = own (take n cells)"
    using assms(3) own_simps(3) [of "take n cells" "drop n cells"] by simp
  then have "allocated m0 (a # own (drop 0 (take n (cells @ pad))) @ as) m" using assms(1,4) by simp
  then have "allocated m0 (a # as) (fold (\<lambda>i m. fold mem_free (owns k (cells_at k a m ! i)) m) [0..<n] m)"
    using assms(2,4) by (intro free_cells [where cells = "cells @ pad"]) auto
  then show ?thesis using allocated_free [of m0 a as] by (simp add: free_array_def)
qed

lemma loop_result:
  "allocated m0 (a # own cs) m \<Longrightarrow> live m a = Some (wrap k (cs @ replicate r z)) \<Longrightarrow> length vs \<le> r \<Longrightarrow>
    list_all2 (shows_as m) cs ws \<Longrightarrow>
    case convert_loop k a (length cs) vs m of
      (None, m') \<Rightarrow> allocated m0 [] m'
    | (Some b, m') \<Rightarrow> b = a \<and> (\<exists>cells. allocated m0 (a # own cells) m' \<and>
        live m' a = Some (wrap k (cells @ replicate (r - length vs) z)) \<and> list_all2 (shows_as m') cells (ws @ vs))"
proof (induction vs arbitrary: cs m r ws)
  case Nil
  then show ?case by auto
next
  case (Cons v vs)
  obtain cell failed m1 where conv: "convert k v m = ((cell, failed), m1)" by (metis prod.collapse)
  note result = convert_result [OF allocated_wf [OF Cons.prems(1)] conv]
  obtain r' where r: "r = Suc r'" using Cons.prems(3) by (cases r) auto
  have cells: "cells_at k a m = cs @ replicate r z" using Cons.prems(2) by (simp add: cells_at_def unwrap_wrap)
  define m2 where "m2 = mem_store a (wrap k ((cells_at k a m)[length cs := cell])) m1"
  have m2: "live m2 a = Some (wrap k ((cs @ [cell]) @ replicate r' z))"
    by (simp add: m2_def mem_store_def cells r list_update_append)
  have "allocated m0 ((a # own cs) @ addresses (owns k cell)) m1"
    using result by (intro allocated_trans [OF Cons.prems(1)]) simp
  then have alloc: "allocated m0 (a # own (cs @ [cell])) m2"
    unfolding m2_def by (intro allocated_update) simp_all
  show ?case
  proof (cases failed)
    case (Some extra)
    then have "extra \<le> 1" "extra = 0 \<longrightarrow> addresses (owns k cell) = []" using result by simp_all
    then have "allocated m0 [] (free_array k (Some a) (length cs + extra) m2)"
      using alloc by (intro free_array_all [where as = "[]", OF _ m2]) (auto simp: le_Suc_eq)
    then show ?thesis using Some by (simp add: conv m2_def)
  next
    case None
    have keep: "live m2 p = live m1 p" if "p \<noteq> a" for p using that by (simp add: m2_def mem_store_def)
    have "a \<notin> set (own (cs @ [cell]))" using alloc by (simp add: allocated_def)
    then have "shows_as m2 cell v" "list_all2 (shows_as m2) cs ws"
    proof -
      assume a: "a \<notin> set (own (cs @ [cell]))"
      show "shows_as m2 cell v"
      proof (rule shows_stable [of m1])
        show "shows_as m1 cell v" using result None by simp
        show "live m2 p = live m1 p" if "p \<in> set (addresses (owns k cell))" for p
          using that a by (intro keep) auto
      qed
      show "list_all2 (shows_as m2) cs ws"
      proof (rule list.rel_mono_strong [OF Cons.prems(4)], rule shows_stable)
        fix c w assume cw: "c \<in> set cs" "shows_as m c w"
        then show "shows_as m c w" by simp
        fix p assume p: "p \<in> set (addresses (owns k c))"
        then have "p \<in> set (own cs)" using cw(1) by (auto simp: own_def)
        then have "live m p \<noteq> None" "p \<noteq> a" using Cons.prems(1) a by (auto simp: allocated_def)
        then show "live m2 p = live m p" using keep allocated_keeps [of m _ m1 p] result by auto
      qed
    qed
    then have "list_all2 (shows_as m2) (cs @ [cell]) (ws @ [v])" by (simp add: list_all2_appendI)
    note IH = Cons.IH [OF alloc m2 _ this]
    moreover have "r' - length vs = r - length (v # vs)" by (simp add: r)
    ultimately show ?thesis
      using None Cons.prems(3) by (auto simp: conv r m2_def [symmetric] split: prod.splits option.splits)
  qed
qed

lemma convert_array_result:
  assumes "wf_mem m"
  shows "case convert_array k vs m of
      (None, m') \<Rightarrow> allocated m [] m'
    | (Some a, m') \<Rightarrow> \<exists>cells pad. allocated m (a # own cells) m' \<and>
        live m' a = Some (wrap k (cells @ pad)) \<and> list_all2 (shows_as m') cells vs"
proof -
  let ?n = "if vs = [] then 1 else length vs"
  obtain p m1 where p: "mem_alloc (wrap k (replicate ?n (zero_cell k))) m = (p, m1)" by fastforce
  note alloc = mem_alloc_cases [OF assms, of "wrap k (replicate ?n (zero_cell k))", unfolded p]
  show ?thesis
  proof (cases p)
    case None
    then show ?thesis using alloc by (simp add: convert_array_def p split del: if_split)
  next
    case (Some a)
    then have "allocated m (a # own []) m1" "live m1 a = Some (wrap k ([] @ replicate ?n (zero_cell k)))"
      using alloc by simp_all
    moreover have "length vs \<le> ?n" by simp
    ultimately have loop: "case convert_loop k a 0 vs m1 of
      (None, m') \<Rightarrow> allocated m [] m'
    | (Some b, m') \<Rightarrow> b = a \<and> (\<exists>cells. allocated m (a # own cells) m' \<and>
        live m' a = Some (wrap k (cells @ replicate (?n - length vs) (zero_cell k))) \<and>
        list_all2 (shows_as m') cells ([] @ vs))"
      using loop_result [of m a "[]" m1 ?n "zero_cell k" vs "[]"] by (simp split del: if_split)
    obtain b m2 where b: "convert_loop k a 0 vs m1 = (b, m2)" by fastforce
    then have "convert_array k vs m = (b, m2)"
      using Some by (simp add: convert_array_def p split del: if_split)
    then show ?thesis using loop b by (cases b) auto
  qed
qed

lemma convert_array_stays:
  assumes "wf_mem m" "convert_array k vs m = (Some a, m')" "allocated m' as m''"
  shows "\<exists>cells pad. live m'' a = Some (wrap k (cells @ pad)) \<and> list_all2 (shows_as m'') cells vs"
proof -
  obtain cells pad where cells: "allocated m (a # own cells) m'" "live m' a = Some (wrap k (cells @ pad))"
    "list_all2 (shows_as m') cells vs"
    using convert_array_result [OF assms(1), of vs] assms(2) by auto
  have keep: "live m'' x = live m' x" if "x \<in> set (a # own cells)" for x
  proof (rule allocated_keeps [OF assms(3)])
    show "live m' x \<noteq> None" using cells(1) that by (auto simp: allocated_def)
  qed
  have "list_all2 (shows_as m'') cells vs"
    by (rule list.rel_mono_strong [OF cells(3)], rule shows_stable [of m']) (use keep in \<open>auto simp: own_def\<close>)
  then show ?thesis using cells(2) keep [of a] by auto
qed

lemma convert_then_free:
  assumes "wf_mem m" "convert_array k vs m = (Some a, m')" "allocated m' as m''"
  shows "allocated m as (free_array k (Some a) (length vs) m'')"
proof -
  obtain cells pad where cells: "allocated m (a # own cells) m'" "live m' a = Some (wrap k (cells @ pad))"
    "length cells = length vs"
    using convert_array_result [OF assms(1), of vs] assms(2) by (auto dest: list_all2_lengthD)
  have "allocated m (a # own cells @ as) m''"
    using allocated_trans [OF cells(1) assms(3)] by simp
  moreover have "live m'' a = Some (wrap k (cells @ pad))"
    using allocated_keeps [OF assms(3), of a] cells(2) by simp
  moreover have "live m' a \<noteq> None" using cells(2) by simp
  ultimately show ?thesis using cells(3) by (intro free_array_all) auto
qed

end

subsection \<open>The two arrays\<close>

text \<open>What the caller reads through the pointers.\<close>

definition string_at :: "mem \<Rightarrow> ptr \<Rightarrow> string" where
  "string_at m p = (case p of Some a \<Rightarrow> (case live m a of Some (C_string s) \<Rightarrow> butlast s | _ \<Rightarrow> []) | None \<Rightarrow> [])"

definition bytes_at :: "mem \<Rightarrow> ptr \<Rightarrow> byte list" where
  "bytes_at m p = (case p of Some a \<Rightarrow> (case live m a of Some (C_bytes bs) \<Rightarrow> bs | _ \<Rightarrow> []) | None \<Rightarrow> [])"

definition read_instruction :: "mem \<Rightarrow> c_instruction \<Rightarrow> instruction" where
  "read_instruction m c =
     \<lparr>ins_address = ci_address c, ins_assembly = string_at m (ci_assembly c),
      ins_bytes = take (ci_bytes_len c) (bytes_at m (ci_bytes c))\<rparr>"

definition read_relocation :: "mem \<Rightarrow> c_reloc \<Rightarrow> relocation_info" where
  "read_relocation m c =
     \<lparr>ri_offset = cr_offset c, ri_addend = (if cr_has_addend c = 1 then Some (cr_addend c) else None),
      ri_symbol = \<lparr>sym_name = string_at m (crs_name (cr_symbol c)), sym_address = crs_address (cr_symbol c)\<rparr>,
      ri_relocation_type = cr_relocation_type c\<rparr>"

lemma string_at_cong: "(\<And>a. p = Some a \<Longrightarrow> live m' a = live m a) \<Longrightarrow> string_at m' p = string_at m p"
  by (cases p) (simp_all add: string_at_def)

lemma bytes_at_cong: "(\<And>a. p = Some a \<Longrightarrow> live m' a = live m a) \<Longrightarrow> bytes_at m' p = bytes_at m p"
  by (cases p) (simp_all add: bytes_at_def)

lemma set_addresses: "set (addresses ps) = {a. Some a \<in> set ps}"
proof (induction ps)
  case (Cons p ps)
  then show ?case by (cases p) auto
qed simp

lemma dup_cstring_cases:
  assumes "wf_mem m" "dup_cstring s m = (p, m')"
  shows "allocated m (addresses [p]) m' \<and> (p \<noteq> None \<longrightarrow> string_at m' p = s)"
  using mem_alloc_cases [OF assms(1), of "C_string (s @ [NUL])"] assms(2)
  by (auto simp: dup_cstring_def string_at_def split: option.splits)

lemma convert_instruction_result:
  assumes "wf_mem m" "convert_instruction v m = ((cell, failed), m')"
  shows "allocated m (addresses [ci_assembly cell, ci_bytes cell]) m' \<and>
    (case failed of
       None \<Rightarrow> read_instruction m' cell = v
     | Some extra \<Rightarrow> extra \<le> 1 \<and> (extra = 0 \<longrightarrow> addresses [ci_assembly cell, ci_bytes cell] = []))"
proof -
  obtain s m1 where s: "dup_cstring (ins_assembly v) m = (s, m1)" by fastforce
  note str = dup_cstring_cases [OF assms(1) s]
  consider "s = None" | a where "s = Some a" "ins_bytes v = []" | a where "s = Some a" "ins_bytes v \<noteq> []" by auto
  then show ?thesis
  proof cases
    case (3 a)
    obtain b m2 where b: "mem_alloc (C_bytes (ins_bytes v)) m1 = (b, m2)" by fastforce
    note bytes = mem_alloc_cases [OF allocated_wf [OF conjunct1 [OF str]], of "C_bytes (ins_bytes v)", unfolded b]
    then have "allocated m (addresses [s] @ addresses [b]) m2"
      using str by (intro allocated_trans) (auto split: option.splits)
    moreover have "string_at m2 s = ins_assembly v" if "b \<noteq> None"
    proof -
      have "live m1 a \<noteq> None" using str 3(1) by (auto simp: allocated_def)
      then have "live m2 a = live m1 a"
        using bytes allocated_keeps [of m1 _ m2 a] by (auto split: option.splits)
      then show ?thesis using str 3(1) string_at_cong [of s m2 m1] by simp
    qed
    ultimately show ?thesis
      using assms(2) 3 bytes s b
      by (auto simp: convert_instruction_def read_instruction_def bytes_at_def split: option.splits if_splits)
  qed (use assms(2) s str in \<open>auto simp: convert_instruction_def read_instruction_def bytes_at_def\<close>)
qed

lemma instruction_kind_owns: "owns instruction_kind = (\<lambda>c. [ci_assembly c, ci_bytes c])"
  by (simp add: instruction_kind_def)

lemma instruction_kind_convert: "convert instruction_kind = convert_instruction"
  by (simp add: instruction_kind_def)

interpretation ins: owning_array instruction_kind "\<lambda>m c v. read_instruction m c = v"
proof
  show "unwrap instruction_kind (wrap instruction_kind cs) = cs" for cs by (simp add: instruction_kind_def)
  show "wf_mem m \<Longrightarrow> convert instruction_kind v m = ((cell, failed), m') \<Longrightarrow>
      allocated m (addresses (owns instruction_kind cell)) m' \<and>
      (case failed of None \<Rightarrow> read_instruction m' cell = v
       | Some extra \<Rightarrow> extra \<le> 1 \<and> (extra = 0 \<longrightarrow> addresses (owns instruction_kind cell) = []))" for m m' :: mem and v cell failed
    unfolding instruction_kind_owns instruction_kind_convert by (rule convert_instruction_result)
  fix m m' :: mem and cell v
  assume "read_instruction m cell = v"
    "\<And>p. p \<in> set (addresses (owns instruction_kind cell)) \<Longrightarrow> live m' p = live m p"
  then show "read_instruction m' cell = v"
    using string_at_cong [of "ci_assembly cell" m' m] bytes_at_cong [of "ci_bytes cell" m' m]
    by (auto simp: read_instruction_def instruction_kind_def set_addresses)
qed

lemma convert_relocation_result:
  assumes "wf_mem m" "convert_relocation v m = ((cell, failed), m')"
  shows "allocated m (addresses [crs_name (cr_symbol cell)]) m' \<and>
    (case failed of
       None \<Rightarrow> read_relocation m' cell = v
     | Some extra \<Rightarrow> extra \<le> 1 \<and> (extra = 0 \<longrightarrow> addresses [crs_name (cr_symbol cell)] = []))"
proof -
  obtain s m1 where s: "dup_cstring (sym_name (ri_symbol v)) m = (s, m1)" by fastforce
  then show ?thesis
    using assms(2) dup_cstring_cases [OF assms(1) s]
    by (cases s) (auto simp: convert_relocation_def read_relocation_def split: option.splits)
qed

lemma reloc_kind_owns: "owns reloc_kind = (\<lambda>c. [crs_name (cr_symbol c)])"
  by (simp add: reloc_kind_def)

lemma reloc_kind_convert: "convert reloc_kind = convert_relocation"
  by (simp add: reloc_kind_def)

interpretation relocations: owning_array reloc_kind "\<lambda>m c v. read_relocation m c = v"
proof
  show "unwrap reloc_kind (wrap reloc_kind cs) = cs" for cs by (simp add: reloc_kind_def)
  show "wf_mem m \<Longrightarrow> convert reloc_kind v m = ((cell, failed), m') \<Longrightarrow>
      allocated m (addresses (owns reloc_kind cell)) m' \<and>
      (case failed of None \<Rightarrow> read_relocation m' cell = v
       | Some extra \<Rightarrow> extra \<le> 1 \<and> (extra = 0 \<longrightarrow> addresses (owns reloc_kind cell) = []))" for m m' :: mem and v cell failed
    unfolding reloc_kind_owns reloc_kind_convert by (rule convert_relocation_result)
  fix m m' :: mem and cell v
  assume "read_relocation m cell = v"
    "\<And>p. p \<in> set (addresses (owns reloc_kind cell)) \<Longrightarrow> live m' p = live m p"
  then show "read_relocation m' cell = v"
    using string_at_cong [of "crs_name (cr_symbol cell)" m' m]
    by (auto simp: read_relocation_def reloc_kind_def set_addresses)
qed

lemma read_back: "list_all2 (\<lambda>c v. f c = v) cells vs \<Longrightarrow> map f (take (length vs) (cells @ pad)) = vs"
  by (auto simp: list_all2_conv_all_nth intro!: nth_equalityI)

text \<open>C16. Converting a result is all or nothing, at whatever allocation memory runs out: either the
  caller gets an array that reads back as the converted values, whose release with its length
  gives back every object that was allocated and nothing else, or the conversion returns \<open>NULL\<close>
  and the heap is as before. Nothing is ever freed that is not live.\<close>

theorem conversions_all_or_nothing:
  assumes "wf_mem m"
  shows "(case convert_instructions v m of
       (None, m') \<Rightarrow> live m' = live m \<and> wild_free m' = wild_free m
     | (Some a, m') \<Rightarrow>
         map (read_instruction m') (take (length v) (cells_at instruction_kind a m')) = v \<and>
         live (free_instructions (Some a) (length v) m') = live m \<and>
         wild_free (free_instructions (Some a) (length v) m') = wild_free m)
   \<and> (case convert_relocations r m of
       (None, m') \<Rightarrow> live m' = live m \<and> wild_free m' = wild_free m
     | (Some a, m') \<Rightarrow>
         map (read_relocation m') (take (length r) (cells_at reloc_kind a m')) = r \<and>
         live (free_relocations (Some a) (length r) m') = live m \<and>
         wild_free (free_relocations (Some a) (length r) m') = wild_free m)"
proof -
  obtain p mi where i: "convert_instructions v m = (p, mi)" by fastforce
  obtain q mr where r: "convert_relocations r m = (q, mr)" by fastforce
  have "p = None \<longrightarrow> allocated m [] mi" "q = None \<longrightarrow> allocated m [] mr"
    using ins.convert_array_result [OF assms, of v] relocations.convert_array_result [OF assms, of r] i r
    by (auto simp: convert_instructions_def convert_relocations_def)
  moreover have "map (read_instruction mi) (take (length v) (cells_at instruction_kind a mi)) = v \<and>
      allocated m [] (free_instructions (Some a) (length v) mi)" if "p = Some a" for a
    using ins.convert_array_result [OF assms, of v] ins.convert_then_free [OF assms, of v a mi "[]" mi] i that
      allocated_refl [of mi] read_back
    by (auto simp: convert_instructions_def free_instructions_def cells_at_def ins.unwrap_wrap dest: allocated_wf)
  moreover have "map (read_relocation mr) (take (length r) (cells_at reloc_kind a mr)) = r \<and>
      allocated m [] (free_relocations (Some a) (length r) mr)" if "q = Some a" for a
    using relocations.convert_array_result [OF assms, of r] relocations.convert_then_free [OF assms, of r a mr "[]" mr] r that
      allocated_refl [of mr] read_back
    by (auto simp: convert_relocations_def free_relocations_def cells_at_def relocations.unwrap_wrap dest: allocated_wf)
  ultimately show ?thesis
    unfolding i r by (cases p; cases q; simp add: allocated_Nil) (simp_all add: allocated_def)
qed

text \<open>A heap that is empty and one whose third allocation fails.\<close>

definition empty_mem :: "(nat \<Rightarrow> bool) \<Rightarrow> mem" where
  "empty_mem ok = \<lparr>live = (\<lambda>_. None), next_addr = 1, alloc_count = 0, alloc_ok = ok, wild_free = False\<rparr>"

lemma empty_mem_wf [simp]: "wf_mem (empty_mem ok)"
  by (simp add: wf_mem_def empty_mem_def)

theorem conversions_all_or_nothing_witness:
  "\<exists>m'. convert_instructions [\<lparr>ins_address = 0, ins_assembly = ''nop'', ins_bytes = [0, 0]\<rparr>]
     (empty_mem (\<lambda>n. n \<noteq> 2)) = (None, m') \<and> live m' = live (empty_mem (\<lambda>n. n \<noteq> 2))"
proof -
  obtain p m' where c: "convert_instructions [\<lparr>ins_address = 0, ins_assembly = ''nop'', ins_bytes = [0, 0]\<rparr>]
      (empty_mem (\<lambda>n. n \<noteq> 2)) = (p, m')" by fastforce
  moreover have "fst (convert_instructions [\<lparr>ins_address = 0, ins_assembly = ''nop'', ins_bytes = [0, 0]\<rparr>]
      (empty_mem (\<lambda>n. n \<noteq> 2))) = None"
    by code_simp
  ultimately show ?thesis
    using conversions_all_or_nothing [OF empty_mem_wf, of "\<lambda>n. n \<noteq> 2"
        "[\<lparr>ins_address = 0, ins_assembly = ''nop'', ins_bytes = [0, 0]\<rparr>]" "[]"] by simp
qed

end
