(* ===== verification/Disasm.thy ===== *)
theory Disasm
  imports Api_Types Literals Buffers "HOL-Library.Sublist"
begin

text \<open>
  Disassembly: the callbacks and \<open>nyxstone_glue_disasm_one\<close> of \<^verbatim>\<open>src/src/nyxstone_glue.c\<close>
  around libopcodes' \<open>print_insn_tricore\<close>, and \<open>do_disassemble\<close> with the two disassembly entry
  points of \<^verbatim>\<open>src/src/nyxstone.cpp\<close>. libopcodes is a parameter: from the bytes, the address and
  its own state (it remembers a \<open>movh.a\<close>) it gives the number of bytes, the calls of the
  callbacks and its next state. An access outside a buffer is the value \<open>None\<close>.
\<close>

subsection \<open>The text of one instruction\<close>

datatype dis_event = Print string | Styled nat string | Print_address u64

record 'd dis_ops =
  print_insn :: "byte list \<Rightarrow> u64 \<Rightarrow> 'd \<Rightarrow> int \<times> dis_event list \<times> 'd"
  dis_realloc :: reallocator
  dis_strdup :: "string \<Rightarrow> string option"

definition hex :: "nat \<Rightarrow> string" where
  "hex n = numeral_string 16 n"

text \<open>\<open>dis_print_address\<close>: the address is cut to 32 bits and printed without leading zeros.\<close>

definition address_text :: "u64 \<Rightarrow> string" where
  "address_text addr = ''0x'' @ hex (unat (ucast addr :: u32))"

definition dis_print_address :: "reallocator \<Rightarrow> u64 \<Rightarrow> growbuf \<Rightarrow> growbuf option" where
  "dis_print_address realloc addr c = dis_printf realloc (address_text addr) c"

fun run_event :: "reallocator \<Rightarrow> dis_event \<Rightarrow> growbuf \<Rightarrow> growbuf option" where
  "run_event realloc (Print t) c = dis_printf realloc t c"
| "run_event realloc (Styled style t) c = dis_printf_styled realloc style t c"
| "run_event realloc (Print_address a) c = dis_print_address realloc a c"

fun run_events :: "reallocator \<Rightarrow> dis_event list \<Rightarrow> growbuf \<Rightarrow> growbuf option" where
  "run_events realloc [] c = Some c"
| "run_events realloc (e # es) c =
     (case run_event realloc e c of None \<Rightarrow> None | Some c' \<Rightarrow> run_events realloc es c')"

function strip_addr_annotation :: "string \<Rightarrow> string" where
  "strip_addr_annotation s =
     (case s of
        [] \<Rightarrow> []
      | r0 # r1 \<Rightarrow>
          if r0 = CHR '' '' \<and> r1 \<noteq> [] \<and> hd r1 = CHR ''<'' \<and> CHR ''>'' \<in> set (tl r1)
          then strip_addr_annotation (tl (dropWhile (\<lambda>c. c \<noteq> CHR ''>'') (tl r1)))
          else r0 # strip_addr_annotation r1)"
  by pat_completeness auto

termination
proof (relation "measure length", goal_cases)
  case (2 s r0 r1)
  have "length (tl (dropWhile (\<lambda>c. c \<noteq> CHR ''>'') (tl r1))) \<le> length r1"
    using length_dropWhile_le [of "\<lambda>c. c \<noteq> CHR ''>''" "tl r1"] by simp
  then show ?case using 2 by (simp add: le_imp_less_Suc)
qed simp_all

declare strip_addr_annotation.simps [simp del]

type_synonym 'd disasm_result = "int \<times> string option \<times> nat \<times> 'd"

text \<open>The return value, \<open>*text_out\<close>, \<open>*n_consumed\<close> and the state of libopcodes.\<close>

definition disasm_one :: "'d dis_ops \<Rightarrow> byte list option \<Rightarrow> u64 \<Rightarrow> 'd \<Rightarrow> 'd disasm_result option" where
  "disasm_one p bytes addr d =
     (case bytes of
        None \<Rightarrow> Some (-1, None, 0, d)
      | Some bs \<Rightarrow>
          let (n, events, d') = print_insn p bs addr d
          in case run_events (dis_realloc p) events empty_buf of
               None \<Rightarrow> None
             | Some ctx \<Rightarrow>
                 if n \<le> 0 then Some (n, None, 0, d')
                 else Some (n,
                   (case buf ctx of
                      None \<Rightarrow> dis_strdup p []
                    | Some _ \<Rightarrow> Some (strip_addr_annotation (contents ctx))), nat n, d'))"

subsection \<open>\<open>do_disassemble\<close>\<close>

text \<open>\<open>one\<close> is \<open>nyxstone_glue_disasm_one\<close>. A count that runs behind the buffer would copy bytes
  that are not there: \<open>None\<close>.\<close>

type_synonym 'd decoder = "byte list option \<Rightarrow> u64 \<Rightarrow> 'd \<Rightarrow> 'd disasm_result option"

definition decode_failure :: "nat \<Rightarrow> string" where
  "decode_failure off = ''disassemble: libopcodes failed to decode at offset 0x'' @ hex off"

function disassemble_loop ::
    "'d decoder \<Rightarrow> byte list \<Rightarrow> u64 \<Rightarrow> nat \<Rightarrow> nat \<Rightarrow> nat \<Rightarrow> instruction list \<Rightarrow> 'd
      \<Rightarrow> ((string + instruction list) \<times> 'd) option" where
  "disassemble_loop one bytes address count off decoded out d =
     (if off < length bytes \<and> (count = 0 \<or> decoded < count) then
        (case one (Some (drop off bytes)) (address + of_nat off) d of
           None \<Rightarrow> None
         | Some (rc, txt, n, d') \<Rightarrow>
             if rc \<le> 0 \<or> n = 0 then Some (Inl (decode_failure off), d')
             else if length bytes < off + n then None
             else disassemble_loop one bytes address count (off + n) (Suc decoded)
                    (out @ [\<lparr>ins_address = address + of_nat off,
                             ins_assembly = (case txt of Some t \<Rightarrow> t | None \<Rightarrow> []),
                             ins_bytes = take n (drop off bytes)\<rparr>]) d')
      else Some (Inr out, d))"
  by pat_completeness auto

termination
  by (relation "measure (\<lambda>(one, bytes, address, count, off, decoded, out, d). length bytes - off)") auto

declare disassemble_loop.simps [simp del]

definition do_disassemble ::
    "'d decoder \<Rightarrow> byte list \<Rightarrow> u64 \<Rightarrow> nat \<Rightarrow> 'd \<Rightarrow> ((string + instruction list) \<times> 'd) option" where
  "do_disassemble one bytes address count d = disassemble_loop one bytes address count 0 0 [] d"

definition disassemble ::
    "'d decoder \<Rightarrow> byte list \<Rightarrow> u64 \<Rightarrow> nat \<Rightarrow> 'd \<Rightarrow> ((string + string) \<times> 'd) option" where
  "disassemble one bytes address count d =
     (case do_disassemble one bytes address count d of
        None \<Rightarrow> None
      | Some (Inl msg, d') \<Rightarrow> Some (Inl msg, d')
      | Some (Inr v, d') \<Rightarrow> Some (Inr (fold (\<lambda>i out. out @ ins_assembly i @ [NEWLINE]) v []), d'))"

definition disassemble_to_instructions ::
    "'d decoder \<Rightarrow> byte list \<Rightarrow> u64 \<Rightarrow> nat \<Rightarrow> 'd \<Rightarrow> ((string + instruction list) \<times> 'd) option" where
  "disassemble_to_instructions one bytes address count d = do_disassemble one bytes address count d"

subsection \<open>Address annotations\<close>

definition annotated :: "string \<Rightarrow> bool" where
  "annotated s \<longleftrightarrow> (\<exists>a b c. s = a @ '' <'' @ b @ ''>'' @ c)"

lemma annotated_Cons:
  "annotated (x # s) \<longleftrightarrow> (x = CHR '' '' \<and> s \<noteq> [] \<and> hd s = CHR ''<'' \<and> CHR ''>'' \<in> set (tl s)) \<or> annotated s"
  (is "?L \<longleftrightarrow> ?R")
proof
  assume ?L
  then obtain a b c where s: "x # s = a @ '' <'' @ b @ ''>'' @ c" by (auto simp: annotated_def)
  show ?R
  proof (cases a)
    case (Cons y a')
    then have "s = a' @ '' <'' @ b @ ''>'' @ c" using s by simp
    then show ?thesis unfolding annotated_def by blast
  qed (use s in auto)
next
  assume ?R
  then show ?L
  proof
    assume h: "x = CHR '' '' \<and> s \<noteq> [] \<and> hd s = CHR ''<'' \<and> CHR ''>'' \<in> set (tl s)"
    then obtain b c where "tl s = b @ CHR ''>'' # c" by (meson split_list)
    then have "x # s = [] @ '' <'' @ b @ ''>'' @ c" using h by (cases s) auto
    then show ?L unfolding annotated_def by blast
  next
    assume "annotated s"
    then obtain a b c where "s = a @ '' <'' @ b @ ''>'' @ c" by (auto simp: annotated_def)
    then have "x # s = (x # a) @ '' <'' @ b @ ''>'' @ c" by simp
    then show ?L unfolding annotated_def by blast
  qed
qed

lemma strip_Nil [simp]: "strip_addr_annotation [] = []"
  by (subst strip_addr_annotation.simps) simp

lemma strip_keeps: "\<not> annotated s \<Longrightarrow> strip_addr_annotation s = s"
  by (induction s) (subst strip_addr_annotation.simps, auto simp: annotated_Cons)+

lemma strip_skips:
  "\<not> sublist '' <'' a \<Longrightarrow> CHR ''>'' \<notin> set b \<Longrightarrow>
    strip_addr_annotation (a @ '' <'' @ b @ ''>'' @ c) = a @ strip_addr_annotation c"
proof (induction a)
  case Nil
  have "dropWhile (\<lambda>c. c \<noteq> CHR ''>'') (b @ CHR ''>'' # c) = CHR ''>'' # c"
    using Nil by (subst dropWhile_append2) auto
  then show ?case by (subst strip_addr_annotation.simps) simp
next
  case (Cons x a)
  have "\<not> (x = CHR '' '' \<and> a \<noteq> [] \<and> hd a = CHR ''<'')"
    using Cons.prems(1) by (cases a) (auto simp: sublist_Cons_right)
  moreover have "\<not> sublist '' <'' a"
    using Cons.prems(1) by (auto simp: sublist_Cons_right)
  ultimately show ?case
    using Cons.IH Cons.prems by (subst strip_addr_annotation.simps) (cases a; auto)
qed

lemma sublist_annotated: "annotated s \<Longrightarrow> sublist '' <'' s"
  unfolding annotated_def sublist_def by (metis append.assoc)

text \<open>The annotation filter copies a text without an annotation unchanged and cuts out each
  annotation, from its blank to the first closing bracket, and nothing else. (A text whose
  annotations are nested in blanks, like \<open>"  <x><y>"\<close>, can come out with a new one.)\<close>

theorem strip_cuts_annotations:
  assumes "\<not> sublist '' <'' a" "CHR ''>'' \<notin> set b"
  shows "strip_addr_annotation (a @ '' <'' @ b @ ''>'' @ c) = a @ strip_addr_annotation c \<and>
    strip_addr_annotation a = a \<and>
    (annotated s \<or> strip_addr_annotation s = s)"
  using strip_skips [OF assms] strip_keeps [of a] strip_keeps [of s] sublist_annotated [of a] assms(1) by blast

theorem strip_cuts_annotations_witness:
  "strip_addr_annotation ''lea %a0,[%a0]-8531 <0xdead>'' = ''lea %a0,[%a0]-8531'' \<and>
   annotated (strip_addr_annotation ''  <x> <y>z>'') = False \<and>
   annotated (strip_addr_annotation ''  <x><y>'')"
proof -
  have "strip_addr_annotation ''  <x><y>'' = [] @ '' <'' @ ''y'' @ ''>'' @ []" by code_simp
  then have "annotated (strip_addr_annotation ''  <x><y>'')" unfolding annotated_def by metis
  moreover have "strip_addr_annotation ''  <x> <y>z>'' = '' z>''" by code_simp
  moreover have "\<not> sublist '' <'' '' z>''" "\<not> sublist '' <'' ''lea %a0,[%a0]-8531''"
    by (simp_all add: sublist_Cons_right)
  ultimately show ?thesis
    using strip_cuts_annotations [of "''lea %a0,[%a0]-8531''" "''0xdead''" "[]" "[]"]
      sublist_annotated [of "'' z>''"] by auto
qed

subsection \<open>One instruction\<close>

fun shown :: "dis_event \<Rightarrow> string" where
  "shown (Print t) = take 255 t"
| "shown (Styled style t) = take 255 t"
| "shown (Print_address a) = take 255 (address_text a)"

definition never_out_of_memory :: "'d dis_ops \<Rightarrow> bool" where
  "never_out_of_memory p \<longleftrightarrow> reallocates (dis_realloc p) \<and> (\<forall>q n. dis_realloc p q n \<noteq> None)"

text \<open>Documented behaviour of libopcodes: it never reports more bytes than it was given, and, in
  the second definition, prints undecodable input as data instead of failing.\<close>

definition stays_inside :: "'d dis_ops \<Rightarrow> bool" where
  "stays_inside p \<longleftrightarrow> never_out_of_memory p \<and>
     (\<forall>bs a d. fst (print_insn p bs a d) \<le> int (length bs))"

definition decodes_all :: "'d dis_ops \<Rightarrow> bool" where
  "decodes_all p \<longleftrightarrow> stays_inside p \<and> (\<forall>bs a d. bs \<noteq> [] \<longrightarrow> 0 < fst (print_insn p bs a d))"

lemma run_event_appends:
  assumes "reallocates realloc" "\<forall>q n. realloc q n \<noteq> None" "wf_buf c"
  shows "\<exists>c'. run_event realloc e c = Some c' \<and> wf_buf c' \<and> contents c' = contents c @ shown e"
  using dis_printf_appends [OF assms]
  by (cases e) (simp_all add: dis_printf_styled_def dis_print_address_def)

lemma run_events_append:
  "reallocates realloc \<Longrightarrow> \<forall>q n. realloc q n \<noteq> None \<Longrightarrow> wf_buf c \<Longrightarrow>
    \<exists>c'. run_events realloc es c = Some c' \<and> wf_buf c' \<and> contents c' = contents c @ concat (map shown es)"
proof (induction es arbitrary: c)
  case (Cons e es)
  then show ?case using run_event_appends [of realloc c e] by fastforce
qed simp

lemma run_events_text:
  assumes "never_out_of_memory p"
  shows "\<exists>c. run_events (dis_realloc p) es empty_buf = Some c \<and> wf_buf c \<and> contents c = concat (map shown es)"
proof -
  have "wf_buf empty_buf" "contents empty_buf = []" by (simp_all add: empty_buf_def wf_buf_def contents_def)
  then show ?thesis
    using run_events_append [of "dis_realloc p" empty_buf es] assms by (auto simp: never_out_of_memory_def)
qed

lemma disasm_one_result:
  assumes "never_out_of_memory p" "print_insn p bs a d = (n, es, d')"
  shows "\<exists>txt. disasm_one p (Some bs) a d = Some (n, txt, if n \<le> 0 then 0 else nat n, d') \<and>
    (0 < n \<longrightarrow> concat (map shown es) \<noteq> [] \<longrightarrow> txt = Some (strip_addr_annotation (concat (map shown es))))"
proof -
  obtain c where c: "run_events (dis_realloc p) es empty_buf = Some c" "contents c = concat (map shown es)"
    using run_events_text [OF assms(1)] by blast
  then show ?thesis
    by (auto simp: disasm_one_def assms(2) contents_def split: option.splits)
qed

text \<open>When the allocator does not fail, the text of an instruction is what libopcodes printed,
  each piece cut to 255 characters, addresses cut to 32 bits, with the address annotations taken
  out, and the count is the one libopcodes reports.\<close>

theorem disasm_one_text:
  assumes "never_out_of_memory p" "print_insn p bs a d = (n, es, d')" "0 < n" "concat (map shown es) \<noteq> []"
  shows "disasm_one p (Some bs) a d =
    Some (n, Some (strip_addr_annotation (concat (map shown es))), nat n, d')"
  using disasm_one_result [OF assms(1,2)] assms(3,4) by auto

text \<open>A decoder of two-byte instructions that prints a branch.\<close>

definition branch_dis :: "nat dis_ops" where
  "branch_dis = \<lparr>
     print_insn = (\<lambda>bs a d. (min 2 (int (length bs)), [Styled 0 ''j'', Print '' '', Print_address (a - 2)], Suc d)),
     dis_realloc = generous, dis_strdup = Some\<rparr>"

lemma branch_dis_decodes: "never_out_of_memory branch_dis" "stays_inside branch_dis" "decodes_all branch_dis"
  using generous_reallocates
  by (simp_all add: decodes_all_def stays_inside_def never_out_of_memory_def branch_dis_def)
    (simp_all add: generous_def)

theorem disasm_one_text_witness:
  "disasm_one branch_dis (Some [0x3c, 0xff]) 0 7 = Some (2, Some ''j 0xfffffffe'', 2, 8)"
proof -
  let ?es = "[Styled 0 ''j'', Print '' '', Print_address (0 - 2)]"
  have ev: "print_insn branch_dis [0x3c, 0xff] 0 7 = (2, ?es, 8)" by (simp add: branch_dis_def)
  have "unat (ucast (0 - 2 :: u64) :: u32) = 0xfffffffe" by simp
  moreover have "digit_char 14 = CHR ''e''" "digit_char 15 = CHR ''f''" by code_simp+
  ultimately have words: "concat (map shown ?es) = ''j 0xfffffffe''"
    by (simp add: address_text_def hex_def numeral_string.simps)
  have strip: "strip_addr_annotation ''j 0xfffffffe'' = ''j 0xfffffffe''" by code_simp
  show ?thesis
    using disasm_one_text [OF branch_dis_decodes(1) ev, unfolded words strip, OF zero_less_numeral list.distinct(2)]
    by (simp only: nat_numeral)
qed

subsection \<open>The contract of a decoder\<close>

text \<open>What \<open>do_disassemble\<close> needs of \<open>nyxstone_glue_disasm_one\<close>: on a non-empty buffer it returns,
  and a positive count is at most the length of the buffer.\<close>

definition stops_at :: "'d decoder \<Rightarrow> byte list \<Rightarrow> u64 \<Rightarrow> nat \<Rightarrow> nat \<Rightarrow> bool" where
  "stops_at one bytes address from off \<longleftrightarrow> from \<le> off \<and> off < length bytes \<and>
     (\<exists>d rc t n d'. one (Some (drop off bytes)) (address + of_nat off) d = Some (rc, t, n, d') \<and> rc \<le> 0)"

lemma stops_at_mono: "stops_at one bytes address from off \<Longrightarrow> from' \<le> from \<Longrightarrow> stops_at one bytes address from' off"
  by (simp add: stops_at_def)

locale decoder =
  fixes one :: "'o \<Rightarrow> 'd decoder" and ok :: "'o \<Rightarrow> bool"
  assumes consumes: "ok p \<Longrightarrow> bs \<noteq> [] \<Longrightarrow>
    \<exists>rc t n d'. one p (Some bs) a d = Some (rc, t, n, d') \<and> (0 < rc \<longrightarrow> 0 < n \<and> n \<le> length bs)"
begin

lemma loop_returns:
  "ok p \<Longrightarrow> \<exists>r d'. disassemble_loop (one p) bytes address count off decoded out d = Some (r, d') \<and>
     (\<forall>msg. r = Inl msg \<longrightarrow> (\<exists>o'. stops_at (one p) bytes address off o' \<and> msg = decode_failure o'))"
proof (induction "one p" bytes address count off decoded out d rule: disassemble_loop.induct)
  case (1 bytes address count off decoded out d)
  show ?case
  proof (cases "off < length bytes \<and> (count = 0 \<or> decoded < count)")
    case True
    then obtain rc t n d1 where one: "one p (Some (drop off bytes)) (address + of_nat off) d = Some (rc, t, n, d1)"
      "0 < rc \<longrightarrow> 0 < n \<and> n \<le> length bytes - off"
      using consumes [OF 1(2), of "drop off bytes" "address + of_nat off" d] by auto
    show ?thesis
    proof (cases "rc \<le> 0 \<or> n = 0")
      case False
      then have "\<not> length bytes < off + n" using one(2) True by auto
      note IH = 1(1) [OF True one(1) refl refl refl False this 1(2)]
      show ?thesis
        by (subst disassemble_loop.simps, simp only: one(1) option.case prod.case True False if_True if_False)
          (use IH \<open>\<not> length bytes < off + n\<close> stops_at_mono [of "one p" bytes address "off + n" _ off] in \<open>auto; metis\<close>)
    next
      case fails: True
      then have "rc \<le> 0" using one(2) by auto
      then have "stops_at (one p) bytes address off off" using True one(1) unfolding stops_at_def by blast
      then show ?thesis
        using True fails by (subst disassemble_loop.simps) (auto simp: one(1))
    qed
  qed (subst disassemble_loop.simps, auto)
qed

end

locale total_decoder = decoder one ok for one :: "'o \<Rightarrow> 'd decoder" and ok +
  fixes never_fails :: "'o \<Rightarrow> bool"
  assumes never_fails_ok: "never_fails p \<Longrightarrow> ok p"
    and decodes: "never_fails p \<Longrightarrow> bs \<noteq> [] \<Longrightarrow> one p (Some bs) a d = Some (rc, t, n, d') \<Longrightarrow> 0 < rc"
begin

lemma loop_succeeds:
  assumes "never_fails p"
  shows "\<exists>v d'. disassemble_loop (one p) bytes address count off decoded out d = Some (Inr v, d')"
proof -
  obtain r d' where r: "disassemble_loop (one p) bytes address count off decoded out d = Some (r, d')"
    and fail: "\<forall>msg. r = Inl msg \<longrightarrow> (\<exists>o'. stops_at (one p) bytes address off o' \<and> msg = decode_failure o')"
    using loop_returns [OF never_fails_ok [OF assms]] by blast
  have "\<exists>v. r = Inr v"
  proof (cases r)
    case (Inl msg)
    then obtain o' d1 rc t n d2 where "o' < length bytes" "rc \<le> 0"
      "one p (Some (drop o' bytes)) (address + of_nat o') d1 = Some (rc, t, n, d2)"
      using fail by (auto simp: stops_at_def)
    then show ?thesis using decodes [OF assms, of "drop o' bytes"] by fastforce
  qed simp
  then show ?thesis using r by blast
qed

end

lemma disasm_one_inside:
  assumes "stays_inside p"
  shows "\<exists>rc t n d'. disasm_one p (Some bs) a d = Some (rc, t, n, d') \<and> (0 < rc \<longrightarrow> 0 < n \<and> n \<le> length bs)
    \<and> (decodes_all p \<longrightarrow> bs \<noteq> [] \<longrightarrow> 0 < rc)"
proof -
  obtain n es d' where ev: "print_insn p bs a d = (n, es, d')" by (cases "print_insn p bs a d")
  then have "n \<le> int (length bs)" using assms by (metis stays_inside_def fst_conv)
  moreover have "decodes_all p \<longrightarrow> bs \<noteq> [] \<longrightarrow> 0 < n" using ev by (metis decodes_all_def fst_conv)
  ultimately show ?thesis
    using disasm_one_result [OF _ ev] assms by (fastforce simp: stays_inside_def)
qed

interpretation dis: decoder disasm_one stays_inside
  by unfold_locales (use disasm_one_inside in metis)

interpretation dis: total_decoder disasm_one stays_inside decodes_all
proof
  fix p :: "'d dis_ops" and bs a d rc t n d'
  assume p: "decodes_all p"
  then show ok: "stays_inside p" by (simp add: decodes_all_def)
  assume "bs \<noteq> []" "disasm_one p (Some bs) a d = Some (rc, t, n, d')"
  then show "0 < rc" using disasm_one_inside [OF ok, of bs a d] p by auto
qed

end
