(* ===== verification/C_Api.thy ===== *)
theory C_Api
  imports C_Heap Disasm Assemble
begin

text \<open>
  The entry points of \<^verbatim>\<open>src/src/nyxstone_c.cpp\<close>. The C++ API they wrap is a record of
  functions that return a result or throw; a \<open>NULL\<close> argument and a missing out-parameter are
  \<open>None\<close>, an out-parameter is \<open>Some\<close> of the variable's content. Each call gives the status, the
  out-parameters, \<open>*out_err\<close>, the heap and the state behind the API.
\<close>

subsection \<open>The C++ API\<close>

datatype 'a cxx = Throws "string option" | Returns "string + 'a"

record 's cxx_api =
  x_create :: "'s \<Rightarrow> unit cxx \<times> 's"
  x_assemble :: "string \<Rightarrow> u64 \<Rightarrow> label_definition list \<Rightarrow> 's \<Rightarrow> byte list cxx \<times> 's"
  x_assemble_to_instructions :: "string \<Rightarrow> u64 \<Rightarrow> label_definition list \<Rightarrow> 's \<Rightarrow> instruction list cxx \<times> 's"
  x_assemble_with_relocs ::
    "string \<Rightarrow> u64 \<Rightarrow> label_definition list \<Rightarrow> 's \<Rightarrow> assemble_with_relocs_result cxx \<times> 's"
  x_assemble_to_instructions_with_relocs ::
    "string \<Rightarrow> u64 \<Rightarrow> label_definition list \<Rightarrow> 's \<Rightarrow> instructions_with_relocs_result cxx \<times> 's"
  x_disassemble :: "byte list \<Rightarrow> u64 \<Rightarrow> nat \<Rightarrow> 's \<Rightarrow> string cxx \<times> 's"
  x_disassemble_to_instructions :: "byte list \<Rightarrow> u64 \<Rightarrow> nat \<Rightarrow> 's \<Rightarrow> instruction list cxx \<times> 's"

subsection \<open>Shared pieces\<close>

definition kErrNullArg :: string where "kErrNullArg = ''null argument''"

definition kErrAlloc :: string where "kErrAlloc = ''out of memory''"

definition classify_assemble_error :: "string \<Rightarrow> status" where
  "classify_assemble_error msg =
     (if sublist ''only .text is allowed'' msg then NYXSTONE_ERR_SECTION_VIOLATION
      else NYXSTONE_ERR_ASSEMBLE_FAILED)"

text \<open>\<open>nyxstone_label_def_t\<close>: the name may be \<open>NULL\<close>.\<close>

record c_label =
  cl_name :: "string option"
  cl_address :: u64

definition to_label_vector :: "c_label list option \<Rightarrow> nat \<Rightarrow> label_definition list" where
  "to_label_vector labels labels_len =
     map (\<lambda>i. let l = the labels ! i
              in \<lparr>l_name = (case cl_name l of Some n \<Rightarrow> n | None \<Rightarrow> []), l_address = cl_address l\<rparr>)
       [0..<labels_len]"

text \<open>The result of a call with the out-parameters \<open>'o\<close>.\<close>

record 'o c_call =
  r_status :: status
  r_out :: 'o
  r_err :: "ptr option"
  r_mem :: mem

definition report :: "status \<Rightarrow> string \<Rightarrow> 'o \<Rightarrow> ptr option \<Rightarrow> mem \<Rightarrow> 'o c_call" where
  "report status msg outs out_err m =
     (let (e, m') = set_err out_err msg m in \<lparr>r_status = status, r_out = outs, r_err = e, r_mem = m'\<rparr>)"

text \<open>\<open>if (out_err) *out_err = nullptr;\<close>\<close>

definition clear_err :: "ptr option \<Rightarrow> ptr option" where
  "clear_err out_err = map_option (\<lambda>_. None) out_err"

text \<open>The body of an entry point from \<open>try\<close> to \<open>NYXSTONE_CATCH_ALL\<close>: a failed result, a failed
  allocation (\<open>finish\<close> has given everything back) or an exception is reported, with the
  out-parameters still zero.\<close>

definition run_try ::
    "(string \<Rightarrow> status) \<Rightarrow> ('r \<Rightarrow> mem \<Rightarrow> 'o option \<times> mem) \<Rightarrow> 'r cxx \<Rightarrow> 'o \<Rightarrow> ptr option \<Rightarrow> mem \<Rightarrow> 'o c_call" where
  "run_try classify finish r zeroed out_err m =
     (case r of
        Throws what \<Rightarrow>
          report NYXSTONE_ERR_ALLOC (case what of Some w \<Rightarrow> w | None \<Rightarrow> ''unknown C++ exception'') zeroed out_err m
      | Returns (Inl msg) \<Rightarrow> report (classify msg) msg zeroed out_err m
      | Returns (Inr v) \<Rightarrow>
          (case finish v m of
             (None, m') \<Rightarrow> report NYXSTONE_ERR_ALLOC kErrAlloc zeroed out_err m'
           | (Some outs, m') \<Rightarrow> \<lparr>r_status = NYXSTONE_OK, r_out = outs, r_err = out_err, r_mem = m'\<rparr>))"

subsection \<open>Lifecycle\<close>

definition nyxstone_create :: "'s cxx_api \<Rightarrow> ptr option \<Rightarrow> mem \<Rightarrow> 's \<Rightarrow> (ptr \<times> ptr option \<times> mem) \<times> 's" where
  "nyxstone_create api out_err m s =
     (let e0 = clear_err out_err; (r, s') = x_create api s
      in (case r of
            Throws what \<Rightarrow>
              let (e, m') = set_err e0 (case what of Some w \<Rightarrow> w | None \<Rightarrow> ''unknown C++ exception'') m in (None, e, m')
          | Returns (Inl msg) \<Rightarrow> let (e, m') = set_err e0 msg m in (None, e, m')
          | Returns (Inr _) \<Rightarrow>
              (case mem_alloc C_handle m of
                 (None, m1) \<Rightarrow> let (e, m') = set_err e0 kErrAlloc m1 in (None, e, m')
               | (Some a, m1) \<Rightarrow> (Some a, e0, m1)), s'))"

definition nyxstone_destroy :: "ptr \<Rightarrow> mem \<Rightarrow> mem" where
  "nyxstone_destroy h m = mem_free h m"

subsection \<open>Assembly\<close>

definition finish_bytes :: "byte list \<Rightarrow> mem \<Rightarrow> (ptr option \<times> nat option) option \<times> mem" where
  "finish_bytes bs m =
     (if bs = [] then (Some (Some None, Some 0), m)
      else case mem_alloc (C_bytes bs) m of
        (None, m') \<Rightarrow> (None, m')
      | (Some p, m') \<Rightarrow> (Some (Some (Some p), Some (length bs)), m'))"

definition nyxstone_assemble ::
    "'s cxx_api \<Rightarrow> ptr \<Rightarrow> string option \<Rightarrow> nat \<Rightarrow> u64 \<Rightarrow> c_label list option \<Rightarrow> nat \<Rightarrow>
     ptr option \<Rightarrow> nat option \<Rightarrow> ptr option \<Rightarrow> mem \<Rightarrow> 's \<Rightarrow> (ptr option \<times> nat option) c_call \<times> 's" where
  "nyxstone_assemble api h source src_len address labels labels_len out_bytes out_len out_err m s =
     (let e0 = clear_err out_err in
      if h = None \<or> source = None \<or> out_bytes = None \<or> out_len = None \<or> (labels = None \<and> labels_len > 0)
      then (report NYXSTONE_ERR_NULL_ARG kErrNullArg (out_bytes, out_len) e0 m, s)
      else let (r, s') = x_assemble api (take src_len (the source)) address (to_label_vector labels labels_len) s
           in (run_try classify_assemble_error finish_bytes r (Some None, Some 0) e0 m, s'))"

definition finish_instructions :: "instruction list \<Rightarrow> mem \<Rightarrow> (ptr option \<times> nat option) option \<times> mem" where
  "finish_instructions v m =
     (case convert_instructions v m of
        (None, m') \<Rightarrow> (None, m')
      | (Some a, m') \<Rightarrow> (Some (Some (Some a), Some (length v)), m'))"

definition nyxstone_assemble_to_instructions ::
    "'s cxx_api \<Rightarrow> ptr \<Rightarrow> string option \<Rightarrow> nat \<Rightarrow> u64 \<Rightarrow> c_label list option \<Rightarrow> nat \<Rightarrow>
     ptr option \<Rightarrow> nat option \<Rightarrow> ptr option \<Rightarrow> mem \<Rightarrow> 's \<Rightarrow> (ptr option \<times> nat option) c_call \<times> 's" where
  "nyxstone_assemble_to_instructions api h source src_len address labels labels_len out out_n out_err m s =
     (let e0 = clear_err out_err in
      if h = None \<or> source = None \<or> out = None \<or> out_n = None \<or> (labels = None \<and> labels_len > 0)
      then (report NYXSTONE_ERR_NULL_ARG kErrNullArg (out, out_n) e0 m, s)
      else let (r, s') = x_assemble_to_instructions api (take src_len (the source)) address
                           (to_label_vector labels labels_len) s
           in (run_try classify_assemble_error finish_instructions r (Some None, Some 0) e0 m, s'))"

text \<open>The out-parameters of the calls with relocations: the code or instructions, then the
  relocations.\<close>

type_synonym two_outs = "(ptr option \<times> nat option) \<times> ptr option \<times> nat option"

definition finish_with_relocs :: "assemble_with_relocs_result \<Rightarrow> mem \<Rightarrow> two_outs option \<times> mem" where
  "finish_with_relocs v m =
     (let (bytes_buf, m1) = (if wr_bytes v = [] then (None, m) else mem_alloc (C_bytes (wr_bytes v)) m)
      in if wr_bytes v \<noteq> [] \<and> bytes_buf = None then (None, m1)
         else let (relocs, m2) = (if wr_relocations v = [] then (None, m1) else convert_relocations (wr_relocations v) m1)
              in if wr_relocations v \<noteq> [] \<and> relocs = None then (None, mem_free bytes_buf m2)
                 else (Some ((Some bytes_buf, Some (length (wr_bytes v))),
                         Some relocs, Some (length (wr_relocations v))), m2))"

definition nyxstone_assemble_with_relocs ::
    "'s cxx_api \<Rightarrow> ptr \<Rightarrow> string option \<Rightarrow> nat \<Rightarrow> u64 \<Rightarrow> c_label list option \<Rightarrow> nat \<Rightarrow>
     ptr option \<Rightarrow> nat option \<Rightarrow> ptr option \<Rightarrow> nat option \<Rightarrow> ptr option \<Rightarrow> mem \<Rightarrow> 's \<Rightarrow> two_outs c_call \<times> 's" where
  "nyxstone_assemble_with_relocs api h source src_len address labels labels_len
       out_bytes out_bytes_len out_relocs out_relocs_n out_err m s =
     (let e0 = clear_err out_err in
      if h = None \<or> source = None \<or> out_bytes = None \<or> out_bytes_len = None \<or> out_relocs = None \<or> out_relocs_n = None
        \<or> (labels = None \<and> labels_len > 0)
      then (report NYXSTONE_ERR_NULL_ARG kErrNullArg ((out_bytes, out_bytes_len), out_relocs, out_relocs_n) e0 m, s)
      else let (r, s') = x_assemble_with_relocs api (take src_len (the source)) address
                           (to_label_vector labels labels_len) s
           in (run_try classify_assemble_error finish_with_relocs r ((Some None, Some 0), Some None, Some 0) e0 m, s'))"

definition finish_instructions_with_relocs ::
    "instructions_with_relocs_result \<Rightarrow> mem \<Rightarrow> two_outs option \<times> mem" where
  "finish_instructions_with_relocs v m =
     (case convert_instructions (iwr_instructions v) m of
        (None, m1) \<Rightarrow> (None, m1)
      | (Some a, m1) \<Rightarrow>
          let (relocs, m2) = (if iwr_relocations v = [] then (None, m1) else convert_relocations (iwr_relocations v) m1)
          in if iwr_relocations v \<noteq> [] \<and> relocs = None
             then (None, free_instructions (Some a) (length (iwr_instructions v)) m2)
             else (Some ((Some (Some a), Some (length (iwr_instructions v))),
                     Some relocs, Some (length (iwr_relocations v))), m2))"

definition nyxstone_assemble_to_instructions_with_relocs ::
    "'s cxx_api \<Rightarrow> ptr \<Rightarrow> string option \<Rightarrow> nat \<Rightarrow> u64 \<Rightarrow> c_label list option \<Rightarrow> nat \<Rightarrow>
     ptr option \<Rightarrow> nat option \<Rightarrow> ptr option \<Rightarrow> nat option \<Rightarrow> ptr option \<Rightarrow> mem \<Rightarrow> 's \<Rightarrow> two_outs c_call \<times> 's" where
  "nyxstone_assemble_to_instructions_with_relocs api h source src_len address labels labels_len
       out_ins out_ins_n out_relocs out_relocs_n out_err m s =
     (let e0 = clear_err out_err in
      if h = None \<or> source = None \<or> out_ins = None \<or> out_ins_n = None \<or> out_relocs = None \<or> out_relocs_n = None
        \<or> (labels = None \<and> labels_len > 0)
      then (report NYXSTONE_ERR_NULL_ARG kErrNullArg ((out_ins, out_ins_n), out_relocs, out_relocs_n) e0 m, s)
      else let (r, s') = x_assemble_to_instructions_with_relocs api (take src_len (the source)) address
                           (to_label_vector labels labels_len) s
           in (run_try classify_assemble_error finish_instructions_with_relocs r
                 ((Some None, Some 0), Some None, Some 0) e0 m, s'))"

subsection \<open>Disassembly\<close>

definition finish_text :: "string \<Rightarrow> mem \<Rightarrow> ptr option option \<times> mem" where
  "finish_text t m =
     (case dup_cstring t m of (None, m') \<Rightarrow> (None, m') | (Some p, m') \<Rightarrow> (Some (Some (Some p)), m'))"

definition input_bytes :: "byte list option \<Rightarrow> nat \<Rightarrow> byte list" where
  "input_bytes bytes bytes_len = (if bytes_len > 0 then take bytes_len (the bytes) else [])"

definition nyxstone_disassemble ::
    "'s cxx_api \<Rightarrow> ptr \<Rightarrow> byte list option \<Rightarrow> nat \<Rightarrow> u64 \<Rightarrow> nat \<Rightarrow>
     ptr option \<Rightarrow> ptr option \<Rightarrow> mem \<Rightarrow> 's \<Rightarrow> ptr option c_call \<times> 's" where
  "nyxstone_disassemble api h bytes bytes_len address cnt out_text out_err m s =
     (let e0 = clear_err out_err in
      if h = None \<or> out_text = None \<or> (bytes = None \<and> bytes_len > 0)
      then (report NYXSTONE_ERR_NULL_ARG kErrNullArg out_text e0 m, s)
      else let (r, s') = x_disassemble api (input_bytes bytes bytes_len) address cnt s
           in (run_try (\<lambda>_. NYXSTONE_ERR_DISASM_FAILED) finish_text r (Some None) e0 m, s'))"

definition nyxstone_disassemble_to_instructions ::
    "'s cxx_api \<Rightarrow> ptr \<Rightarrow> byte list option \<Rightarrow> nat \<Rightarrow> u64 \<Rightarrow> nat \<Rightarrow>
     ptr option \<Rightarrow> nat option \<Rightarrow> ptr option \<Rightarrow> mem \<Rightarrow> 's \<Rightarrow> (ptr option \<times> nat option) c_call \<times> 's" where
  "nyxstone_disassemble_to_instructions api h bytes bytes_len address cnt out out_n out_err m s =
     (let e0 = clear_err out_err in
      if h = None \<or> out = None \<or> out_n = None \<or> (bytes = None \<and> bytes_len > 0)
      then (report NYXSTONE_ERR_NULL_ARG kErrNullArg (out, out_n) e0 m, s)
      else let (r, s') = x_disassemble_to_instructions api (input_bytes bytes bytes_len) address cnt s
           in (run_try (\<lambda>_. NYXSTONE_ERR_DISASM_FAILED) finish_instructions r (Some None, Some 0) e0 m, s'))"

subsection \<open>What every call promises\<close>

text \<open>Building the outputs of a call: without memory nothing stays allocated; otherwise the outputs
  read as the result and releasing them gives the heap back.\<close>

locale output_builder =
  fixes finish :: "'r \<Rightarrow> mem \<Rightarrow> 'o option \<times> mem"
    and reads :: "mem \<Rightarrow> 'o \<Rightarrow> 'r \<Rightarrow> bool" and release :: "'o \<Rightarrow> mem \<Rightarrow> mem"
  assumes finish_result: "wf_mem m \<Longrightarrow> finish v m = (outs, m') \<Longrightarrow>
    (case outs of None \<Rightarrow> allocated m [] m' | Some o' \<Rightarrow> reads m' o' v \<and> allocated m [] (release o' m'))"

text \<open>A successful call hands out the result of the C++ call, in objects that the matching free
  functions release completely; a failed one leaves its outputs zero and nothing allocated but the
  error string. \<open>err_ptr\<close> is the pointer in \<open>*out_err\<close>.\<close>

definition err_ptr :: "ptr option \<Rightarrow> ptr" where
  "err_ptr e = (case e of Some p \<Rightarrow> p | None \<Rightarrow> None)"

definition call_contract ::
    "(mem \<Rightarrow> 'o \<Rightarrow> 'r \<Rightarrow> bool) \<Rightarrow> ('o \<Rightarrow> mem \<Rightarrow> mem) \<Rightarrow> 'o \<Rightarrow> mem \<Rightarrow> 'r cxx \<Rightarrow> 'o c_call \<Rightarrow> bool" where
  "call_contract reads release zeroed m r c \<longleftrightarrow>
     (if r_status c = NYXSTONE_OK
      then (case r of Returns (Inr v) \<Rightarrow> reads (r_mem c) (r_out c) v | _ \<Rightarrow> False) \<and>
           live (release (r_out c) (r_mem c)) = live m \<and> wild_free (release (r_out c) (r_mem c)) = wild_free m \<and>
           err_ptr (r_err c) = None
      else r_out c = zeroed \<and> live (free_string (err_ptr (r_err c)) (r_mem c)) = live m \<and>
           wild_free (free_string (err_ptr (r_err c)) (r_mem c)) = wild_free m)"

lemma report_contract:
  assumes "allocated m [] m1" "status \<noteq> NYXSTONE_OK"
  shows "call_contract reads release zeroed m r (report status msg zeroed (clear_err out_err) m1)"
proof (cases out_err)
  case None
  then show ?thesis
    using assms by (simp add: call_contract_def report_def clear_err_def set_err_def err_ptr_def free_string_def
        allocated_Nil) (simp add: allocated_def)
next
  case (Some p0)
  obtain p m2 where p: "dup_cstring msg m1 = (p, m2)" by fastforce
  have "allocated m (addresses [p]) m2"
    using allocated_trans [OF assms(1)] dup_cstring_cases [OF allocated_wf [OF assms(1)] p] by fastforce
  then have "allocated m [] (free_string p m2)"
    using free_addresses [of m "[p]" "[]" m2] by (simp add: free_string_def)
  then show ?thesis
    using assms(2) Some p by (simp add: call_contract_def report_def clear_err_def set_err_def err_ptr_def allocated_Nil)
      (simp add: allocated_def)
qed

context output_builder
begin

lemma run_try_contract:
  assumes "wf_mem m" "\<And>msg. classify msg \<noteq> NYXSTONE_OK"
  shows "call_contract reads release zeroed m r (run_try classify finish r zeroed (clear_err out_err) m)"
proof -
  note failed = report_contract [where reads = reads and release = release and r = r and zeroed = zeroed and out_err = out_err]
  consider what where "r = Throws what" | msg where "r = Returns (Inl msg)" | v where "r = Returns (Inr v)"
    by (cases r) (auto split: sum.splits, metis sum.exhaust)
  then show ?thesis
  proof cases
    case (3 v)
    obtain outs m' where f: "finish v m = (outs, m')" by fastforce
    note result = finish_result [OF assms(1) f]
    show ?thesis
    proof (cases outs)
      case None
      then show ?thesis using result 3 f failed [of m m' NYXSTONE_ERR_ALLOC] by (simp add: run_try_def)
    next
      case (Some o')
      then have "reads m' o' v" "allocated m [] (release o' m')" using result by simp_all
      then show ?thesis
        using 3 f Some by (cases out_err) (simp_all add: run_try_def call_contract_def clear_err_def err_ptr_def allocated_def fun_eq_iff)
    qed
  qed (use failed [OF allocated_refl [OF assms(1)]] assms(2) in \<open>simp_all add: run_try_def\<close>)
qed

end

lemma classify_not_ok: "classify_assemble_error msg \<noteq> NYXSTONE_OK"
  by (simp add: classify_assemble_error_def)

subsection \<open>The builders\<close>

type_synonym outs = "ptr option \<times> nat option"

text \<open>What the caller reads, and the matching free functions.\<close>

definition reads_bytes :: "mem \<Rightarrow> outs \<Rightarrow> byte list \<Rightarrow> bool" where
  "reads_bytes m o' bs \<longleftrightarrow> (case o' of (Some p, Some n) \<Rightarrow> bytes_at m p = bs \<and> n = length bs \<and> (p = None \<longleftrightarrow> bs = []) | _ \<Rightarrow> False)"

definition reads_instructions :: "mem \<Rightarrow> outs \<Rightarrow> instruction list \<Rightarrow> bool" where
  "reads_instructions m o' v \<longleftrightarrow>
     (case o' of (Some (Some a), Some n) \<Rightarrow> n = length v \<and>
          map (read_instruction m) (take n (cells_at instruction_kind a m)) = v | _ \<Rightarrow> False)"

definition reads_relocations :: "mem \<Rightarrow> outs \<Rightarrow> relocation_info list \<Rightarrow> bool" where
  "reads_relocations m o' v \<longleftrightarrow>
     (case o' of
        (Some (Some a), Some n) \<Rightarrow> n = length v \<and> map (read_relocation m) (take n (cells_at reloc_kind a m)) = v
      | (Some None, Some n) \<Rightarrow> n = 0 \<and> v = []
      | _ \<Rightarrow> False)"

definition out_value :: "ptr option \<Rightarrow> ptr" where
  "out_value o' = (case o' of Some p \<Rightarrow> p | None \<Rightarrow> None)"

definition release_bytes :: "outs \<Rightarrow> mem \<Rightarrow> mem" where
  "release_bytes o' = free_bytes (out_value (fst o'))"

definition release_instructions :: "outs \<Rightarrow> mem \<Rightarrow> mem" where
  "release_instructions o' = free_instructions (out_value (fst o')) (case snd o' of Some n \<Rightarrow> n | None \<Rightarrow> 0)"

definition release_relocations :: "outs \<Rightarrow> mem \<Rightarrow> mem" where
  "release_relocations o' = free_relocations (out_value (fst o')) (case snd o' of Some n \<Rightarrow> n | None \<Rightarrow> 0)"

interpretation bytes_out: output_builder finish_bytes reads_bytes release_bytes
proof
  fix m v outs m'
  assume wf: "wf_mem m" and f: "finish_bytes v m = (outs, m')"
  show "case outs of None \<Rightarrow> allocated m [] m' | Some o' \<Rightarrow> reads_bytes m' o' v \<and> allocated m [] (release_bytes o' m')"
    using f mem_alloc_cases [OF wf, of "C_bytes v"] allocated_refl [OF wf]
    by (auto simp: finish_bytes_def reads_bytes_def release_bytes_def free_bytes_def out_value_def bytes_at_def
        allocated_free split: if_splits prod.splits option.splits)
qed

lemma convert_instructions_result:
  assumes "wf_mem m" "convert_instructions v m = (p, m')"
  shows "case p of
      None \<Rightarrow> allocated m [] m'
    | Some a \<Rightarrow> wf_mem m' \<and> (\<forall>as m''. allocated m' as m'' \<longrightarrow>
        reads_instructions m'' (Some p, Some (length v)) v \<and> allocated m as (free_instructions p (length v) m''))"
proof (cases p)
  case (Some a)
  then have c: "convert_array instruction_kind v m = (Some a, m')" using assms(2) by (simp add: convert_instructions_def)
  then have "wf_mem m'" using ins.convert_array_result [OF assms(1), of v] allocated_wf by auto
  moreover have "reads_instructions m'' (Some p, Some (length v)) v" if "allocated m' as m''" for as m''
    using ins.convert_array_stays [OF assms(1) c that] Some
    by (auto simp: reads_instructions_def cells_at_def ins.unwrap_wrap read_back simp del: take_append)
  ultimately show ?thesis
    using ins.convert_then_free [OF assms(1) c] Some by (simp add: free_instructions_def)
qed (use ins.convert_array_result [OF assms(1), of v] assms(2) in \<open>simp add: convert_instructions_def\<close>)

lemma convert_relocations_result:
  assumes "wf_mem m" "convert_relocations v m = (p, m')"
  shows "case p of
      None \<Rightarrow> allocated m [] m'
    | Some a \<Rightarrow> wf_mem m' \<and> (\<forall>as m''. allocated m' as m'' \<longrightarrow>
        reads_relocations m'' (Some p, Some (length v)) v \<and> allocated m as (free_relocations p (length v) m''))"
proof (cases p)
  case (Some a)
  then have c: "convert_array reloc_kind v m = (Some a, m')" using assms(2) by (simp add: convert_relocations_def)
  then have "wf_mem m'" using relocations.convert_array_result [OF assms(1), of v] allocated_wf by auto
  moreover have "reads_relocations m'' (Some p, Some (length v)) v" if "allocated m' as m''" for as m''
    using relocations.convert_array_stays [OF assms(1) c that] Some
    by (auto simp: reads_relocations_def cells_at_def relocations.unwrap_wrap read_back simp del: take_append)
  ultimately show ?thesis
    using relocations.convert_then_free [OF assms(1) c] Some by (simp add: free_relocations_def)
qed (use relocations.convert_array_result [OF assms(1), of v] assms(2) in \<open>simp add: convert_relocations_def\<close>)

interpretation instructions_out: output_builder finish_instructions reads_instructions release_instructions
proof
  fix m v outs m'
  assume wf: "wf_mem m" and f: "finish_instructions v m = (outs, m')"
  obtain p m1 where c: "convert_instructions v m = (p, m1)" by fastforce
  show "case outs of None \<Rightarrow> allocated m [] m'
    | Some o' \<Rightarrow> reads_instructions m' o' v \<and> allocated m [] (release_instructions o' m')"
    using f c convert_instructions_result [OF wf c] allocated_refl [of m1]
    by (auto simp: finish_instructions_def release_instructions_def out_value_def split: option.splits)
qed

text \<open>The outputs of the calls with relocations are released one after the other.\<close>

definition release_code_relocs :: "two_outs \<Rightarrow> mem \<Rightarrow> mem" where
  "release_code_relocs o' m = release_bytes (fst o') (release_relocations (snd o') m)"

definition release_ins_relocs :: "two_outs \<Rightarrow> mem \<Rightarrow> mem" where
  "release_ins_relocs o' m = release_instructions (fst o') (release_relocations (snd o') m)"

definition reads_code_relocs :: "mem \<Rightarrow> two_outs \<Rightarrow> assemble_with_relocs_result \<Rightarrow> bool" where
  "reads_code_relocs m o' v \<longleftrightarrow>
     reads_bytes m (fst o') (wr_bytes v) \<and> reads_relocations m (snd o') (wr_relocations v)"

definition reads_ins_relocs :: "mem \<Rightarrow> two_outs \<Rightarrow> instructions_with_relocs_result \<Rightarrow> bool" where
  "reads_ins_relocs m o' v \<longleftrightarrow>
     reads_instructions m (fst o') (iwr_instructions v) \<and> reads_relocations m (snd o') (iwr_relocations v)"

text \<open>The relocations are built last: with \<open>as\<close> allocated before, either nothing is added or they
  read as the result and releasing them leaves \<open>as\<close>.\<close>

lemma relocs_last:
  assumes "wf_mem m" "(if v = [] then (None, m) else convert_relocations v m) = (p, m')"
  shows "if v \<noteq> [] \<and> p = None then allocated m [] m'
    else reads_relocations m' (Some p, Some (length v)) v \<and> (\<exists>as. allocated m as m') \<and>
      allocated m [] (release_relocations (Some p, Some (length v)) m')"
proof (cases "v = []")
  case True
  then show ?thesis
    using assms allocated_refl [OF assms(1)]
    by (auto simp: reads_relocations_def release_relocations_def free_relocations_def free_array_def out_value_def)
next
  case False
  then have c: "convert_relocations v m = (p, m')" using assms(2) by simp
  note result = convert_relocations_result [OF assms(1) c]
  show ?thesis
  proof (cases p)
    case (Some a)
    have "\<exists>as. allocated m as m'"
      using relocations.convert_array_result [OF assms(1), of v] c Some by (auto simp: convert_relocations_def)
    then show ?thesis
      using result Some allocated_refl [of m'] by (auto simp: release_relocations_def out_value_def)
  qed (use False result in simp)
qed

interpretation code_relocs_out: output_builder finish_with_relocs reads_code_relocs release_code_relocs
proof
  fix m v outs m'
  assume wf: "wf_mem m" and f: "finish_with_relocs v m = (outs, m')"
  obtain b m1 where b: "(if wr_bytes v = [] then (None, m) else mem_alloc (C_bytes (wr_bytes v)) m) = (b, m1)" by fastforce
  obtain p m2 where p: "(if wr_relocations v = [] then (None, m1) else convert_relocations (wr_relocations v) m1) = (p, m2)"
    by fastforce
  have first: "allocated m (addresses [b]) m1 \<and> (wr_bytes v = [] \<longleftrightarrow> b = None) \<and> bytes_at m1 b = wr_bytes v
      \<or> wr_bytes v \<noteq> [] \<and> b = None \<and> allocated m [] m1"
    using b mem_alloc_cases [OF wf, of "C_bytes (wr_bytes v)"] allocated_refl [OF wf]
    by (auto simp: bytes_at_def split: if_splits option.splits)
  show "case outs of None \<Rightarrow> allocated m [] m'
    | Some o' \<Rightarrow> reads_code_relocs m' o' v \<and> allocated m [] (release_code_relocs o' m')"
  proof (cases "wr_bytes v \<noteq> [] \<and> b = None")
    case False
    then have b1: "allocated m (addresses [b]) m1" "wr_bytes v = [] \<longleftrightarrow> b = None" "bytes_at m1 b = wr_bytes v"
      using first by auto
    note last = relocs_last [OF allocated_wf [OF b1(1)] p]
    show ?thesis
    proof (cases "wr_relocations v \<noteq> [] \<and> p = None")
      case True
      then have "outs = None" "m' = mem_free b m2"
        using f unfolding finish_with_relocs_def Let_def b prod.case p using False True by auto
      moreover have "allocated m (addresses [b] @ []) m2"
        using last True allocated_trans [OF b1(1), of "[]" m2] by simp
      ultimately show ?thesis using free_addresses [of m "[b]" "[]" m2] by simp
    next
      case relocs: False
      define n where "n = length (wr_relocations v)"
      have outs: "outs = Some ((Some b, Some (length (wr_bytes v))), Some p, Some n)" "m' = m2"
        using f unfolding finish_with_relocs_def Let_def b prod.case p using False relocs by (auto simp: n_def)
      obtain as where as: "allocated m1 as m2" using last relocs by auto
      have "bytes_at m2 b = wr_bytes v"
        using b1 allocated_keeps [OF as] bytes_at_cong [of b m2 m1] by (auto simp: allocated_def)
      then have "reads_code_relocs m2 (the outs) v"
        using last relocs b1(2) by (auto simp: outs reads_code_relocs_def reads_bytes_def n_def)
      moreover have "allocated m (addresses [b] @ []) (release_relocations (Some p, Some n) m2)"
        using last relocs by (intro allocated_trans [OF b1(1)]) (auto simp: n_def)
      then have "allocated m [] (release_code_relocs (the outs) m2)"
        using free_addresses [of m "[b]" "[]"]
        by (simp add: outs release_code_relocs_def release_bytes_def free_bytes_def out_value_def)
      ultimately show ?thesis by (simp add: outs)
    qed
  qed (use f b p first in \<open>auto simp: finish_with_relocs_def\<close>)
qed

interpretation ins_relocs_out: output_builder finish_instructions_with_relocs reads_ins_relocs release_ins_relocs
proof
  fix m v outs m'
  assume wf: "wf_mem m" and f: "finish_instructions_with_relocs v m = (outs, m')"
  obtain a m1 where a: "convert_instructions (iwr_instructions v) m = (a, m1)" by fastforce
  obtain p m2 where p: "(if iwr_relocations v = [] then (None, m1) else convert_relocations (iwr_relocations v) m1) = (p, m2)"
    by fastforce
  define n where "n = length (iwr_instructions v)"
  note first = convert_instructions_result [OF wf a]
  show "case outs of None \<Rightarrow> allocated m [] m'
    | Some o' \<Rightarrow> reads_ins_relocs m' o' v \<and> allocated m [] (release_ins_relocs o' m')"
  proof (cases a)
    case (Some x)
    then have stays: "\<And>as m''. allocated m1 as m'' \<Longrightarrow>
        reads_instructions m'' (Some a, Some n) (iwr_instructions v) \<and> allocated m as (free_instructions a n m'')"
      and wf1: "wf_mem m1" using first by (simp_all add: n_def)
    note last = relocs_last [OF wf1 p]
    show ?thesis
    proof (cases "iwr_relocations v \<noteq> [] \<and> p = None")
      case True
      then have "outs = None" "m' = free_instructions a n m2"
        using f unfolding finish_instructions_with_relocs_def Let_def a Some option.case prod.case p
        using True by (auto simp: Some n_def)
      then show ?thesis using stays [of "[]" m2] last True by simp
    next
      case False
      then have outs: "outs = Some ((Some a, Some n), Some p, Some (length (iwr_relocations v)))" "m' = m2"
        using f unfolding finish_instructions_with_relocs_def Let_def a Some option.case prod.case p
        using False by (auto simp: Some n_def)
      obtain as where as: "allocated m1 as m2" using last False by auto
      have "reads_ins_relocs m2 (the outs) v"
        using stays [OF as] last False by (auto simp: outs reads_ins_relocs_def)
      moreover have "allocated m [] (release_ins_relocs (the outs) m2)"
        using last False stays [of "[]"]
        by (auto simp: outs release_ins_relocs_def release_instructions_def out_value_def)
      ultimately show ?thesis by (simp add: outs)
    qed
  qed (use f a first in \<open>simp add: finish_instructions_with_relocs_def\<close>)
qed

definition reads_text :: "mem \<Rightarrow> ptr option \<Rightarrow> string \<Rightarrow> bool" where
  "reads_text m o' t \<longleftrightarrow> out_value o' \<noteq> None \<and> string_at m (out_value o') = t"

definition release_text :: "ptr option \<Rightarrow> mem \<Rightarrow> mem" where
  "release_text o' = free_string (out_value o')"

interpretation text_out: output_builder finish_text reads_text release_text
proof
  fix m t outs m'
  assume wf: "wf_mem m" and f: "finish_text t m = (outs, m')"
  obtain p m1 where p: "dup_cstring t m = (p, m1)" by fastforce
  show "case outs of None \<Rightarrow> allocated m [] m' | Some o' \<Rightarrow> reads_text m' o' t \<and> allocated m [] (release_text o' m')"
    using f p dup_cstring_cases [OF wf p] free_addresses [of m "[p]" "[]" m1]
    by (cases p) (auto simp: finish_text_def reads_text_def release_text_def free_string_def out_value_def)
qed

subsection \<open>The entry points\<close>

text \<open>C9. Each of the six calls, with its arguments given and any allocation failing: on success the
  outputs read as the result of the C++ call and the matching free functions give back exactly
  what the call allocated; on any failure, exceptions included, the outputs are \<open>NULL\<close> and 0 and
  the error string is the only object left behind.\<close>

theorem c_calls_all_or_nothing:
  assumes "wf_mem m" "h \<noteq> None"
  shows "let src = take n source; ls = to_label_vector (Some labels) labels_len;
      input = input_bytes (Some bytes) bytes_len; zero = (Some None, Some 0)
    in call_contract reads_bytes release_bytes zero m (fst (x_assemble api src a ls s))
         (fst (nyxstone_assemble api h (Some source) n a (Some labels) labels_len (Some p1) (Some n1) out_err m s)) \<and>
       call_contract reads_instructions release_instructions zero m (fst (x_assemble_to_instructions api src a ls s))
         (fst (nyxstone_assemble_to_instructions api h (Some source) n a (Some labels) labels_len
           (Some p1) (Some n1) out_err m s)) \<and>
       call_contract reads_code_relocs release_code_relocs (zero, zero) m (fst (x_assemble_with_relocs api src a ls s))
         (fst (nyxstone_assemble_with_relocs api h (Some source) n a (Some labels) labels_len
           (Some p1) (Some n1) (Some p2) (Some n2) out_err m s)) \<and>
       call_contract reads_ins_relocs release_ins_relocs (zero, zero) m
         (fst (x_assemble_to_instructions_with_relocs api src a ls s))
         (fst (nyxstone_assemble_to_instructions_with_relocs api h (Some source) n a (Some labels) labels_len
           (Some p1) (Some n1) (Some p2) (Some n2) out_err m s)) \<and>
       call_contract reads_text release_text (Some None) m (fst (x_disassemble api input a cnt s))
         (fst (nyxstone_disassemble api h (Some bytes) bytes_len a cnt (Some p1) out_err m s)) \<and>
       call_contract reads_instructions release_instructions zero m (fst (x_disassemble_to_instructions api input a cnt s))
         (fst (nyxstone_disassemble_to_instructions api h (Some bytes) bytes_len a cnt (Some p1) (Some n1) out_err m s))"
  unfolding Let_def
  by (intro conjI)
    (simp_all add: nyxstone_assemble_def nyxstone_assemble_to_instructions_def nyxstone_assemble_with_relocs_def
      nyxstone_assemble_to_instructions_with_relocs_def nyxstone_disassemble_def nyxstone_disassemble_to_instructions_def
      case_prod_unfold Let_def classify_not_ok assms(2)
      bytes_out.run_try_contract [OF assms(1)] instructions_out.run_try_contract [OF assms(1)]
      code_relocs_out.run_try_contract [OF assms(1)] ins_relocs_out.run_try_contract [OF assms(1)]
      text_out.run_try_contract [OF assms(1)])

text \<open>An API whose calls always succeed.\<close>

definition sample_cxx :: "unit cxx_api" where
  "sample_cxx = (let nop = \<lparr>ins_address = 0, ins_assembly = ''nop'', ins_bytes = [0, 0]\<rparr> in \<lparr>
     x_create = (\<lambda>s. (Returns (Inr ()), s)),
     x_assemble = (\<lambda>_ _ _ s. (Returns (Inr [0, 0]), s)),
     x_assemble_to_instructions = (\<lambda>_ _ _ s. (Returns (Inr [nop]), s)),
     x_assemble_with_relocs = (\<lambda>_ _ _ s. (Returns (Inr \<lparr>wr_bytes = [0, 0], wr_relocations = []\<rparr>), s)),
     x_assemble_to_instructions_with_relocs =
       (\<lambda>_ _ _ s. (Returns (Inr \<lparr>iwr_instructions = [nop], iwr_relocations = []\<rparr>), s)),
     x_disassemble = (\<lambda>_ _ _ s. (Returns (Inr ''nop''), s)),
     x_disassemble_to_instructions = (\<lambda>_ _ _ s. (Returns (Inr [nop]), s))\<rparr>)"

theorem c_calls_all_or_nothing_witness:
  "let c = fst (nyxstone_assemble_to_instructions sample_cxx (Some 9) (Some ''nop'') 3 0 (Some []) 0 (Some None)
       (Some 7) None (empty_mem (\<lambda>n. n \<noteq> 2)) ())
   in r_status c = NYXSTONE_ERR_ALLOC \<and> r_out c = (Some None, Some 0) \<and>
      live (free_string (err_ptr (r_err c)) (r_mem c)) = live (empty_mem (\<lambda>n. n \<noteq> 2))"
proof -
  have "r_status (fst (nyxstone_assemble_to_instructions sample_cxx (Some 9) (Some ''nop'') 3 0 (Some []) 0 (Some None)
       (Some 7) None (empty_mem (\<lambda>n. n \<noteq> 2)) ())) = NYXSTONE_ERR_ALLOC"
    by code_simp
  then show ?thesis
    using c_calls_all_or_nothing [OF empty_mem_wf option.distinct(2), of 3 "''nop''" "[]" 0 "[]" 0 "\<lambda>n. n \<noteq> 2" sample_cxx
        0 "()" 9 None 7 None None 0 0]
    unfolding Let_def call_contract_def by simp
qed

text \<open>C38. A call with a \<open>NULL\<close> argument is rejected without calling the assembler, with a message and
  nothing else allocated; its other out-parameters keep the values they had (the header promises
  \<open>NULL\<close> and 0 for every failure).\<close>

theorem null_arguments_rejected:
  assumes "wf_mem m" "h = None \<or> source = None \<or> out_bytes = None \<or> out_len = None \<or> labels = None \<and> labels_len > 0"
  shows "let (c, s') = nyxstone_assemble api h source n a labels labels_len out_bytes out_len out_err m s
    in r_status c = NYXSTONE_ERR_NULL_ARG \<and> r_out c = (out_bytes, out_len) \<and> s' = s \<and>
       live (free_string (err_ptr (r_err c)) (r_mem c)) = live m"
proof -
  have "call_contract (\<lambda>_ _ (_ :: unit). True) (\<lambda>_ m. m) (out_bytes, out_len) m (Throws None)
      (report NYXSTONE_ERR_NULL_ARG kErrNullArg (out_bytes, out_len) (clear_err out_err) m)"
    by (rule report_contract [OF allocated_refl [OF assms(1)]]) simp
  moreover have "r_status (report st msg outs e m) = st" for st msg and outs :: outs and e
    by (simp add: report_def case_prod_unfold Let_def)
  ultimately show ?thesis
    using assms(2) by (auto simp: nyxstone_assemble_def call_contract_def)
qed

theorem null_arguments_rejected_witness:
  "r_out (fst (nyxstone_assemble sample_cxx (Some 9) None 0 0 None 0 (Some (Some 77)) (Some 5) None (empty_mem (\<lambda>_. True)) ()))
     = (Some (Some 77), Some 5)"
proof -
  have "Some 9 = None \<or> (None :: string option) = None \<or> Some (Some 77) = None \<or> Some 5 = None
      \<or> (None :: c_label list option) = None \<and> 0 > (0 :: nat)"
    by simp
  then show ?thesis
    using null_arguments_rejected [OF empty_mem_wf [of "\<lambda>_. True"], where h = "Some 9" and source = "None" and labels = "None"
        and out_bytes = "Some (Some 77)" and out_len = "Some 5" and labels_len = "0" and api = "sample_cxx"
        and s = "()" and n = "0" and a = "0" and out_err = "None"]
    by (simp add: case_prod_unfold Let_def)
qed

subsection \<open>The section-violation status\<close>

text \<open>C23. A source that selects another section gets the status \<open>NYXSTONE_ERR_SECTION_VIOLATION\<close> when no
  directive error is reported, which would come first. The converse fails: the status is decided by searching the
  message for a phrase, and messages quote operands, so a malformed operand that contains the
  phrase is reported as a section violation although the source selects no section.\<close>

theorem section_status:
  assumes "textual_error source = Some section_message"
  shows "(\<exists>msg. fst (do_assemble gl source a ls wr st) = Inl msg \<and>
            classify_assemble_error msg = NYXSTONE_ERR_SECTION_VIOLATION) \<and>
    (\<exists>quoting msg. \<not> g_section_violation (parsed quoting) \<and> fst (do_assemble gl quoting a ls wr st) = Inl msg \<and>
       classify_assemble_error msg = NYXSTONE_ERR_SECTION_VIOLATION)"
proof -
  have first: "fst (do_assemble gl s a ls wr st) = Inl msg" if "textual_error s = Some msg" for s msg
    using that by (auto simp: do_assemble_def verdict_def Let_def window_flags textual_error_def split: if_splits)
  have "classify_assemble_error section_message = NYXSTONE_ERR_SECTION_VIOLATION" by code_simp
  moreover have "\<not> g_section_violation (parsed ''.skip only .text is allowed'')" by code_simp
  moreover obtain msg where "textual_error ''.skip only .text is allowed'' = Some msg"
      "classify_assemble_error msg = NYXSTONE_ERR_SECTION_VIOLATION"
  proof -
    have "(case textual_error ''.skip only .text is allowed'' of None \<Rightarrow> False
        | Some msg \<Rightarrow> classify_assemble_error msg = NYXSTONE_ERR_SECTION_VIOLATION)"
      by code_simp
    then show ?thesis using that by (auto split: option.splits)
  qed
  ultimately show ?thesis using first assms by blast
qed

theorem section_status_witness:
  "\<exists>msg. fst (do_assemble recorder ''nop; .bss'' 0 [] False (fresh [])) = Inl msg \<and>
     classify_assemble_error msg = NYXSTONE_ERR_SECTION_VIOLATION"
proof -
  have "textual_error ''nop; .bss'' = Some section_message" by code_simp
  then show ?thesis using section_status by blast
qed

end
