(* ===== verification/C_Stack.thy ===== *)
theory C_Stack
  imports Unwind C_Api
begin

text \<open>
  The whole stack: the assembling functions of \<^verbatim>\<open>src/src/nyxstone_c.cpp\<close> on the C++
  entry points of \<^verbatim>\<open>src/src/nyxstone.cpp\<close>, on the glue, on gas. The theorems say what a
  C caller gets for a source text: bytes in which the references are encoded, with relocations for the
  open ones, or the text of the error.
\<close>

text \<open>The C++ API of this library as far as it assembles; an exception carries the text \<open>what\<close>, and the
  other functions are those of \<open>other\<close>.\<close>

definition cxx_of :: "string \<Rightarrow> ('r \<Rightarrow> 'a) \<Rightarrow> (string + 'r) option \<Rightarrow> 'a cxx" where
  "cxx_of what f r =
     (case r of
        None \<Rightarrow> Throws (Some what)
      | Some (Inl msg) \<Rightarrow> Returns (Inl msg)
      | Some (Inr v) \<Rightarrow> Returns (Inr (f v)))"

definition assembling_api :: "room \<Rightarrow> string \<Rightarrow> 'g glue \<Rightarrow> 'g driver cxx_api \<Rightarrow> 'g driver cxx_api" where
  "assembling_api room what gl other = other\<lparr>
     x_assemble := (\<lambda>src a ls st.
       let (r, st') = do_assemble_throwing room gl src a ls False st in (cxx_of what core_bytes r, st')),
     x_assemble_with_relocs := (\<lambda>src a ls st.
       let (r, st') = do_assemble_throwing room gl src a ls True st
       in (cxx_of what (\<lambda>v. \<lparr>wr_bytes = core_bytes v, wr_relocations = core_relocations v\<rparr>) r, st'))\<rparr>"

lemma cxx_of_returns:
  "cxx_of what f r = Returns (Inr v) \<longleftrightarrow> (\<exists>core. r = Some (Inr core) \<and> v = f core)"
  "cxx_of what f r = Returns (Inl msg) \<longleftrightarrow> r = Some (Inl msg)"
  by (auto simp: cxx_of_def split: option.split sum.split)

lemma returned_core:
  assumes "fst (do_assemble_throwing room gl source a ls wr st) = Some r"
  shows "fst (do_assemble gl source a ls wr st) = r"
  using assms returned_agrees [of room gl source a ls wr st r] by (metis fst_conv prod.collapse)

subsection \<open>Success\<close>

text \<open>The result of the C++ call in a successful C call.\<close>

lemma call_contract_ok:
  assumes "call_contract reads release zeroed m r c" "r_status c = NYXSTONE_OK"
  shows "\<exists>v. r = Returns (Inr v) \<and> reads (r_mem c) (r_out c) v \<and> live (release (r_out c) (r_mem c)) = live m"
  using assms by (auto simp: call_contract_def split: cxx.splits sum.splits)

text \<open>C1. The promise of the library, at its C interface: when \<open>nyxstone_assemble\<close> on gas returns
  \<open>NYXSTONE_OK\<close>, the buffer it hands out holds bytes in which every reference of the source that is
  resolved, by the source, a forward \<open>.equ\<close> included, or by a label, is encoded, none is left open, and freeing
  the buffer gives the heap back. This needs that reporting an error changes no symbol, that the error count
  does not fall, that \<open>md_apply_fix\<close> works on its own fixup, that resolving a symbol decides whether it is
  defined (no symbol is defined by itself), and that the sites of the references lie apart and in the fixed
  parts of the frags and memory suffices for the image of the section.\<close>

theorem c_assemble_delivers:
  assumes "sound_gas g" "errors_grow (gas_ops.truncate g)" "wf_mem m"
    and c: "fst (nyxstone_assemble (assembling_api room what (gas_glue g) other) (Some h) (Some source) (length source) a
      (Some labels) (length labels) (Some p0) (Some n0) out_err m st) = c" "r_status c = NYXSTONE_OK"
    and ls: "ls = to_label_vector (Some labels) (length labels)"
    and "source_settles g source ls st"
    and "sites_in_place (gas_ops.truncate g) a (prepared g source ls False st)"
  shows "\<exists>bytes. reads_bytes (r_mem c) (r_out c) bytes \<and>
      holds_references (gas_ops.truncate g) a (prepared g source ls False st) bytes \<and>
      (let t = encoded g source a ls False st in filter (unresolved (gas_ops.truncate g) t) (fixups t) = []) \<and>
      live (release_bytes (r_out c) (r_mem c)) = live m"
proof -
  let ?r = "fst (do_assemble_throwing room (gas_glue g) source a ls False st)"
  have "c = run_try classify_assemble_error finish_bytes (cxx_of what core_bytes ?r) (Some None, Some 0) (clear_err out_err) m"
    using c(1) by (auto simp: nyxstone_assemble_def assembling_api_def Let_def case_prod_unfold ls)
  then have "call_contract reads_bytes release_bytes (Some None, Some 0) m (cxx_of what core_bytes ?r) c"
    using bytes_out.run_try_contract [OF assms(3) classify_not_ok] by simp
  from call_contract_ok [OF this c(2)] obtain core where core: "?r = Some (Inr core)"
    "reads_bytes (r_mem c) (r_out c) (core_bytes core)" "live (release_bytes (r_out c) (r_mem c)) = live m"
    by (auto simp: cxx_of_returns)
  note ok = returned_core [OF core(1)]
  show ?thesis
    using core(2,3) references_encoded [OF assms(1,2) ok assms(8)] references_listed [OF assms(1) ok disjI2 [OF assms(7)]]
    by (auto simp: Let_def)
qed

text \<open>C2. With relocations: the two arrays of a successful \<open>nyxstone_assemble_with_relocs\<close> read as the
  bytes with the resolved references encoded and as one relocation per open reference, in order; the
  two free functions give the heap back. This needs that reporting an error changes no symbol, that the error
  count does not fall, and that the sites of the references lie apart and in the fixed parts of the frags and
  memory suffices for the image of the section.\<close>

theorem c_assemble_with_relocs_delivers:
  assumes "sound_gas g" "errors_grow (gas_ops.truncate g)" "wf_mem m"
    and c: "fst (nyxstone_assemble_with_relocs (assembling_api room what (gas_glue g) other) (Some h) (Some source)
      (length source) a (Some labels) (length labels) (Some p0) (Some n0) (Some p1) (Some n1) out_err m st) = c"
      "r_status c = NYXSTONE_OK"
    and ls: "ls = to_label_vector (Some labels) (length labels)"
    and "sites_in_place (gas_ops.truncate g) a (prepared g source ls True st)"
  shows "\<exists>v. reads_code_relocs (r_mem c) (r_out c) v \<and>
      holds_references (gas_ops.truncate g) a (prepared g source ls True st) (wr_bytes v) \<and>
      (let t = encoded g source a ls True st
       in wr_relocations v = map (reference_entry g a ls t) (filter (unresolved (gas_ops.truncate g) t) (fixups t))) \<and>
      live (release_code_relocs (r_out c) (r_mem c)) = live m"
proof -
  let ?r = "fst (do_assemble_throwing room (gas_glue g) source a ls True st)"
  let ?f = "\<lambda>v. \<lparr>wr_bytes = core_bytes v, wr_relocations = core_relocations v\<rparr>"
  have "c = run_try classify_assemble_error finish_with_relocs (cxx_of what ?f ?r)
      ((Some None, Some 0), Some None, Some 0) (clear_err out_err) m"
    using c(1) by (auto simp: nyxstone_assemble_with_relocs_def assembling_api_def Let_def case_prod_unfold ls)
  then have "call_contract reads_code_relocs release_code_relocs ((Some None, Some 0), Some None, Some 0) m (cxx_of what ?f ?r) c"
    using code_relocs_out.run_try_contract [OF assms(3) classify_not_ok] by simp
  from call_contract_ok [OF this c(2)] obtain core where core: "?r = Some (Inr core)"
    "reads_code_relocs (r_mem c) (r_out c) (?f core)" "live (release_code_relocs (r_out c) (r_mem c)) = live m"
    by (auto simp: cxx_of_returns)
  note ok = returned_core [OF core(1)]
  show ?thesis
    using core(2,3) references_encoded [OF assms(1,2) ok assms(7)] references_listed [OF assms(1) ok disjI1 [OF TrueI]]
    by (intro exI [of _ "?f core"]) simp
qed

subsection \<open>Errors\<close>

lemma report_reads:
  assumes "\<And>i. alloc_ok m i" "wf_mem m"
  shows "r_status (report status msg outs (clear_err (Some e)) m) = status \<and>
    r_out (report status msg outs (clear_err (Some e)) m) = outs \<and>
    err_ptr (r_err (report status msg outs (clear_err (Some e)) m)) \<noteq> None \<and>
    string_at (r_mem (report status msg outs (clear_err (Some e)) m))
      (err_ptr (r_err (report status msg outs (clear_err (Some e)) m))) = msg"
proof -
  obtain p m' where p: "dup_cstring msg m = (p, m')" by fastforce
  then have "p \<noteq> None" using assms(1) by (auto simp: dup_cstring_def mem_alloc_def Let_def)
  then show ?thesis
    using dup_cstring_cases [OF assms(2) p] p by (simp add: report_def clear_err_def set_err_def err_ptr_def)
qed

text \<open>C10. What \<open>nyxstone_assemble\<close> reports, on any glue, as long as small allocations succeed: an exception is
  \<open>NYXSTONE_ERR_ALLOC\<close> with the text of the exception, an error of the assembler has the status of its
  class and its full text in \<open>*out_err\<close>, both with \<open>NULL\<close> and 0 in the outputs; otherwise the status is
  \<open>NYXSTONE_OK\<close>, the buffer holds exactly the assembled bytes and no error string is made.\<close>

theorem c_assemble_reports:
  assumes "\<And>i. alloc_ok m i" "wf_mem m"
  shows "let c = fst (nyxstone_assemble (assembling_api room what gl other) (Some h) (Some source) (length source) a
        (Some labels) (length labels) (Some p0) (Some n0) (Some e) m st);
      err = string_at (r_mem c) (err_ptr (r_err c))
    in case fst (do_assemble_throwing room gl source a (to_label_vector (Some labels) (length labels)) False st) of
      None \<Rightarrow> r_status c = NYXSTONE_ERR_ALLOC \<and> r_out c = (Some None, Some 0) \<and> err = what
    | Some (Inl msg) \<Rightarrow> r_status c = classify_assemble_error msg \<and> r_out c = (Some None, Some 0) \<and> err = msg
    | Some (Inr core) \<Rightarrow> r_status c = NYXSTONE_OK \<and> reads_bytes (r_mem c) (r_out c) (core_bytes core) \<and> err_ptr (r_err c) = None"
proof -
  let ?r = "fst (do_assemble_throwing room gl source a (to_label_vector (Some labels) (length labels)) False st)"
  let ?c = "run_try classify_assemble_error finish_bytes (cxx_of what core_bytes ?r) (Some None, Some 0) (clear_err (Some e)) m"
  have c: "fst (nyxstone_assemble (assembling_api room what gl other) (Some h) (Some source) (length source) a
      (Some labels) (length labels) (Some p0) (Some n0) (Some e) m st) = ?c"
    by (simp add: nyxstone_assemble_def assembling_api_def Let_def case_prod_unfold)
  have fin: "\<exists>outs m'. finish_bytes bs m = (Some outs, m')" for bs
    using assms(1) by (auto simp: finish_bytes_def mem_alloc_def Let_def)
  have contract: "call_contract reads_bytes release_bytes (Some None, Some 0) m (cxx_of what core_bytes ?r) ?c"
    by (rule bytes_out.run_try_contract [OF assms(2) classify_not_ok])
  show ?thesis
  proof (cases ?r)
    case None
    then show ?thesis by (simp add: c cxx_of_def run_try_def Let_def report_reads [OF assms])
  next
    case (Some r)
    show ?thesis
    proof (cases r)
      case (Inl msg)
      then show ?thesis using Some by (simp add: c cxx_of_def run_try_def Let_def report_reads [OF assms])
    next
      case (Inr core)
      have "r_status ?c = NYXSTONE_OK" using fin [of "core_bytes core"] Some Inr by (auto simp: cxx_of_def run_try_def)
      then show ?thesis using contract Some Inr by (simp add: c call_contract_def cxx_of_def)
    qed
  qed
qed

subsection \<open>Witnesses\<close>

definition ample :: room where "ample n \<longleftrightarrow> True"

text \<open>The calls that are not looked at here.\<close>

definition throwing_api :: "'s cxx_api" where
  "throwing_api = \<lparr>
     x_create = (\<lambda>s. (Throws None, s)), x_assemble = (\<lambda>_ _ _ s. (Throws None, s)),
     x_assemble_to_instructions = (\<lambda>_ _ _ s. (Throws None, s)), x_assemble_with_relocs = (\<lambda>_ _ _ s. (Throws None, s)),
     x_assemble_to_instructions_with_relocs = (\<lambda>_ _ _ s. (Throws None, s)),
     x_disassemble = (\<lambda>_ _ _ s. (Throws None, s)), x_disassemble_to_instructions = (\<lambda>_ _ _ s. (Throws None, s))\<rparr>"

text \<open>The forward \<open>.equ\<close> of theory \<open>Assemble_Gas\<close>: the target of the jump is not defined before the fixup
  pass.\<close>

definition c_result :: "(ptr option \<times> nat option) c_call" where
  "c_result = fst (nyxstone_assemble (assembling_api ample ''bad_alloc'' (gas_glue equ_api) throwing_api) (Some 9)
     (Some equ_source) (length equ_source) 0x1000 (Some []) (length ([] :: c_label list)) (Some None) (Some 0) (Some None)
     (empty_mem (\<lambda>_. True)) (fresh equ_section))"

lemma c_result_ok: "r_status c_result = NYXSTONE_OK"
proof -
  have "fst (do_assemble_throwing ample (gas_glue equ_api) equ_source 0x1000 [] False (fresh equ_section))
      = Some (Inr \<lparr>core_bytes = [0x1d, 0, 2, 0, 0, 0], core_relocations = []\<rparr>)"
    by (simp add: always_returns ample_def equ_assembled)
  then show ?thesis
    by (simp add: c_result_def nyxstone_assemble_def assembling_api_def Let_def case_prod_unfold to_label_vector_def
        cxx_of_def run_try_def finish_bytes_def mem_alloc_def empty_mem_def)
qed

theorem c_assemble_delivers_witness:
  "(\<exists>bytes. reads_bytes (r_mem c_result) (r_out c_result) bytes \<and> holds_references equ_ops 0x1000 equ_prepared bytes) \<and>
   \<not> gas_is_defined equ_ops 12 (ext (loaded equ_api equ_source [] False (fresh equ_section))) \<and>
   gas_is_defined equ_ops 12 (ext equ_prepared)"
proof -
  have no_labels: "to_label_vector (Some []) (length ([] :: c_label list)) = []" by (simp add: to_label_vector_def)
  have settles: "source_settles equ_api equ_source [] (fresh equ_section)"
    by (simp add: source_settles_def equ_api_ops equ_settles)
  have place: "sites_in_place (gas_ops.truncate equ_api) 0x1000 (prepared equ_api equ_source [] False (fresh equ_section))"
    by (simp add: equ_prepared equ_api_ops equ_place)
  have "\<not> gas_is_defined equ_ops 12 (ext (loaded equ_api equ_source [] False (fresh equ_section)))"
    "gas_is_defined equ_ops 12 (ext equ_prepared)"
    by code_simp+
  then show ?thesis
    using c_assemble_delivers [OF equ_sound empty_mem_wf c_result_def [symmetric] c_result_ok no_labels [symmetric] settles place]
    by (auto simp: equ_prepared equ_api_ops)
qed

text \<open>A jump to an undefined symbol, which becomes a relocation.\<close>

definition r_source :: string where "r_source = ''j ext''"

definition r_labels :: "c_label list" where
  "r_labels = [\<lparr>cl_name = Some ''sym'', cl_address = 0x44\<rparr>]"

definition r_result :: "two_outs c_call" where
  "r_result = fst (nyxstone_assemble_with_relocs (assembling_api ample ''bad_alloc'' (gas_glue sample_api) throwing_api)
     (Some 9) (Some r_source) (length r_source) 0x1000 (Some r_labels) (length r_labels) (Some None) (Some 0) (Some None)
     (Some 0) (Some None) (empty_mem (\<lambda>_. True)) (fresh branch_section))"

lemma r_vector: "to_label_vector (Some r_labels) (length r_labels) = [\<lparr>l_name = ''sym'', l_address = 0x44\<rparr>]"
  by code_simp

lemma r_result_ok: "r_status r_result = NYXSTONE_OK"
proof -
  have r: "fst (do_assemble_throwing ample (gas_glue sample_api) r_source 0x1000 [\<lparr>l_name = ''sym'', l_address = 0x44\<rparr>] True
      (fresh branch_section)) = Some (fst (do_assemble (gas_glue sample_api) ''j ext'' 0x1000
        [\<lparr>l_name = ''sym'', l_address = 0x44\<rparr>] True (fresh branch_section)))"
    by (simp add: always_returns ample_def r_source_def)
  show ?thesis
    unfolding r_result_def nyxstone_assemble_with_relocs_def assembling_api_def
    by (simp add: r_vector r sample_ext Let_def case_prod_unfold cxx_of_def run_try_def) code_simp
qed

lemma r_prepared: "prepared sample_api r_source [\<lparr>l_name = ''sym'', l_address = 0x44\<rparr>] True (fresh branch_section) = branch_to 500"
  by code_simp

lemma r_place: "sites_in_place branch_gas 0x1000 (branch_to 500)"
proof -
  have unit: "unit_filled branch_gas (branch_to 500)" by code_simp
  have bytes: "section_bytes branch_gas (branch_to 500) = [0x1d, 0, 0, 0, 9, 9, 9, 9]" by code_simp
  have "extractable branch_gas (branch_to 500)"
    by (rule unit_filled_extractable [OF unit]) (simp only: bytes, simp)
  moreover have "fills_behind branch_gas (branch_to 500)" "sites branch_gas 0x1000 (branch_to 500) = []" by code_simp+
  moreover have "c_malloc branch_gas n" for n by (simp add: branch_gas_def sample_gas_def)
  ultimately show ?thesis
    by (simp add: sites_in_place_def bytes apart_def fixed_positions_def)
qed

theorem c_assemble_with_relocs_delivers_witness:
  "\<exists>v. reads_code_relocs (r_mem r_result) (r_out r_result) v \<and> length (wr_relocations v) = 1 \<and>
     live (release_code_relocs (r_out r_result) (r_mem r_result)) = live (empty_mem (\<lambda>_. True))"
proof -
  have one: "length (let t = encoded sample_api r_source 0x1000 [\<lparr>l_name = ''sym'', l_address = 0x44\<rparr>] True (fresh branch_section)
    in filter (unresolved branch_gas t) (fixups t)) = 1"
    by code_simp
  show ?thesis
    using c_assemble_with_relocs_delivers [OF sample_api_sound empty_mem_wf r_result_def [symmetric] r_result_ok
        r_vector [symmetric], unfolded r_prepared sample_api_ops, OF r_place] one
    by (auto simp: Let_def)
qed

theorem c_assemble_reports_witness:
  "let c = fst (nyxstone_assemble (assembling_api ample ''bad_alloc'' recorder throwing_api) (Some 9) (Some ''.bss'')
       (length ''.bss'') 0 (Some []) (length ([] :: c_label list)) (Some None) (Some 0) (Some None) (empty_mem (\<lambda>_. True)) (fresh []))
   in r_status c = NYXSTONE_ERR_SECTION_VIOLATION \<and> string_at (r_mem c) (err_ptr (r_err c)) = section_message"
proof -
  have no_labels: "to_label_vector (Some []) (length ([] :: c_label list)) = []" by (simp add: to_label_vector_def)
  have "fst (do_assemble recorder ''.bss'' 0 [] False (fresh [])) = Inl section_message" by code_simp
  then have r: "fst (do_assemble_throwing ample recorder ''.bss'' 0 [] False (fresh [])) = Some (Inl section_message)"
    by (simp add: always_returns ample_def)
  have status: "classify_assemble_error section_message = NYXSTONE_ERR_SECTION_VIOLATION" by code_simp
  have "\<And>i. alloc_ok (empty_mem (\<lambda>_. True)) i" by (simp add: empty_mem_def)
  from c_assemble_reports [OF this empty_mem_wf, of ample "''bad_alloc''" recorder throwing_api 9 "''.bss''" 0 "[]" None 0 None "fresh []"]
  show ?thesis by (simp only: no_labels r status option.case sum.case Let_def simp_thms)
qed

end
