(* ===== verification/C_Ownership.thy ===== *)
theory C_Ownership
  imports C_Api
begin

text \<open>
  Who owns the memory behind the outputs of \<^verbatim>\<open>src/src/nyxstone_c.cpp\<close>: the locale
  \<open>owned_output\<close> states what building, reading and releasing an output does to the heap, whatever
  else is in it, and the five kinds of outputs interpret it. The contract of theory \<open>C_Api\<close>, in which a
  result is released at once, follows from it.
\<close>

subsection \<open>Results and the memory they own\<close>

text \<open>An output owns addresses. It can be read, and stays the same, as long as these are left alone;
  its release frees exactly them.\<close>

locale owned_output =
  fixes finish :: "'r \<Rightarrow> mem \<Rightarrow> 'o option \<times> mem"
    and reads :: "mem \<Rightarrow> 'o \<Rightarrow> 'r \<Rightarrow> bool" and release :: "'o \<Rightarrow> mem \<Rightarrow> mem"
    and owned :: "mem \<Rightarrow> 'o \<Rightarrow> nat list"
  assumes builds: "wf_mem m \<Longrightarrow> finish v m = (Some o', m') \<Longrightarrow> allocated m (owned m' o') m' \<and> reads m' o' v"
    and fails: "wf_mem m \<Longrightarrow> finish v m = (None, m') \<Longrightarrow> allocated m [] m'"
    and stays: "reads m o' v \<Longrightarrow> (\<And>x. x \<in> set (owned m o') \<Longrightarrow> live m' x = live m x) \<Longrightarrow>
      owned m' o' = owned m o' \<and> reads m' o' v"
    and frees: "reads m o' v \<Longrightarrow> allocated m0 (owned m o' @ as) m \<Longrightarrow>
      allocated m0 as (release o' m) \<and> (\<forall>x. x \<notin> set (owned m o') \<longrightarrow> live (release o' m) x = live m x)"

sublocale owned_output \<subseteq> output_builder finish reads release
proof
  fix m v outs m'
  assume wf: "wf_mem m" and f: "finish v m = (outs, m')"
  show "case outs of None \<Rightarrow> allocated m [] m' | Some o' \<Rightarrow> reads m' o' v \<and> allocated m [] (release o' m')"
  proof (cases outs)
    case (Some o')
    then have "allocated m (owned m' o') m'" "reads m' o' v" using builds [OF wf] f by blast+
    then show ?thesis using frees [of m' o' v m "[]"] Some by simp
  qed (use fails [OF wf] f in simp)
qed

text \<open>Where the outputs of a call come from: on success from the builder, otherwise there is only the
  error string.\<close>

definition call_owns ::
    "(mem \<Rightarrow> 'o \<Rightarrow> 'r \<Rightarrow> bool) \<Rightarrow> (mem \<Rightarrow> 'o \<Rightarrow> nat list) \<Rightarrow> mem \<Rightarrow> 'r cxx \<Rightarrow> 'o c_call \<Rightarrow> bool" where
  "call_owns reads owned m r c \<longleftrightarrow>
     (if r_status c = NYXSTONE_OK
      then \<exists>v. r = Returns (Inr v) \<and> allocated m (owned (r_mem c) (r_out c)) (r_mem c) \<and> reads (r_mem c) (r_out c) v
      else allocated m (addresses [err_ptr (r_err c)]) (r_mem c))"

lemma report_owns:
  assumes "allocated m [] m1" "status \<noteq> NYXSTONE_OK"
  shows "call_owns reads owned m r (report status msg outs (clear_err out_err) m1)"
proof (cases out_err)
  case None
  then show ?thesis using assms by (simp add: call_owns_def report_def clear_err_def set_err_def err_ptr_def)
next
  case (Some p0)
  obtain p m2 where p: "dup_cstring msg m1 = (p, m2)" by fastforce
  have "allocated m (addresses [p]) m2"
    using allocated_trans [OF assms(1)] dup_cstring_cases [OF allocated_wf [OF assms(1)] p] by fastforce
  then show ?thesis
    using assms(2) Some p by (simp add: call_owns_def report_def clear_err_def set_err_def err_ptr_def)
qed

context owned_output
begin

lemma run_try_owns:
  assumes "wf_mem m" "\<And>msg. classify msg \<noteq> NYXSTONE_OK"
  shows "call_owns reads owned m r (run_try classify finish r zeroed (clear_err out_err) m)"
proof -
  note failed = report_owns [where reads = reads and owned = owned and r = r and outs = zeroed and out_err = out_err]
  consider what where "r = Throws what" | msg where "r = Returns (Inl msg)" | v where "r = Returns (Inr v)"
    by (cases r) (auto split: sum.splits, metis sum.exhaust)
  then show ?thesis
  proof cases
    case (3 v)
    obtain outs m' where f: "finish v m = (outs, m')" by fastforce
    show ?thesis
    proof (cases outs)
      case None
      then show ?thesis using fails [OF assms(1)] 3 f failed [of m m' NYXSTONE_ERR_ALLOC] by (simp add: run_try_def)
    next
      case (Some o')
      then show ?thesis using builds [OF assms(1)] 3 f by (simp add: run_try_def call_owns_def)
    qed
  qed (use failed [OF allocated_refl [OF assms(1)]] assms(2) in \<open>simp_all add: run_try_def\<close>)
qed

end

subsection \<open>The outputs of the entry points\<close>

definition owned_bytes :: "mem \<Rightarrow> outs \<Rightarrow> nat list" where
  "owned_bytes m o' = addresses [out_value (fst o')]"

definition array_addresses :: "('c, 'v) array_kind \<Rightarrow> mem \<Rightarrow> outs \<Rightarrow> nat list" where
  "array_addresses k m o' =
     (case out_value (fst o') of
        None \<Rightarrow> []
      | Some a \<Rightarrow> a # concat (map (\<lambda>c. addresses (owns k c))
          (take (case snd o' of Some n \<Rightarrow> n | None \<Rightarrow> 0) (cells_at k a m))))"

lemma pointer_freed:
  assumes "allocated m0 (addresses [p] @ as) m"
  shows "allocated m0 as (mem_free p m) \<and> (\<forall>x. x \<notin> set (addresses [p]) \<longrightarrow> live (mem_free p m) x = live m x)"
  using free_addresses [of m0 "[p]" as m] assms by (cases p) (auto simp: mem_free_def)

interpretation bytes_held: owned_output finish_bytes reads_bytes release_bytes owned_bytes
proof
  fix m m' m0 v o' as
  show "wf_mem m \<Longrightarrow> finish_bytes v m = (Some o', m') \<Longrightarrow> allocated m (owned_bytes m' o') m' \<and> reads_bytes m' o' v"
    "wf_mem m \<Longrightarrow> finish_bytes v m = (None, m') \<Longrightarrow> allocated m [] m'"
    using mem_alloc_cases [of m "C_bytes v"] allocated_refl [of m]
    by (auto simp: finish_bytes_def reads_bytes_def owned_bytes_def out_value_def bytes_at_def split: if_splits prod.splits option.splits)
  show "owned_bytes m' o' = owned_bytes m o' \<and> reads_bytes m' o' v"
    if reads: "reads_bytes m o' v" and same: "\<And>x. x \<in> set (owned_bytes m o') \<Longrightarrow> live m' x = live m x"
  proof -
    obtain p n where o': "o' = (Some p, Some n)" using reads by (cases o'; cases "fst o'"; cases "snd o'") (auto simp: reads_bytes_def)
    then have "bytes_at m' p = bytes_at m p"
      using same by (intro bytes_at_cong) (simp add: owned_bytes_def out_value_def)
    then show ?thesis using reads o' by (simp add: reads_bytes_def owned_bytes_def)
  qed
  show "reads_bytes m o' v \<Longrightarrow> allocated m0 (owned_bytes m o' @ as) m \<Longrightarrow> allocated m0 as (release_bytes o' m) \<and>
      (\<forall>x. x \<notin> set (owned_bytes m o') \<longrightarrow> live (release_bytes o' m) x = live m x)"
    using pointer_freed [of m0 "out_value (fst o')" as m]
    by (simp add: owned_bytes_def release_bytes_def free_bytes_def)
qed

text \<open>The arrays: an object that has cells is one of the array's own kind.\<close>

locale tagged_array = owning_array +
  assumes wrap_unwrap: "unwrap k ob \<noteq> [] \<Longrightarrow> wrap k (unwrap k ob) = ob"
begin

lemma own_array: "array_addresses k m (Some (Some a), Some n) = a # own (take n (cells_at k a m))"
  by (simp add: array_addresses_def out_value_def own_def)

lemma array_builds:
  assumes "wf_mem m" "convert_array k v m = (Some a, m')"
  shows "allocated m (array_addresses k m' (Some (Some a), Some (length v))) m'"
    "list_all2 (shows_as m') (take (length v) (cells_at k a m')) v"
proof -
  obtain cells pad where cells: "allocated m (a # own cells) m'" "live m' a = Some (wrap k (cells @ pad))"
    "list_all2 (shows_as m') cells v"
    using convert_array_result [OF assms(1), of v] assms(2) by auto
  then have "take (length v) (cells_at k a m') = cells"
    by (simp add: cells_at_def unwrap_wrap list_all2_lengthD)
  then show "allocated m (array_addresses k m' (Some (Some a), Some (length v))) m'"
    "list_all2 (shows_as m') (take (length v) (cells_at k a m')) v"
    using cells by (simp_all add: own_array)
qed

lemma array_stays:
  assumes "list_all2 (shows_as m) (take n (cells_at k a m)) v"
    and "\<And>x. x \<in> set (array_addresses k m (Some (Some a), Some n)) \<Longrightarrow> live m' x = live m x"
  shows "array_addresses k m' (Some (Some a), Some n) = array_addresses k m (Some (Some a), Some n)"
    "list_all2 (shows_as m') (take n (cells_at k a m')) v" "cells_at k a m' = cells_at k a m"
proof -
  have "live m' a = live m a" using assms(2) by (simp add: own_array)
  then show cells: "cells_at k a m' = cells_at k a m" by (simp add: cells_at_def)
  then show "array_addresses k m' (Some (Some a), Some n) = array_addresses k m (Some (Some a), Some n)"
    by (simp add: own_array)
  have "list_all2 (shows_as m') (take n (cells_at k a m)) v"
  proof (rule list.rel_mono_strong [OF assms(1)])
    fix c w assume c: "c \<in> set (take n (cells_at k a m))" "shows_as m c w"
    have "live m' p = live m p" if "p \<in> set (addresses (owns k c))" for p
      using that c(1) by (intro assms(2)) (auto simp: own_array own_def)
    then show "shows_as m' c w" using shows_stable [OF c(2)] by blast
  qed
  then show "list_all2 (shows_as m') (take n (cells_at k a m')) v" by (simp add: cells)
qed

lemma array_frees:
  assumes "length (take n (cells_at k a m)) = n"
    and "allocated m0 (array_addresses k m (Some (Some a), Some n) @ as) m"
  shows "allocated m0 as (free_array k (Some a) n m)"
proof (cases "n = 0")
  case True
  then show ?thesis
    using assms(2) by (auto simp: free_array_def own_array intro: allocated_free)
next
  case False
  then have "cells_at k a m \<noteq> []" using assms(1) by auto
  then obtain ob where "live m a = Some ob" "unwrap k ob = cells_at k a m" "wrap k (cells_at k a m) = ob"
    using wrap_unwrap by (auto simp: cells_at_def split: option.splits)
  then have "live m a = Some (wrap k (take n (cells_at k a m) @ drop n (cells_at k a m)))" by simp
  then show ?thesis
    using assms by (intro free_array_all [where cells = "take n (cells_at k a m)" and pad = "drop n (cells_at k a m)"]) (simp_all add: own_array)
qed

lemma array_keeps:
  assumes "distinct (array_addresses k m (Some (Some a), Some n))"
    and "x \<notin> set (array_addresses k m (Some (Some a), Some n))" "n \<le> length (cells_at k a m)"
  shows "live (free_array k (Some a) n m) x = live m x"
proof -
  let ?f = "\<lambda>j. fold (\<lambda>i m. fold mem_free (owns k (cells_at k a m ! i)) m) [0..<j] m"
  have "live (?f j) a = live m a \<and> live (?f j) x = live m x" if "j \<le> n" for j
    using that
  proof (induction j)
    case (Suc j)
    then have "cells_at k a (?f j) = cells_at k a m" by (simp add: cells_at_def)
    moreover have "cells_at k a m ! j \<in> set (take n (cells_at k a m))"
      using Suc.prems assms(3) by (auto simp: in_set_conv_nth intro!: exI [of _ j])
    then have "set (addresses (owns k (cells_at k a m ! j))) \<subseteq> set (own (take n (cells_at k a m)))"
      by (auto simp: own_def)
    then have "a \<notin> set (addresses (owns k (cells_at k a m ! j)))" "x \<notin> set (addresses (owns k (cells_at k a m ! j)))"
      using assms(1,2) by (auto simp: own_array)
    ultimately show ?case using Suc by (simp add: free_keeps)
  qed simp
  then show ?thesis using assms(2) by (simp add: free_array_def mem_free_def own_array)
qed

lemma array_freed:
  assumes "length (take n (cells_at k a m)) = n"
    and "allocated m0 (array_addresses k m (Some (Some a), Some n) @ as) m"
  shows "allocated m0 as (free_array k (Some a) n m) \<and>
    (\<forall>x. x \<notin> set (array_addresses k m (Some (Some a), Some n)) \<longrightarrow> live (free_array k (Some a) n m) x = live m x)"
  using array_frees [OF assms] array_keeps assms by (auto simp: allocated_def)

end

interpretation ins_held: tagged_array instruction_kind "\<lambda>m c v. read_instruction m c = v"
  by unfold_locales (simp add: instruction_kind_def split: c_object.splits)

interpretation relocations_held: tagged_array reloc_kind "\<lambda>m c v. read_relocation m c = v"
  by unfold_locales (simp add: reloc_kind_def split: c_object.splits)

lemma list_all2_reads: "list_all2 (\<lambda>c v. f c = v) cs vs \<longleftrightarrow> map f cs = vs"
  by (auto simp: list_all2_conv_all_nth intro: nth_equalityI)

lemma reads_instructions_iff:
  "reads_instructions m o' v \<longleftrightarrow> (\<exists>a. o' = (Some (Some a), Some (length v)) \<and>
     list_all2 (\<lambda>c v. read_instruction m c = v) (take (length v) (cells_at instruction_kind a m)) v)"
  by (auto simp: reads_instructions_def list_all2_reads split: prod.splits option.splits)

lemma reads_relocations_iff:
  "reads_relocations m o' v \<longleftrightarrow> o' = (Some None, Some 0) \<and> v = [] \<or>
     (\<exists>a. o' = (Some (Some a), Some (length v)) \<and>
       list_all2 (\<lambda>c v. read_relocation m c = v) (take (length v) (cells_at reloc_kind a m)) v)"
  by (auto simp: reads_relocations_def list_all2_reads split: prod.splits option.splits)

definition owned_instructions :: "mem \<Rightarrow> outs \<Rightarrow> nat list" where
  "owned_instructions = array_addresses instruction_kind"

definition owned_relocations :: "mem \<Rightarrow> outs \<Rightarrow> nat list" where
  "owned_relocations = array_addresses reloc_kind"

lemma instructions_stay:
  assumes "reads_instructions m o' v" "\<And>x. x \<in> set (owned_instructions m o') \<Longrightarrow> live m' x = live m x"
  shows "owned_instructions m' o' = owned_instructions m o' \<and> reads_instructions m' o' v"
proof -
  obtain a where a: "o' = (Some (Some a), Some (length v))"
      "list_all2 (\<lambda>c v. read_instruction m c = v) (take (length v) (cells_at instruction_kind a m)) v"
    using assms(1) unfolding reads_instructions_iff by blast
  note stay = ins_held.array_stays [OF a(2), of m'] assms(2)
  show ?thesis using stay unfolding reads_instructions_iff by (simp add: a(1) owned_instructions_def)
qed

lemma instructions_freed:
  assumes "reads_instructions m o' v" "allocated m0 (owned_instructions m o' @ as) m"
  shows "allocated m0 as (release_instructions o' m) \<and>
    (\<forall>x. x \<notin> set (owned_instructions m o') \<longrightarrow> live (release_instructions o' m) x = live m x)"
proof -
  obtain a where a: "o' = (Some (Some a), Some (length v))"
      "length (take (length v) (cells_at instruction_kind a m)) = length v"
    using assms(1) unfolding reads_instructions_iff by (blast dest: list_all2_lengthD)
  then show ?thesis
    using ins_held.array_freed [OF a(2)] assms(2)
    by (simp add: release_instructions_def out_value_def free_instructions_def owned_instructions_def)
qed

interpretation instructions_held: owned_output finish_instructions reads_instructions release_instructions owned_instructions
proof
  fix m m' v o'
  show "wf_mem m \<Longrightarrow> finish_instructions v m = (Some o', m') \<Longrightarrow>
      allocated m (owned_instructions m' o') m' \<and> reads_instructions m' o' v"
    using ins_held.array_builds [of m v _ m'] unfolding reads_instructions_iff
    by (auto simp: finish_instructions_def convert_instructions_def owned_instructions_def split: prod.splits option.splits)
  show "wf_mem m \<Longrightarrow> finish_instructions v m = (None, m') \<Longrightarrow> allocated m [] m'"
    using convert_instructions_result [of m v None m'] by (auto simp: finish_instructions_def split: prod.splits option.splits)
qed (use instructions_stay instructions_freed in blast)+

lemma relocations_stay:
  assumes "reads_relocations m o' v" "\<And>x. x \<in> set (owned_relocations m o') \<Longrightarrow> live m' x = live m x"
  shows "owned_relocations m' o' = owned_relocations m o' \<and> reads_relocations m' o' v"
  using assms(1)[unfolded reads_relocations_iff]
proof
  assume "\<exists>a. o' = (Some (Some a), Some (length v)) \<and>
      list_all2 (\<lambda>c v. read_relocation m c = v) (take (length v) (cells_at reloc_kind a m)) v"
  then obtain a where a: "o' = (Some (Some a), Some (length v))"
      "list_all2 (\<lambda>c v. read_relocation m c = v) (take (length v) (cells_at reloc_kind a m)) v" by blast
  note stay = relocations_held.array_stays [OF a(2), of m'] assms(2)
  show ?thesis using stay unfolding reads_relocations_iff by (simp add: a(1) owned_relocations_def)
qed (simp add: reads_relocations_iff owned_relocations_def array_addresses_def out_value_def)

lemma relocations_freed:
  assumes "reads_relocations m o' v" "allocated m0 (owned_relocations m o' @ as) m"
  shows "allocated m0 as (release_relocations o' m) \<and>
    (\<forall>x. x \<notin> set (owned_relocations m o') \<longrightarrow> live (release_relocations o' m) x = live m x)"
  using assms(1)[unfolded reads_relocations_iff]
proof
  assume "\<exists>a. o' = (Some (Some a), Some (length v)) \<and>
      list_all2 (\<lambda>c v. read_relocation m c = v) (take (length v) (cells_at reloc_kind a m)) v"
  then obtain a where a: "o' = (Some (Some a), Some (length v))"
      "length (take (length v) (cells_at reloc_kind a m)) = length v"
    by (blast dest: list_all2_lengthD)
  then show ?thesis
    using relocations_held.array_freed [OF a(2)] assms(2)
    by (simp add: release_relocations_def out_value_def free_relocations_def owned_relocations_def)
qed (use assms(2) in \<open>simp add: release_relocations_def out_value_def free_relocations_def free_array_def
    owned_relocations_def array_addresses_def\<close>)

lemma relocations_built:
  assumes "wf_mem m" "(if v = [] then (None, m) else convert_relocations v m) = (p, m')"
  shows "if v \<noteq> [] \<and> p = None then allocated m [] m'
    else allocated m (owned_relocations m' (Some p, Some (length v))) m' \<and> reads_relocations m' (Some p, Some (length v)) v"
proof (cases "v = []")
  case True
  then show ?thesis
    using assms allocated_refl [OF assms(1)]
    by (simp add: reads_relocations_def owned_relocations_def array_addresses_def out_value_def)
next
  case False
  then have c: "convert_relocations v m = (p, m')" using assms(2) by simp
  then show ?thesis
    using convert_relocations_result [OF assms(1) c] relocations_held.array_builds [OF assms(1), of v _ m'] False
    by (cases p) (auto simp: owned_relocations_def reads_relocations_iff convert_relocations_def)
qed

text \<open>A call with relocations has a first output and the relocations, released last and first.\<close>

context owned_output
begin

lemma pair_stays:
  assumes "reads m (fst o') v" "reads_relocations m (snd o') w"
    and "\<And>x. x \<in> set (owned m (fst o') @ owned_relocations m (snd o')) \<Longrightarrow> live m' x = live m x"
  shows "owned m' (fst o') @ owned_relocations m' (snd o') = owned m (fst o') @ owned_relocations m (snd o') \<and>
    reads m' (fst o') v \<and> reads_relocations m' (snd o') w"
  using stays [OF assms(1), of m'] relocations_stay [OF assms(2), of m'] assms(3) by simp

lemma pair_freed:
  assumes first: "reads m (fst o') v" and last: "reads_relocations m (snd o') w"
    and all: "allocated m0 ((owned m (fst o') @ owned_relocations m (snd o')) @ as) m"
  shows "allocated m0 as (release (fst o') (release_relocations (snd o') m)) \<and>
    (\<forall>x. x \<notin> set (owned m (fst o') @ owned_relocations m (snd o')) \<longrightarrow>
       live (release (fst o') (release_relocations (snd o') m)) x = live m x)"
proof -
  let ?m1 = "release_relocations (snd o') m"
  have "allocated m0 (owned_relocations m (snd o') @ (owned m (fst o') @ as)) m"
    by (rule allocated_cong [OF all]) (simp add: ac_simps)
  note m1 = relocations_freed [OF last this]
  have "live ?m1 x = live m x" if "x \<in> set (owned m (fst o'))" for x
    using m1 that all by (auto simp: allocated_def)
  from stays [OF first this] have keep: "owned ?m1 (fst o') = owned m (fst o')" "reads ?m1 (fst o') v" by auto
  then have "allocated m0 as (release (fst o') ?m1) \<and>
      (\<forall>x. x \<notin> set (owned m (fst o')) \<longrightarrow> live (release (fst o') ?m1) x = live ?m1 x)"
    using frees [OF keep(2), of m0 as] m1 by simp
  then show ?thesis using m1 by simp
qed

end

definition owned_code_relocs :: "mem \<Rightarrow> two_outs \<Rightarrow> nat list" where
  "owned_code_relocs m o' = owned_bytes m (fst o') @ owned_relocations m (snd o')"

definition owned_ins_relocs :: "mem \<Rightarrow> two_outs \<Rightarrow> nat list" where
  "owned_ins_relocs m o' = owned_instructions m (fst o') @ owned_relocations m (snd o')"

interpretation code_relocs_held: owned_output finish_with_relocs reads_code_relocs release_code_relocs owned_code_relocs
proof
  fix m m' m0 o' as and v :: assemble_with_relocs_result
  obtain b m1 where b: "(if wr_bytes v = [] then (None, m) else mem_alloc (C_bytes (wr_bytes v)) m) = (b, m1)" by fastforce
  obtain p m2 where p: "(if wr_relocations v = [] then (None, m1) else convert_relocations (wr_relocations v) m1) = (p, m2)"
    by fastforce
  show "wf_mem m \<Longrightarrow> finish_with_relocs v m = (None, m') \<Longrightarrow> allocated m [] m'"
    using code_relocs_out.finish_result [of m v None m'] by simp
  show "allocated m (owned_code_relocs m' o') m' \<and> reads_code_relocs m' o' v"
    if wf: "wf_mem m" and f: "finish_with_relocs v m = (Some o', m')"
  proof -
    have ok: "wr_bytes v = [] \<or> b \<noteq> None" "wr_relocations v = [] \<or> p \<noteq> None"
      and o': "o' = ((Some b, Some (length (wr_bytes v))), Some p, Some (length (wr_relocations v)))" "m' = m2"
      using f unfolding finish_with_relocs_def Let_def b prod.case p by (auto split: if_splits)
    have first: "allocated m (addresses [b]) m1" "reads_bytes m1 (Some b, Some (length (wr_bytes v))) (wr_bytes v)"
      using b ok(1) mem_alloc_cases [OF wf, of "C_bytes (wr_bytes v)"] allocated_refl [OF wf]
      by (auto simp: bytes_at_def reads_bytes_def split: if_splits option.splits)
    have last: "allocated m1 (owned_relocations m2 (snd o')) m2" "reads_relocations m2 (snd o') (wr_relocations v)"
      using relocations_built [OF allocated_wf [OF first(1)] p] ok(2) by (auto simp: o' split: if_splits)
    have "live m2 x = live m1 x" if "x \<in> set (owned_bytes m1 (fst o'))" for x
      using allocated_keeps [OF last(1)] that first(1) by (auto simp: owned_bytes_def out_value_def o' allocated_def)
    from bytes_held.stays [of m1 "fst o'" "wr_bytes v", OF _ this] first(2)
    have keep: "owned_bytes m2 (fst o') = owned_bytes m1 (fst o')" "reads_bytes m2 (fst o') (wr_bytes v)"
      by (simp_all add: o')
    show ?thesis
      using allocated_trans [OF first(1) last(1)] keep last(2)
      by (simp add: owned_code_relocs_def reads_code_relocs_def o'(2)) (simp add: owned_bytes_def o' out_value_def)
  qed
  show "owned_code_relocs m' o' = owned_code_relocs m o' \<and> reads_code_relocs m' o' v"
    if "reads_code_relocs m o' v" "\<And>x. x \<in> set (owned_code_relocs m o') \<Longrightarrow> live m' x = live m x"
    using bytes_held.pair_stays [of m o' "wr_bytes v" "wr_relocations v" m'] that
    by (simp add: owned_code_relocs_def reads_code_relocs_def)
  show "allocated m0 as (release_code_relocs o' m) \<and>
      (\<forall>x. x \<notin> set (owned_code_relocs m o') \<longrightarrow> live (release_code_relocs o' m) x = live m x)"
    if "reads_code_relocs m o' v" "allocated m0 (owned_code_relocs m o' @ as) m"
    using bytes_held.pair_freed [of m o' "wr_bytes v" "wr_relocations v" m0 as] that
    by (simp add: owned_code_relocs_def reads_code_relocs_def release_code_relocs_def)
qed

interpretation ins_relocs_held: owned_output finish_instructions_with_relocs reads_ins_relocs release_ins_relocs owned_ins_relocs
proof
  fix m m' m0 o' as and v :: instructions_with_relocs_result
  obtain a m1 where a: "convert_instructions (iwr_instructions v) m = (a, m1)" by fastforce
  obtain p m2 where p: "(if iwr_relocations v = [] then (None, m1) else convert_relocations (iwr_relocations v) m1) = (p, m2)"
    by fastforce
  show "wf_mem m \<Longrightarrow> finish_instructions_with_relocs v m = (None, m') \<Longrightarrow> allocated m [] m'"
    using ins_relocs_out.finish_result [of m v None m'] by simp
  show "allocated m (owned_ins_relocs m' o') m' \<and> reads_ins_relocs m' o' v"
    if wf: "wf_mem m" and f: "finish_instructions_with_relocs v m = (Some o', m')"
  proof -
    obtain x where ok: "a = Some x" "iwr_relocations v = [] \<or> p \<noteq> None"
      and o': "o' = ((Some a, Some (length (iwr_instructions v))), Some p, Some (length (iwr_relocations v)))" "m' = m2"
      using f unfolding finish_instructions_with_relocs_def Let_def a prod.case p
      by (cases a) (auto simp: p split: if_splits)
    have "finish_instructions (iwr_instructions v) m = (Some (fst o'), m1)"
      using a ok(1) by (simp add: finish_instructions_def o')
    from instructions_held.builds [OF wf this]
    have first: "allocated m (owned_instructions m1 (fst o')) m1" "reads_instructions m1 (fst o') (iwr_instructions v)"
      by simp_all
    have last: "allocated m1 (owned_relocations m2 (snd o')) m2" "reads_relocations m2 (snd o') (iwr_relocations v)"
      using relocations_built [OF allocated_wf [OF first(1)] p] ok(2) by (auto simp: o' split: if_splits)
    have "live m2 x = live m1 x" if "x \<in> set (owned_instructions m1 (fst o'))" for x
      using allocated_keeps [OF last(1)] that first(1) by (auto simp: allocated_def)
    from instructions_held.stays [OF first(2) this]
    have keep: "owned_instructions m2 (fst o') = owned_instructions m1 (fst o')"
        "reads_instructions m2 (fst o') (iwr_instructions v)" by simp_all
    show ?thesis
      using allocated_trans [OF first(1) last(1)] keep last(2)
      by (simp add: owned_ins_relocs_def reads_ins_relocs_def o'(2))
  qed
  show "owned_ins_relocs m' o' = owned_ins_relocs m o' \<and> reads_ins_relocs m' o' v"
    if "reads_ins_relocs m o' v" "\<And>x. x \<in> set (owned_ins_relocs m o') \<Longrightarrow> live m' x = live m x"
    using instructions_held.pair_stays [of m o' "iwr_instructions v" "iwr_relocations v" m'] that
    by (simp add: owned_ins_relocs_def reads_ins_relocs_def)
  show "allocated m0 as (release_ins_relocs o' m) \<and>
      (\<forall>x. x \<notin> set (owned_ins_relocs m o') \<longrightarrow> live (release_ins_relocs o' m) x = live m x)"
    if "reads_ins_relocs m o' v" "allocated m0 (owned_ins_relocs m o' @ as) m"
    using instructions_held.pair_freed [of m o' "iwr_instructions v" "iwr_relocations v" m0 as] that
    by (simp add: owned_ins_relocs_def reads_ins_relocs_def release_ins_relocs_def)
qed

definition owned_pointer :: "mem \<Rightarrow> ptr option \<Rightarrow> nat list" where
  "owned_pointer m o' = addresses [out_value o']"

interpretation text_held: owned_output finish_text reads_text release_text owned_pointer
proof
  fix m m' m0 v o' as
  show "wf_mem m \<Longrightarrow> finish_text v m = (Some o', m') \<Longrightarrow> allocated m (owned_pointer m' o') m' \<and> reads_text m' o' v"
    "wf_mem m \<Longrightarrow> finish_text v m = (None, m') \<Longrightarrow> allocated m [] m'"
    using dup_cstring_cases [of m v]
    by (auto simp: finish_text_def owned_pointer_def reads_text_def out_value_def split: prod.splits option.splits)
  show "owned_pointer m' o' = owned_pointer m o' \<and> reads_text m' o' v"
    if "reads_text m o' v" "\<And>x. x \<in> set (owned_pointer m o') \<Longrightarrow> live m' x = live m x"
    using that string_at_cong [of "out_value o'" m' m] by (auto simp: reads_text_def owned_pointer_def)
  show "reads_text m o' v \<Longrightarrow> allocated m0 (owned_pointer m o' @ as) m \<Longrightarrow> allocated m0 as (release_text o' m) \<and>
      (\<forall>x. x \<notin> set (owned_pointer m o') \<longrightarrow> live (release_text o' m) x = live m x)"
    using pointer_freed [of m0 "out_value o'" as m]
    by (simp add: owned_pointer_def release_text_def free_string_def)
qed

end
