(* ===== verification/C_Sessions.thy ===== *)
theory C_Sessions
  imports C_Ownership
begin

text \<open>
  A C client of \<^verbatim>\<open>src/src/nyxstone_c.cpp\<close> over time: calls of the entry points in any order,
  each with any arguments and with memory running out anywhere, mixed with the release of results by
  the functions the header names for them. The theory shows that results stay as they are until they
  are released, whatever is called or released in between, and that nothing is lost.
\<close>

subsection \<open>What every entry point does to the heap\<close>

lemma entry_points_own:
  assumes "wf_mem m"
  shows "call_owns reads_bytes owned_bytes m (fst (x_assemble api (take n (the source)) a (to_label_vector labels k) s))
      (fst (nyxstone_assemble api h source n a labels k p1 n1 out_err m s))"
    and "call_owns reads_instructions owned_instructions m
      (fst (x_assemble_to_instructions api (take n (the source)) a (to_label_vector labels k) s))
      (fst (nyxstone_assemble_to_instructions api h source n a labels k p1 n1 out_err m s))"
    and "call_owns reads_code_relocs owned_code_relocs m
      (fst (x_assemble_with_relocs api (take n (the source)) a (to_label_vector labels k) s))
      (fst (nyxstone_assemble_with_relocs api h source n a labels k p1 n1 p2 n2 out_err m s))"
    and "call_owns reads_ins_relocs owned_ins_relocs m
      (fst (x_assemble_to_instructions_with_relocs api (take n (the source)) a (to_label_vector labels k) s))
      (fst (nyxstone_assemble_to_instructions_with_relocs api h source n a labels k p1 n1 p2 n2 out_err m s))"
    and "call_owns reads_text owned_pointer m (fst (x_disassemble api (input_bytes bytes n) a cnt s))
      (fst (nyxstone_disassemble api h bytes n a cnt p1 out_err m s))"
    and "call_owns reads_instructions owned_instructions m
      (fst (x_disassemble_to_instructions api (input_bytes bytes n) a cnt s))
      (fst (nyxstone_disassemble_to_instructions api h bytes n a cnt p1 n1 out_err m s))"
  unfolding nyxstone_assemble_def nyxstone_assemble_to_instructions_def nyxstone_assemble_with_relocs_def
    nyxstone_assemble_to_instructions_with_relocs_def nyxstone_disassemble_def nyxstone_disassemble_to_instructions_def
  by (simp_all add: case_prod_unfold Let_def classify_not_ok report_owns [OF allocated_refl [OF assms]]
      bytes_held.run_try_owns [OF assms] instructions_held.run_try_owns [OF assms]
      code_relocs_held.run_try_owns [OF assms] ins_relocs_held.run_try_owns [OF assms]
      text_held.run_try_owns [OF assms])

subsection \<open>The client\<close>

text \<open>What the client holds: handles, results with the values the C++ calls returned, error strings.\<close>

datatype holding =
    Handle ptr
  | Error_string ptr
  | Bytes outs "byte list"
  | Instructions outs "instruction list"
  | Code_relocs two_outs assemble_with_relocs_result
  | Ins_relocs two_outs instructions_with_relocs_result
  | Text_of "ptr option" string

fun owned_by :: "mem \<Rightarrow> holding \<Rightarrow> nat list" where
  "owned_by m (Handle p) = addresses [p]"
| "owned_by m (Error_string p) = addresses [p]"
| "owned_by m (Bytes o' v) = owned_bytes m o'"
| "owned_by m (Instructions o' v) = owned_instructions m o'"
| "owned_by m (Code_relocs o' v) = owned_code_relocs m o'"
| "owned_by m (Ins_relocs o' v) = owned_ins_relocs m o'"
| "owned_by m (Text_of o' t) = owned_pointer m o'"

text \<open>Reading the result gives the value of the call it came from.\<close>

fun intact :: "mem \<Rightarrow> holding \<Rightarrow> bool" where
  "intact m (Handle p) = (case p of None \<Rightarrow> True | Some a \<Rightarrow> live m a = Some C_handle)"
| "intact m (Error_string p) = True"
| "intact m (Bytes o' v) = reads_bytes m o' v"
| "intact m (Instructions o' v) = reads_instructions m o' v"
| "intact m (Code_relocs o' v) = reads_code_relocs m o' v"
| "intact m (Ins_relocs o' v) = reads_ins_relocs m o' v"
| "intact m (Text_of o' t) = reads_text m o' t"

text \<open>The free functions the header names.\<close>

fun give_back :: "holding \<Rightarrow> mem \<Rightarrow> mem" where
  "give_back (Handle p) = nyxstone_destroy p"
| "give_back (Error_string p) = free_string p"
| "give_back (Bytes o' v) = release_bytes o'"
| "give_back (Instructions o' v) = release_instructions o'"
| "give_back (Code_relocs o' v) = release_code_relocs o'"
| "give_back (Ins_relocs o' v) = release_ins_relocs o'"
| "give_back (Text_of o' t) = release_text o'"

lemma held_stays:
  assumes "intact m h" "\<And>x. x \<in> set (owned_by m h) \<Longrightarrow> live m' x = live m x"
  shows "owned_by m' h = owned_by m h \<and> intact m' h"
proof (cases h)
  case (Handle p)
  then show ?thesis using assms by (cases p) simp_all
next
  case (Bytes o' v)
  then show ?thesis using assms bytes_held.stays [of m o' v m'] by simp
next
  case (Instructions o' v)
  then show ?thesis using assms instructions_held.stays [of m o' v m'] by simp
next
  case (Code_relocs o' v)
  then show ?thesis using assms code_relocs_held.stays [of m o' v m'] by simp
next
  case (Ins_relocs o' v)
  then show ?thesis using assms ins_relocs_held.stays [of m o' v m'] by simp
next
  case (Text_of o' t)
  then show ?thesis using assms text_held.stays [of m o' t m'] by simp
qed simp

lemma held_freed:
  assumes "intact m h" "allocated m0 (owned_by m h @ as) m"
  shows "allocated m0 as (give_back h m) \<and> (\<forall>x. x \<notin> set (owned_by m h) \<longrightarrow> live (give_back h m) x = live m x)"
  using assms bytes_held.frees instructions_held.frees code_relocs_held.frees ins_relocs_held.frees text_held.frees
  by (cases h) (simp_all add: pointer_freed nyxstone_destroy_def free_string_def del: addresses_simps)

definition took :: "('o \<Rightarrow> 'v \<Rightarrow> holding) \<Rightarrow> 'v cxx \<Rightarrow> 'o c_call \<Rightarrow> holding" where
  "took mk r c =
     (if r_status c = NYXSTONE_OK
      then (case r of Returns (Inr v) \<Rightarrow> mk (r_out c) v | _ \<Rightarrow> Error_string None)
      else Error_string (err_ptr (r_err c)))"

text \<open>\<open>m\<close> is the heap of \<open>m0\<close> and what the client holds, which is as it was handed out.\<close>

definition accounts :: "mem \<Rightarrow> mem \<Rightarrow> holding list \<Rightarrow> bool" where
  "accounts m0 m hs \<longleftrightarrow> allocated m0 (concat (map (owned_by m) hs)) m \<and> list_all (intact m) hs"

lemma accounts_grow:
  assumes "accounts m0 m hs" "allocated m (owned_by m' h) m'" "intact m' h"
  shows "accounts m0 m' (h # hs)"
proof -
  have stay: "owned_by m' g = owned_by m g \<and> intact m' g" if "g \<in> set hs" for g
  proof (rule held_stays)
    show "intact m g" using assms(1) that by (simp add: accounts_def list_all_iff)
    fix x assume "x \<in> set (owned_by m g)"
    then have "live m x \<noteq> None" using assms(1) that by (auto simp: accounts_def allocated_def)
    then show "live m' x = live m x" by (rule allocated_keeps [OF assms(2)])
  qed
  have "allocated m0 (concat (map (owned_by m) hs) @ owned_by m' h) m'"
    using assms(1,2) by (auto simp: accounts_def intro: allocated_trans)
  then have "allocated m0 (owned_by m' h @ concat (map (owned_by m) hs)) m'"
    by (rule allocated_cong) simp
  then have "allocated m0 (concat (map (owned_by m') (h # hs))) m'"
    using stay by (simp cong: map_cong)
  then show ?thesis using stay assms(3) by (simp add: accounts_def list_all_iff)
qed

lemma accounts_call:
  assumes "accounts m0 m hs" "call_owns reads owned m r c"
    and "\<And>m o' v. owned_by m (mk o' v) = owned m o'" "\<And>m o' v. intact m (mk o' v) = reads m o' v"
  shows "accounts m0 (r_mem c) (took mk r c # hs)"
  using assms(2,3,4) by (intro accounts_grow [OF assms(1)]) (auto simp: call_owns_def took_def split: if_splits)

lemma accounts_release:
  assumes "accounts m0 m (gs @ h # hs)"
  shows "accounts m0 (give_back h m) (gs @ hs)"
proof -
  have "allocated m0 (owned_by m h @ concat (map (owned_by m) (gs @ hs))) m"
    by (rule allocated_cong [of m0 "concat (map (owned_by m) (gs @ h # hs))"])
      (use assms in \<open>simp_all add: accounts_def ac_simps\<close>)
  moreover have "intact m h" using assms by (simp add: accounts_def)
  ultimately have free: "allocated m0 (concat (map (owned_by m) (gs @ hs))) (give_back h m)"
      "\<And>x. x \<notin> set (owned_by m h) \<Longrightarrow> live (give_back h m) x = live m x"
    and apart: "set (owned_by m h) \<inter> set (concat (map (owned_by m) (gs @ hs))) = {}"
    using held_freed [of m h m0 "concat (map (owned_by m) (gs @ hs))"] by (auto simp: allocated_def)
  have stay: "owned_by (give_back h m) g = owned_by m g \<and> intact (give_back h m) g" if "g \<in> set (gs @ hs)" for g
  proof (rule held_stays)
    show "intact m g" using assms that by (auto simp: accounts_def list_all_iff)
    fix x assume "x \<in> set (owned_by m g)"
    then show "live (give_back h m) x = live m x" using apart that by (intro free(2)) auto
  qed
  then have "allocated m0 (concat (map (owned_by (give_back h m)) (gs @ hs))) (give_back h m)"
    using free(1) by (simp cong: map_cong)
  then show ?thesis using stay by (simp add: accounts_def list_all_iff)
qed

text \<open>The arguments of the calls, any of which may be \<open>NULL\<close>; the last of an action is \<open>out_err\<close>.\<close>

record source_args =
  sa_handle :: ptr
  sa_source :: "string option"
  sa_source_len :: nat
  sa_address :: u64
  sa_labels :: "c_label list option"
  sa_labels_len :: nat

record bytes_args =
  ba_handle :: ptr
  ba_bytes :: "byte list option"
  ba_bytes_len :: nat
  ba_address :: u64
  ba_count :: nat

datatype client_action =
    Call_create "ptr option"
  | Call_assemble source_args outs "ptr option"
  | Call_to_instructions source_args outs "ptr option"
  | Call_with_relocs source_args two_outs "ptr option"
  | Call_to_instructions_with_relocs source_args two_outs "ptr option"
  | Call_disassemble bytes_args "ptr option" "ptr option"
  | Call_disassemble_to_instructions bytes_args outs "ptr option"
  | Give_back nat

definition source_of :: "source_args \<Rightarrow> string" where
  "source_of q = take (sa_source_len q) (the (sa_source q))"

definition labels_of :: "source_args \<Rightarrow> label_definition list" where
  "labels_of q = to_label_vector (sa_labels q) (sa_labels_len q)"

text \<open>The code behind a handle expects it to be live; a client that passes another one is not
  considered, and does nothing here.\<close>

definition usable :: "mem \<Rightarrow> ptr \<Rightarrow> bool" where
  "usable m h \<longleftrightarrow> (case h of None \<Rightarrow> True | Some a \<Rightarrow> live m a = Some C_handle)"

type_synonym 's client_state = "mem \<times> holding list \<times> 's"

definition on_source ::
    "('o \<Rightarrow> 'v \<Rightarrow> holding) \<Rightarrow> (string \<Rightarrow> u64 \<Rightarrow> label_definition list \<Rightarrow> 's \<Rightarrow> 'v cxx \<times> 's) \<Rightarrow>
     (ptr \<Rightarrow> string option \<Rightarrow> nat \<Rightarrow> u64 \<Rightarrow> c_label list option \<Rightarrow> nat \<Rightarrow> mem \<Rightarrow> 's \<Rightarrow> 'o c_call \<times> 's) \<Rightarrow>
     source_args \<Rightarrow> 's client_state \<Rightarrow> 's client_state" where
  "on_source mk f entry q = (\<lambda>(m, hs, s).
     if \<not> usable m (sa_handle q) then (m, hs, s)
     else let (c, s') = entry (sa_handle q) (sa_source q) (sa_source_len q) (sa_address q) (sa_labels q) (sa_labels_len q) m s
          in (r_mem c, took mk (fst (f (source_of q) (sa_address q) (labels_of q) s)) c # hs, s'))"

definition on_bytes ::
    "('o \<Rightarrow> 'v \<Rightarrow> holding) \<Rightarrow> (byte list \<Rightarrow> u64 \<Rightarrow> nat \<Rightarrow> 's \<Rightarrow> 'v cxx \<times> 's) \<Rightarrow>
     (ptr \<Rightarrow> byte list option \<Rightarrow> nat \<Rightarrow> u64 \<Rightarrow> nat \<Rightarrow> mem \<Rightarrow> 's \<Rightarrow> 'o c_call \<times> 's) \<Rightarrow>
     bytes_args \<Rightarrow> 's client_state \<Rightarrow> 's client_state" where
  "on_bytes mk f entry q = (\<lambda>(m, hs, s).
     if \<not> usable m (ba_handle q) then (m, hs, s)
     else let (c, s') = entry (ba_handle q) (ba_bytes q) (ba_bytes_len q) (ba_address q) (ba_count q) m s
          in (r_mem c, took mk (fst (f (input_bytes (ba_bytes q) (ba_bytes_len q)) (ba_address q) (ba_count q) s)) c # hs, s'))"

fun client_act :: "'s cxx_api \<Rightarrow> client_action \<Rightarrow> 's client_state \<Rightarrow> 's client_state" where
  "client_act api (Call_create e) (m, hs, s) =
     (let ((h, e', m'), s') = nyxstone_create api e m s in (m', Handle h # Error_string (err_ptr e') # hs, s'))"
| "client_act api (Call_assemble q (p, n) e) ss =
     on_source Bytes (x_assemble api) (\<lambda>h t l a ls k. nyxstone_assemble api h t l a ls k p n e) q ss"
| "client_act api (Call_to_instructions q (p, n) e) ss =
     on_source Instructions (x_assemble_to_instructions api)
       (\<lambda>h t l a ls k. nyxstone_assemble_to_instructions api h t l a ls k p n e) q ss"
| "client_act api (Call_with_relocs q ((p, n), p2, n2) e) ss =
     on_source Code_relocs (x_assemble_with_relocs api)
       (\<lambda>h t l a ls k. nyxstone_assemble_with_relocs api h t l a ls k p n p2 n2 e) q ss"
| "client_act api (Call_to_instructions_with_relocs q ((p, n), p2, n2) e) ss =
     on_source Ins_relocs (x_assemble_to_instructions_with_relocs api)
       (\<lambda>h t l a ls k. nyxstone_assemble_to_instructions_with_relocs api h t l a ls k p n p2 n2 e) q ss"
| "client_act api (Call_disassemble q p e) ss =
     on_bytes Text_of (x_disassemble api) (\<lambda>h b l a c. nyxstone_disassemble api h b l a c p e) q ss"
| "client_act api (Call_disassemble_to_instructions q (p, n) e) ss =
     on_bytes Instructions (x_disassemble_to_instructions api)
       (\<lambda>h b l a c. nyxstone_disassemble_to_instructions api h b l a c p n e) q ss"
| "client_act api (Give_back i) (m, hs, s) =
     (if i < length hs then (give_back (hs ! i) m, take i hs @ drop (Suc i) hs, s) else (m, hs, s))"

definition accounted :: "mem \<Rightarrow> 's client_state \<Rightarrow> bool" where
  "accounted m0 ss \<longleftrightarrow> accounts m0 (fst ss) (fst (snd ss))"

lemma accounts_wf: "accounts m0 m hs \<Longrightarrow> wf_mem m"
  by (simp add: accounts_def allocated_def)

lemma on_source_accounted:
  assumes "accounted m0 ss"
    and "\<And>m s. wf_mem m \<Longrightarrow> call_owns reads owned m (fst (f (source_of q) (sa_address q) (labels_of q) s))
      (fst (entry (sa_handle q) (sa_source q) (sa_source_len q) (sa_address q) (sa_labels q) (sa_labels_len q) m s))"
    and "\<And>m o' v. owned_by m (mk o' v) = owned m o'" "\<And>m o' v. intact m (mk o' v) = reads m o' v"
  shows "accounted m0 (on_source mk f entry q ss)"
proof -
  obtain m hs s where ss: "ss = (m, hs, s)" by (metis prod.collapse)
  have acc: "accounts m0 m hs" using assms(1) by (simp add: accounted_def ss)
  show ?thesis
    using accounts_call [OF acc assms(2) [OF accounts_wf [OF acc]], of mk s] assms(3,4) acc
    by (auto simp: on_source_def ss accounted_def case_prod_unfold Let_def)
qed

lemma on_bytes_accounted:
  assumes "accounted m0 ss"
    and "\<And>m s. wf_mem m \<Longrightarrow> call_owns reads owned m
      (fst (f (input_bytes (ba_bytes q) (ba_bytes_len q)) (ba_address q) (ba_count q) s))
      (fst (entry (ba_handle q) (ba_bytes q) (ba_bytes_len q) (ba_address q) (ba_count q) m s))"
    and "\<And>m o' v. owned_by m (mk o' v) = owned m o'" "\<And>m o' v. intact m (mk o' v) = reads m o' v"
  shows "accounted m0 (on_bytes mk f entry q ss)"
proof -
  obtain m hs s where ss: "ss = (m, hs, s)" by (metis prod.collapse)
  have acc: "accounts m0 m hs" using assms(1) by (simp add: accounted_def ss)
  show ?thesis
    using accounts_call [OF acc assms(2) [OF accounts_wf [OF acc]], of mk s] assms(3,4) acc
    by (auto simp: on_bytes_def ss accounted_def case_prod_unfold Let_def)
qed

lemma created:
  assumes "accounts m0 m hs" "nyxstone_create api e m s = ((h, e', m'), s')"
  shows "accounts m0 m' (Handle h # Error_string (err_ptr e') # hs)"
proof -
  note wf = accounts_wf [OF assms(1)]
  have fail: "accounts m0 m3 (Error_string (err_ptr e3) # hs)"
    if "allocated m [] m2" "set_err (clear_err e) msg m2 = (e3, m3)" for msg m2 e3 m3
  proof -
    have "call_owns (\<lambda>_ _ _. True) (\<lambda>_ _. []) m (Throws None) (report NYXSTONE_ERR_ALLOC msg () (clear_err e) m2)"
      by (rule report_owns [OF that(1)]) simp
    then have "allocated m (addresses [err_ptr e3]) m3"
      by (simp add: call_owns_def report_def that(2))
    then show ?thesis by (intro accounts_grow [OF assms(1)]) simp_all
  qed
  have none: "accounts m0 m' (Handle None # Error_string (err_ptr e') # hs)"
    if "accounts m0 m' (Error_string (err_ptr e') # hs)"
    using that by (simp add: accounts_def)
  obtain r s1 where r: "x_create api s = (r, s1)" by fastforce
  consider what where "r = Throws what" | msg where "r = Returns (Inl msg)" | "r = Returns (Inr ())"
    by (cases r) (auto split: sum.splits, metis sum.exhaust old.unit.exhaust)
  then show ?thesis
  proof cases
    case 3
    note alloc = mem_alloc_cases [OF wf, of C_handle]
    obtain p m1 where p: "mem_alloc C_handle m = (p, m1)" by fastforce
    show ?thesis
    proof (cases p)
      case None
      then show ?thesis
        using assms(2) fail [of m1 kErrAlloc e' m'] none alloc
        by (auto simp: nyxstone_create_def r 3 p Let_def split: prod.splits)
    next
      case (Some a)
      then have "allocated m (owned_by m1 (Handle p)) m1" "intact m1 (Handle p)" using alloc p by simp_all
      from accounts_grow [OF assms(1) this] have acc: "accounts m0 m1 (Handle p # hs)" .
      have "err_ptr (clear_err e) = None" by (cases e) (simp_all add: err_ptr_def clear_err_def)
      then show ?thesis
        using assms(2) acc Some by (simp add: nyxstone_create_def r 3 p Let_def accounts_def)
    qed
  qed (use assms(2) fail [OF allocated_refl [OF wf]] none in
      \<open>auto simp: nyxstone_create_def r Let_def split: prod.splits\<close>)
qed

lemma action_accounted:
  assumes "accounted m0 ss"
  shows "accounted m0 (client_act api act ss)"
proof -
  obtain m hs s where ss: "ss = (m, hs, s)" by (metis prod.collapse)
  show ?thesis
  proof (cases act)
    case (Call_create e)
    then show ?thesis
      using assms created [of m0 m hs api e s] by (auto simp: ss accounted_def split: prod.splits)
  next
    case (Call_assemble q o' e)
    then show ?thesis
      by (cases o') (auto simp: source_of_def labels_of_def
          intro!: on_source_accounted [OF assms, of reads_bytes owned_bytes] entry_points_own(1))
  next
    case (Call_to_instructions q o' e)
    then show ?thesis
      by (cases o') (auto simp: source_of_def labels_of_def
          intro!: on_source_accounted [OF assms, of reads_instructions owned_instructions] entry_points_own(2))
  next
    case (Call_with_relocs q o' e)
    then show ?thesis
      by (cases o'; cases "fst o'") (auto simp: source_of_def labels_of_def
          intro!: on_source_accounted [OF assms, of reads_code_relocs owned_code_relocs] entry_points_own(3))
  next
    case (Call_to_instructions_with_relocs q o' e)
    then show ?thesis
      by (cases o'; cases "fst o'") (auto simp: source_of_def labels_of_def
          intro!: on_source_accounted [OF assms, of reads_ins_relocs owned_ins_relocs] entry_points_own(4))
  next
    case (Call_disassemble q p e)
    then show ?thesis
      by (auto intro!: on_bytes_accounted [OF assms, of reads_text owned_pointer] entry_points_own(5))
  next
    case (Call_disassemble_to_instructions q o' e)
    then show ?thesis
      by (cases o') (auto intro!: on_bytes_accounted [OF assms, of reads_instructions owned_instructions] entry_points_own(6))
  next
    case (Give_back i)
    have "accounts m0 (give_back (hs ! i) m) (take i hs @ drop (Suc i) hs)" if "i < length hs"
      using accounts_release [of m0 m "take i hs" "hs ! i" "drop (Suc i) hs"] assms that
      by (simp add: id_take_nth_drop [symmetric] accounted_def ss)
    then show ?thesis using assms Give_back by (simp add: ss accounted_def)
  qed
qed

lemma give_back_all: "accounts m0 m hs \<Longrightarrow> allocated m0 [] (fold give_back hs m)"
proof (induction hs arbitrary: m)
  case (Cons h hs)
  then show ?case using accounts_release [of m0 m "[]" h hs] by simp
qed (simp add: accounts_def)

text \<open>C5. Whatever a client does, in whatever order and wherever memory runs out: each result it holds
  still reads as the value of the call that made it, nothing was freed that was not live, and when it
  has given back everything it holds the heap is what it was before.\<close>

theorem client_sessions_balanced:
  assumes "wf_mem m0" "fold (client_act api) acts (m0, [], s0) = (m, hs, s)"
  shows "list_all (intact m) hs \<and> wild_free m = wild_free m0 \<and>
    live (fold give_back hs m) = live m0 \<and> wild_free (fold give_back hs m) = wild_free m0"
proof -
  have "accounted m0 (m0, [], s0)" using assms(1) by (simp add: accounted_def accounts_def allocated_refl)
  then have "accounted m0 (fold (client_act api) acts (m0, [], s0))"
    by (induction acts rule: rev_induct) (simp_all add: action_accounted)
  then have acc: "accounts m0 m hs" by (simp add: assms(2) accounted_def)
  have all: "allocated m0 [] (fold give_back hs m)" by (rule give_back_all [OF acc])
  have "wild_free (fold give_back hs m) = wild_free m0" using all by (simp add: allocated_def)
  moreover have "wild_free m = wild_free m0" using acc by (simp add: accounts_def allocated_def)
  ultimately show ?thesis using acc allocated_Nil [OF all] by (simp add: accounts_def)
qed

text \<open>A handle, an assembled buffer, an array of instructions whose third allocation fails, a text; the
  buffer is given back before the text is made.\<close>

definition sample_source :: source_args where
  "sample_source = \<lparr>sa_handle = Some 1, sa_source = Some ''nop'', sa_source_len = 3, sa_address = 0,
     sa_labels = None, sa_labels_len = 0\<rparr>"

definition sample_actions :: "client_action list" where
  "sample_actions = [Call_create None, Call_assemble sample_source (Some None, Some 0) None,
     Call_to_instructions sample_source (Some None, Some 0) (Some None), Give_back 1,
     Call_disassemble \<lparr>ba_handle = Some 1, ba_bytes = Some [0, 0], ba_bytes_len = 2, ba_address = 0, ba_count = 0\<rparr> (Some None) None]"

theorem client_sessions_balanced_witness:
  "let (m, hs, s) = fold (client_act sample_cxx) sample_actions (empty_mem (\<lambda>n. n \<noteq> 3), [], ())
   in hs = [Text_of (Some (Some 5)) ''nop'', Error_string (Some 4), Handle (Some 1), Error_string None] \<and>
      list_all (intact m) hs \<and> live (fold give_back hs m) = live (empty_mem (\<lambda>n. n \<noteq> 3))"
proof -
  obtain m hs s where run: "fold (client_act sample_cxx) sample_actions (empty_mem (\<lambda>n. n \<noteq> 3), [], ()) = (m, hs, s)"
    by (metis prod.collapse)
  have "fst (snd (fold (client_act sample_cxx) sample_actions (empty_mem (\<lambda>n. n \<noteq> 3), [], ())))
      = [Text_of (Some (Some 5)) ''nop'', Error_string (Some 4), Handle (Some 1), Error_string None]"
    by code_simp
  then have "hs = [Text_of (Some (Some 5)) ''nop'', Error_string (Some 4), Handle (Some 1), Error_string None]"
    by (simp add: run)
  then show ?thesis using client_sessions_balanced [OF empty_mem_wf run] by (simp add: run)
qed

end
