(* ===== verification/Disasm_Properties.thy ===== *)
theory Disasm_Properties
  imports Disasm Scanner
begin

text \<open>
  What \<open>do_disassemble\<close> promises: the instructions tile the input, disassembly always returns and,
  with a decoder that never fails, decodes every byte; the text form has one line per instruction.
\<close>

subsection \<open>The instructions tile the input\<close>

text \<open>Instructions, one behind the other, at consecutive addresses from \<open>a\<close>, whose bytes make up
  the whole list.\<close>

fun tiles :: "u64 \<Rightarrow> byte list \<Rightarrow> instruction list \<Rightarrow> bool" where
  "tiles a bs [] \<longleftrightarrow> bs = []"
| "tiles a bs (i # rest) \<longleftrightarrow>
     ins_address i = a \<and> ins_bytes i \<noteq> [] \<and>
     (\<exists>tl. bs = ins_bytes i @ tl \<and> tiles (a + of_nat (length (ins_bytes i))) tl rest)"

lemma tiles_bytes: "tiles a bs insns \<Longrightarrow> concat (map ins_bytes insns) = bs"
  by (induction a bs insns rule: tiles.induct) auto

lemma tiles_snoc:
  "tiles a bs insns \<Longrightarrow> ins_address i = a + of_nat (length bs) \<Longrightarrow> ins_bytes i \<noteq> [] \<Longrightarrow>
    tiles a (bs @ ins_bytes i) (insns @ [i])"
  by (induction a bs insns rule: tiles.induct) (auto simp: algebra_simps)

lemma loop_tiles:
  "disassemble_loop one bytes address count off decoded out d = Some (Inr v, d') \<Longrightarrow>
    off \<le> length bytes \<Longrightarrow> tiles address (take off bytes) out \<Longrightarrow> length out = decoded \<Longrightarrow>
    (count = 0 \<or> decoded \<le> count) \<Longrightarrow>
    \<exists>k \<le> length bytes. tiles address (take k bytes) v \<and>
      (if count = 0 then k = length bytes else length v \<le> count \<and> (length v = count \<or> k = length bytes))"
proof (induction one bytes address count off decoded out d rule: disassemble_loop.induct)
  case (1 one bytes address count off decoded out d)
  show ?case
  proof (cases "off < length bytes \<and> (count = 0 \<or> decoded < count)")
    case True
    obtain rc t n d1 where one: "one (Some (drop off bytes)) (address + of_nat off) d = Some (rc, t, n, d1)"
      and ok: "\<not> (rc \<le> 0 \<or> n = 0)" "\<not> length bytes < off + n"
      and rec: "disassemble_loop one bytes address count (off + n) (Suc decoded)
        (out @ [\<lparr>ins_address = address + of_nat off,
                 ins_assembly = (case t of Some t \<Rightarrow> t | None \<Rightarrow> []),
                 ins_bytes = take n (drop off bytes)\<rparr>]) d1 = Some (Inr v, d')"
      using 1(2) True
      by (subst (asm) disassemble_loop.simps) (auto split: option.splits if_splits)
    note IH = 1(1) [OF True one refl refl refl ok rec]
    have "take n (drop off bytes) \<noteq> []" using True ok by auto
    then have "tiles address (take off bytes @ take n (drop off bytes))
        (out @ [\<lparr>ins_address = address + of_nat off,
                 ins_assembly = (case t of Some t \<Rightarrow> t | None \<Rightarrow> []), ins_bytes = take n (drop off bytes)\<rparr>])"
      using tiles_snoc [OF 1(4), of "\<lparr>ins_address = address + of_nat off,
                 ins_assembly = (case t of Some t \<Rightarrow> t | None \<Rightarrow> []), ins_bytes = take n (drop off bytes)\<rparr>"] True
      by (simp add: min_def)
    moreover have "count = 0 \<or> Suc decoded \<le> count" using True by auto
    ultimately show ?thesis using IH ok 1(5) by (simp add: take_add)
  next
    case False
    then have "v = out" using 1(2) by (subst (asm) disassemble_loop.simps) auto
    then show ?thesis using False 1(3-6) by (intro exI [of _ off]) auto
  qed
qed

text \<open>C12. Whatever the decoder does: when disassembly succeeds, the instructions lie one behind
  the other from the start address, each with at least one byte and with exactly the bytes of the
  input it was decoded from. Without a limit they cover the input; with a limit there are at most
  that many, and fewer only if the input is used up.\<close>

theorem disassembly_tiles:
  assumes "do_disassemble one bytes address count d = Some (Inr insns, d')"
  shows "tiles address (take (length (concat (map ins_bytes insns))) bytes) insns \<and>
    (if count = 0 then concat (map ins_bytes insns) = bytes
     else length insns \<le> count \<and> (length insns = count \<or> concat (map ins_bytes insns) = bytes))"
proof -
  obtain k where k: "k \<le> length bytes" "tiles address (take k bytes) insns"
    "if count = 0 then k = length bytes
     else length insns \<le> count \<and> (length insns = count \<or> k = length bytes)"
    using loop_tiles [of one bytes address count 0 0 "[]" d insns d'] assms
    by (auto simp: do_disassemble_def)
  then have "concat (map ins_bytes insns) = take k bytes" by (simp add: tiles_bytes)
  then show ?thesis using k by (auto split: if_splits)
qed

lemma branch_insns:
  "do_disassemble (disasm_one branch_dis) [0x3c, 1, 0x3c, 2, 9] 0x1002 2 5 = Some (Inr
     [\<lparr>ins_address = 0x1002, ins_assembly = ''j 0x1000'', ins_bytes = [0x3c, 1]\<rparr>,
      \<lparr>ins_address = 0x1004, ins_assembly = ''j 0x1002'', ins_bytes = [0x3c, 2]\<rparr>], 7)"
proof -
  have digits: "digit_char 0 = CHR ''0''" "digit_char (Suc 0) = CHR ''1''" "digit_char 2 = CHR ''2''" by code_simp+
  have words: "concat (map shown [Styled 0 ''j'', Print '' '', Print_address 0x1000]) = ''j 0x1000''"
    "concat (map shown [Styled 0 ''j'', Print '' '', Print_address 0x1002]) = ''j 0x1002''"
    by (simp_all add: address_text_def hex_def numeral_string.simps digits)
  have strip: "strip_addr_annotation ''j 0x1000'' = ''j 0x1000''" "strip_addr_annotation ''j 0x1002'' = ''j 0x1002''"
    by code_simp+
  have ev: "print_insn branch_dis [0x3c, 1, 0x3c, 2, 9] 0x1002 5 = (2, [Styled 0 ''j'', Print '' '', Print_address 0x1000], 6)"
    "print_insn branch_dis [0x3c, 2, 9] 0x1004 6 = (2, [Styled 0 ''j'', Print '' '', Print_address 0x1002], 7)"
    by (simp_all add: branch_dis_def)
  have one: "disasm_one branch_dis (Some [0x3c, 1, 0x3c, 2, 9]) 0x1002 5 = Some (2, Some ''j 0x1000'', 2, 6)"
    "disasm_one branch_dis (Some [0x3c, 2, 9]) 0x1004 6 = Some (2, Some ''j 0x1002'', 2, 7)"
    using disasm_one_result [OF branch_dis_decodes(1) ev(1)] disasm_one_result [OF branch_dis_decodes(1) ev(2)]
    unfolding words strip by simp_all
  show ?thesis
    by (simp add: do_disassemble_def disassemble_loop.simps one)
qed

theorem disassembly_tiles_witness:
  "\<exists>insns d'. do_disassemble (disasm_one branch_dis) [0x3c, 1, 0x3c, 2, 9] 0x1002 2 5 = Some (Inr insns, d') \<and>
     tiles 0x1002 [0x3c, 1, 0x3c, 2] insns"
  using disassembly_tiles [OF branch_insns] branch_insns by auto

subsection \<open>Disassembly returns\<close>

text \<open>C17. When memory suffices and libopcodes stays inside the bytes it was given, disassembly of
  any input returns: with instructions, or with an error that names the offset at which the
  decoder gave up. With a decoder that turns undecodable bytes into data it never fails: every
  byte is disassembled.\<close>

theorem disassembly_returns:
  assumes "stays_inside p"
  shows "\<exists>r d'. do_disassemble (disasm_one p) bytes address count d = Some (r, d') \<and>
    (case r of
       Inl msg \<Rightarrow> \<not> decodes_all p \<and> (\<exists>off. stops_at (disasm_one p) bytes address 0 off \<and> msg = decode_failure off)
     | Inr insns \<Rightarrow> count = 0 \<longrightarrow> concat (map ins_bytes insns) = bytes)"
proof -
  obtain r d' where r: "do_disassemble (disasm_one p) bytes address count d = Some (r, d')"
    "\<forall>msg. r = Inl msg \<longrightarrow> (\<exists>off. stops_at (disasm_one p) bytes address 0 off \<and> msg = decode_failure off)"
    using dis.loop_returns [OF assms] unfolding do_disassemble_def by blast
  show ?thesis
  proof (cases r)
    case (Inl msg)
    then have "\<not> decodes_all p"
      using r(1) dis.loop_succeeds [of p bytes address count 0 0 "[]" d] by (auto simp: do_disassemble_def)
    then show ?thesis using r Inl by simp
  next
    case (Inr insns)
    obtain k where "k \<le> length bytes" "tiles address (take k bytes) insns" "count = 0 \<longrightarrow> k = length bytes"
      using loop_tiles [of "disasm_one p" bytes address count 0 0 "[]" d insns d'] r(1) Inr
      by (auto simp: do_disassemble_def split: if_splits)
    then show ?thesis using r Inr by (auto dest: tiles_bytes)
  qed
qed

theorem disassembly_returns_witness:
  "\<exists>insns d'. do_disassemble (disasm_one branch_dis) [0x3c, 1, 2] 0 0 0 = Some (Inr insns, d') \<and>
     concat (map ins_bytes insns) = [0x3c, 1, 2]"
proof -
  obtain r d' where r: "do_disassemble (disasm_one branch_dis) [0x3c, 1, 2] 0 0 0 = Some (r, d')"
    "case r of Inl msg \<Rightarrow> \<not> decodes_all branch_dis \<and>
        (\<exists>off. stops_at (disasm_one branch_dis) [0x3c, 1, 2] 0 0 off \<and> msg = decode_failure off)
      | Inr insns \<Rightarrow> (0::nat) = 0 \<longrightarrow> concat (map ins_bytes insns) = [0x3c, 1, 2]"
    using disassembly_returns [OF branch_dis_decodes(2), of "[0x3c, 1, 2]" 0 0 0] by blast
  then show ?thesis using branch_dis_decodes(3) by (cases r) auto
qed

subsection \<open>The text form\<close>

lemma fold_lines: "fold (\<lambda>i out. out @ ins_assembly i @ [NEWLINE]) v acc
    = acc @ concat (map (\<lambda>i. ins_assembly i @ [NEWLINE]) v)"
  by (induction v arbitrary: acc) simp_all

lemma getlines_line:
  "NEWLINE \<notin> set l \<Longrightarrow> getlines cur (l @ NEWLINE # s) = (cur @ l) # getlines [] s"
  by (induction l arbitrary: cur) auto

lemma getlines_lines:
  "list_all (\<lambda>i. NEWLINE \<notin> set (ins_assembly i)) v \<Longrightarrow>
    getlines [] (concat (map (\<lambda>i. ins_assembly i @ [NEWLINE]) v)) = map ins_assembly v"
  by (induction v) (simp_all add: getlines_line)

text \<open>The text form is the instruction form, one line per instruction: reading it back line by
  line gives the texts of the instructions, in order, and an error is passed on unchanged.\<close>

theorem disassemble_line_per_instruction:
  assumes "do_disassemble one bytes address count d = Some (Inr insns, d')"
    and "list_all (\<lambda>i. NEWLINE \<notin> set (ins_assembly i)) insns"
  shows "\<exists>out. disassemble one bytes address count d = Some (Inr out, d') \<and>
    getlines [] out = map ins_assembly insns"
  using assms by (simp add: disassemble_def fold_lines getlines_lines)

theorem disassemble_line_per_instruction_witness:
  "\<exists>out d'. disassemble (disasm_one branch_dis) [0x3c, 1, 0x3c, 2, 9] 0x1002 2 5 = Some (Inr out, d') \<and>
     getlines [] out = [''j 0x1000'', ''j 0x1002'']"
  using disassemble_line_per_instruction [OF branch_insns] by auto

end
