(* ===== verification/Api.thy ===== *)
theory Api
  imports Assemble_Gas Disasm_Properties
begin

text \<open>
  The public entry points of \<^verbatim>\<open>src/src/nyxstone.cpp\<close> that need both halves of the
  program, assembler and disassembler, and the one-time initialisation
  (\<open>nyxstone_glue_init_once\<close> of \<^verbatim>\<open>src/src/nyxstone_glue.c\<close>) behind \<open>create\<close>.
\<close>

subsection \<open>Initialisation\<close>

text \<open>The calls into gas and bfd that cannot fail, by name.\<close>

datatype init_step =
    Obstack_begin_notes | Symbol_begin | Frag_init | Subsegs_begin | Read_begin | Expr_begin
  | Bfd_make_writable | Bfd_set_format_object | Bfd_set_arch_tricore
  | Subseg_new string | Subseg_new_abs | Subseg_new_und | Subseg_set_text
  | Md_parse_option char string | Md_begin

record 'x init_ops =
  i_bfd_init :: "'x \<Rightarrow> bool \<times> 'x"
  i_find_target :: "string \<Rightarrow> 'x \<Rightarrow> bool \<times> 'x"
  i_bfd_create :: "string \<Rightarrow> 'x \<Rightarrow> bool \<times> 'x"
  i_step :: "init_step \<Rightarrow> 'x \<Rightarrow> 'x"

record 'x process_state =
  g_initialized :: bool
  gas_state :: 'x

definition early_steps :: "init_step list" where
  "early_steps = [Obstack_begin_notes, Symbol_begin, Frag_init, Subsegs_begin, Read_begin, Expr_begin]"

definition late_steps :: "init_step list" where
  "late_steps = [Bfd_make_writable, Bfd_set_format_object, Bfd_set_arch_tricore,
     Subseg_new ''.text'', Subseg_new ''.data'', Subseg_new ''.bss'', Subseg_new_abs, Subseg_new_und,
     Subseg_new ''*reg*'', Subseg_new ''*expr*'', Subseg_set_text, Md_parse_option CHR ''m'' ''tc162'', Md_begin]"

definition init_once :: "'x init_ops \<Rightarrow> 'x process_state \<Rightarrow> int \<times> 'x process_state" where
  "init_once ops p =
     (if g_initialized p then (0, p)
      else let (ok1, x1) = i_bfd_init ops (gas_state p) in
        if \<not> ok1 then (1, p\<lparr>gas_state := x1\<rparr>)
        else let x2 = fold (i_step ops) early_steps x1; (ok2, x3) = i_find_target ops ''elf32-tricore'' x2 in
          if \<not> ok2 then (2, p\<lparr>gas_state := x3\<rparr>)
          else let (ok3, x4) = i_bfd_create ops ''nyxstone-tricore'' x3 in
            if \<not> ok3 then (2, p\<lparr>gas_state := x4\<rparr>)
            else (0, \<lparr>g_initialized = True, gas_state = fold (i_step ops) late_steps x4\<rparr>))"

definition create :: "'x init_ops \<Rightarrow> 'x process_state \<Rightarrow> (string + unit) \<times> 'x process_state" where
  "create ops p =
     (let (rc, p') = init_once ops p
      in (if rc \<noteq> 0 then Inl ''NyxstoneTricoreGCC::create: libbfd init or elf32-tricore target lookup failed''
          else Inr (), p'))"

text \<open>Initialisation happens once: a later \<open>create\<close> succeeds and touches nothing. A failed one is
  not remembered as done, so it is tried again from the start.\<close>

lemma init_once_idem: "fst (init_once ops p) = 0 \<Longrightarrow> init_once ops (snd (init_once ops p)) = (0, snd (init_once ops p))"
  by (auto simp: init_once_def Let_def case_prod_unfold)

lemma init_once_flag: "g_initialized (snd (init_once ops p)) \<longleftrightarrow> fst (init_once ops p) = 0"
  by (auto simp: init_once_def Let_def case_prod_unfold)

lemma create_again:
  "fst (create ops p) = Inr () \<Longrightarrow> create ops (snd (create ops p)) = (Inr (), snd (create ops p))"
  using init_once_idem [of ops p] by (auto simp: create_def Let_def case_prod_unfold split: if_splits)

subsection \<open>Assembling to instructions\<close>

definition assemble_to_instructions ::
    "'g glue \<Rightarrow> 'd decoder \<Rightarrow> string \<Rightarrow> u64 \<Rightarrow> label_definition list \<Rightarrow> 'g driver \<Rightarrow> 'd
      \<Rightarrow> ((string + instruction list) \<times> 'g driver \<times> 'd) option" where
  "assemble_to_instructions gl one source address labels st d =
     (case do_assemble gl source address labels False st of
        (Inl msg, st') \<Rightarrow> Some (Inl msg, st', d)
      | (Inr r, st') \<Rightarrow>
          (case do_disassemble one (core_bytes r) address 0 d of
             None \<Rightarrow> None
           | Some (v, d') \<Rightarrow> Some (v, st', d')))"

definition assemble_to_instructions_with_relocs ::
    "'g glue \<Rightarrow> 'd decoder \<Rightarrow> string \<Rightarrow> u64 \<Rightarrow> label_definition list \<Rightarrow> 'g driver \<Rightarrow> 'd
      \<Rightarrow> ((string + instructions_with_relocs_result) \<times> 'g driver \<times> 'd) option" where
  "assemble_to_instructions_with_relocs gl one source address labels st d =
     (case do_assemble gl source address labels True st of
        (Inl msg, st') \<Rightarrow> Some (Inl msg, st', d)
      | (Inr r, st') \<Rightarrow>
          (case do_disassemble one (core_bytes r) address 0 d of
             None \<Rightarrow> None
           | Some (Inl msg, d') \<Rightarrow> Some (Inl msg, st', d')
           | Some (Inr insns, d') \<Rightarrow>
               Some (Inr \<lparr>iwr_instructions = insns, iwr_relocations = core_relocations r\<rparr>, st', d')))"

lemma disassembled_whole:
  assumes "do_disassemble one bytes address 0 d = Some (Inr insns, d')"
  shows "tiles address bytes insns"
  using loop_tiles [of one bytes address 0 0 0 "[]" d insns d'] assms by (auto simp: do_disassemble_def)

text \<open>C15. The instruction forms are views of the byte forms: when they succeed, so do \<open>assemble\<close> and
  \<open>assemble_with_relocs\<close> on the same source, with the same relocations, and the instructions lie
  one behind the other from the given address and make up exactly those bytes.\<close>

theorem instructions_are_bytes:
  assumes "assemble_to_instructions gl one source address labels st d = Some (Inr insns, st1, d1)"
    and "assemble_to_instructions_with_relocs gl one source address labels st d = Some (Inr res, st2, d2)"
  shows "(\<exists>bytes. assemble gl source address labels st = (Inr bytes, st1) \<and> tiles address bytes insns) \<and>
    (\<exists>bytes. assemble_with_relocs gl source address labels st
        = (Inr \<lparr>wr_bytes = bytes, wr_relocations = iwr_relocations res\<rparr>, st2) \<and>
       tiles address bytes (iwr_instructions res))"
proof -
  obtain r1 where r1: "do_assemble gl source address labels False st = (Inr r1, st1)"
    "do_disassemble one (core_bytes r1) address 0 d = Some (Inr insns, d1)"
    using assms(1) by (auto simp: assemble_to_instructions_def split: prod.splits sum.splits option.splits)
  obtain r2 where r2: "do_assemble gl source address labels True st = (Inr r2, st2)"
    "do_disassemble one (core_bytes r2) address 0 d = Some (Inr (iwr_instructions res), d2)"
    "iwr_relocations res = core_relocations r2"
    using assms(2)
    by (auto simp: assemble_to_instructions_with_relocs_def split: prod.splits sum.splits option.splits)
  show ?thesis
    using disassembled_whole [OF r1(2)] disassembled_whole [OF r2(2)]
    by (simp add: assemble_def assemble_with_relocs_def r1(1) r2(1,3))
qed

lemma sample_local_relocs:
  "fst (do_assemble (gas_glue sample_api) ''j local'' 0x1000 [] True (fresh branch_section))
     = Inr \<lparr>core_bytes = [0x1d, 0, 4, 0, 9, 9, 9, 9], core_relocations = []\<rparr>"
  by code_simp

theorem instructions_are_bytes_witness:
  "\<exists>insns. tiles 0x1000 [0x1d, 0, 4, 0, 9, 9, 9, 9] insns \<and>
     fst (assemble (gas_glue sample_api) ''j local'' 0x1000 [] (fresh branch_section)) = Inr [0x1d, 0, 4, 0, 9, 9, 9, 9]"
proof -
  obtain insns d' where dis: "do_disassemble (disasm_one branch_dis) [0x1d, 0, 4, 0, 9, 9, 9, 9] 0x1000 0 0 = Some (Inr insns, d')"
    using dis.loop_succeeds [OF branch_dis_decodes(3)] unfolding do_disassemble_def by blast
  obtain st1 where st1: "do_assemble (gas_glue sample_api) ''j local'' 0x1000 [] False (fresh branch_section)
      = (Inr \<lparr>core_bytes = [0x1d, 0, 4, 0, 9, 9, 9, 9], core_relocations = []\<rparr>, st1)"
    using sample_local by (metis prod.collapse)
  obtain st2 where st2: "do_assemble (gas_glue sample_api) ''j local'' 0x1000 [] True (fresh branch_section)
      = (Inr \<lparr>core_bytes = [0x1d, 0, 4, 0, 9, 9, 9, 9], core_relocations = []\<rparr>, st2)"
    using sample_local_relocs by (metis prod.collapse)
  have "assemble_to_instructions (gas_glue sample_api) (disasm_one branch_dis) ''j local'' 0x1000 [] (fresh branch_section) 0
      = Some (Inr insns, st1, d')"
    using st1 dis by (simp add: assemble_to_instructions_def)
  moreover have "assemble_to_instructions_with_relocs (gas_glue sample_api) (disasm_one branch_dis) ''j local'' 0x1000 []
      (fresh branch_section) 0 = Some (Inr \<lparr>iwr_instructions = insns, iwr_relocations = []\<rparr>, st2, d')"
    using st2 dis by (simp add: assemble_to_instructions_with_relocs_def)
  ultimately show ?thesis
    using instructions_are_bytes st1 by (fastforce simp: assemble_def)
qed

end
