(* ===== verification/C_Library.thy ===== *)
theory C_Library
  imports C_Stack C_Sessions Api Data_Text
begin

text \<open>
  The library as a whole: the seven functions of the C++ class in \<^verbatim>\<open>src/src/nyxstone.cpp\<close>
  over one state, with the glue, gas and libopcodes behind them, as the API the C entry points of
  \<^verbatim>\<open>src/src/nyxstone_c.cpp\<close> wrap.
\<close>

subsection \<open>The C++ API of this library\<close>

text \<open>\<open>l_broken\<close> records that code behind the API has read outside a buffer, after which nothing is
  known of the results.\<close>

record ('x, 'g, 'd) library =
  l_process :: "'x process_state"
  l_driver :: "'g driver"
  l_dis :: 'd
  l_broken :: bool

definition lib_create :: "'x init_ops \<Rightarrow> ('x, 'g, 'd) library \<Rightarrow> unit cxx \<times> ('x, 'g, 'd) library" where
  "lib_create ops s = (let (r, p') = create ops (l_process s) in (Returns r, s\<lparr>l_process := p'\<rparr>))"

definition lib_assemble ::
    "room \<Rightarrow> string \<Rightarrow> 'g glue \<Rightarrow> bool \<Rightarrow> (assemble_core \<Rightarrow> 'a) \<Rightarrow> string \<Rightarrow> u64 \<Rightarrow> label_definition list \<Rightarrow>
     ('x, 'g, 'd) library \<Rightarrow> 'a cxx \<times> ('x, 'g, 'd) library" where
  "lib_assemble room what gl wr f src a ls s =
     (let (r, st) = do_assemble_throwing room gl src a ls wr (l_driver s)
      in (cxx_of what f r, s\<lparr>l_driver := st\<rparr>))"

definition lib_decoded ::
    "(instruction list \<Rightarrow> 'a) \<Rightarrow> ((string + instruction list) \<times> 'd) option \<Rightarrow>
     ('x, 'g, 'd) library \<Rightarrow> 'a cxx \<times> ('x, 'g, 'd) library" where
  "lib_decoded f r s =
     (case r of
        None \<Rightarrow> (Throws None, s\<lparr>l_broken := True\<rparr>)
      | Some (Inl msg, d) \<Rightarrow> (Returns (Inl msg), s\<lparr>l_dis := d\<rparr>)
      | Some (Inr v, d) \<Rightarrow> (Returns (Inr (f v)), s\<lparr>l_dis := d\<rparr>))"

text \<open>The forms with instructions: assemble, then disassemble what came out.\<close>

definition lib_to_instructions ::
    "room \<Rightarrow> string \<Rightarrow> 'g glue \<Rightarrow> 'd decoder \<Rightarrow> bool \<Rightarrow> (assemble_core \<Rightarrow> instruction list \<Rightarrow> 'a) \<Rightarrow>
     string \<Rightarrow> u64 \<Rightarrow> label_definition list \<Rightarrow> ('x, 'g, 'd) library \<Rightarrow> 'a cxx \<times> ('x, 'g, 'd) library" where
  "lib_to_instructions room what gl one wr f src a ls s =
     (let (r, st) = do_assemble_throwing room gl src a ls wr (l_driver s); s' = s\<lparr>l_driver := st\<rparr>
      in case r of
           None \<Rightarrow> (Throws (Some what), s')
         | Some (Inl msg) \<Rightarrow> (Returns (Inl msg), s')
         | Some (Inr core) \<Rightarrow> lib_decoded (f core) (do_disassemble one (core_bytes core) a 0 (l_dis s')) s')"

definition text_lines :: "instruction list \<Rightarrow> string" where
  "text_lines v = fold (\<lambda>i out. out @ ins_assembly i @ [NEWLINE]) v []"

definition library_api ::
    "room \<Rightarrow> string \<Rightarrow> 'g glue \<Rightarrow> 'x init_ops \<Rightarrow> 'd decoder \<Rightarrow> ('x, 'g, 'd) library cxx_api" where
  "library_api room what gl ops one = \<lparr>
     x_create = lib_create ops,
     x_assemble = lib_assemble room what gl False core_bytes,
     x_assemble_to_instructions = lib_to_instructions room what gl one False (\<lambda>core v. v),
     x_assemble_with_relocs = lib_assemble room what gl True
       (\<lambda>core. \<lparr>wr_bytes = core_bytes core, wr_relocations = core_relocations core\<rparr>),
     x_assemble_to_instructions_with_relocs = lib_to_instructions room what gl one True
       (\<lambda>core v. \<lparr>iwr_instructions = v, iwr_relocations = core_relocations core\<rparr>),
     x_disassemble = (\<lambda>bytes a cnt s. lib_decoded text_lines (do_disassemble one bytes a cnt (l_dis s)) s),
     x_disassemble_to_instructions = (\<lambda>bytes a cnt s. lib_decoded (\<lambda>v. v) (do_disassemble one bytes a cnt (l_dis s)) s)\<rparr>"

text \<open>Where no allocation fails, these are the entry points of theories \<open>Assemble\<close>, \<open>Disasm\<close> and \<open>Api\<close>.\<close>

lemma library_assembles:
  assumes "\<And>n. room n"
  shows "fst (x_assemble (library_api room what gl ops one) src a ls s) = Returns (fst (assemble gl src a ls (l_driver s)))"
    "fst (x_assemble_with_relocs (library_api room what gl ops one) src a ls s)
      = Returns (fst (assemble_with_relocs gl src a ls (l_driver s)))"
  by (simp_all add: library_api_def lib_assemble_def always_returns [OF assms] assemble_def assemble_with_relocs_def
      cxx_of_def case_prod_unfold Let_def map_prod_def split: sum.split)

lemma library_instructions:
  assumes "\<And>n. room n"
  shows "assemble_to_instructions gl one src a ls (l_driver s) (l_dis s) = Some (r, st, d) \<Longrightarrow>
      fst (x_assemble_to_instructions (library_api room what gl ops one) src a ls s) = Returns r"
    "assemble_to_instructions_with_relocs gl one src a ls (l_driver s) (l_dis s) = Some (r', st, d) \<Longrightarrow>
      fst (x_assemble_to_instructions_with_relocs (library_api room what gl ops one) src a ls s) = Returns r'"
  by (auto simp: library_api_def lib_to_instructions_def lib_decoded_def always_returns [OF assms]
      assemble_to_instructions_def assemble_to_instructions_with_relocs_def Let_def
      split: prod.splits sum.splits option.splits)

lemma library_disassembles:
  "disassemble one bytes a cnt (l_dis s) = Some (r, d) \<Longrightarrow>
    fst (x_disassemble (library_api room what gl ops one) bytes a cnt s) = Returns r"
  "disassemble_to_instructions one bytes a cnt (l_dis s) = Some (r', d) \<Longrightarrow>
    fst (x_disassemble_to_instructions (library_api room what gl ops one) bytes a cnt s) = Returns r'"
  by (auto simp: library_api_def lib_decoded_def disassemble_def disassemble_to_instructions_def text_lines_def
      split: prod.splits sum.splits option.splits)

subsection \<open>Instructions and relocations for a C caller\<close>

text \<open>C3. The richest call delivers: when \<open>nyxstone_assemble_to_instructions_with_relocs\<close> on gas returns
  \<open>NYXSTONE_OK\<close>, whatever libopcodes does, the two arrays read as instructions that lie one behind the
  other from the given address and make up bytes in which the resolved references are encoded, and
  as one relocation per open reference, in order; the two free functions give the heap back. This needs that
  reporting an error changes no symbol, that the error count does not fall, and that the sites of the references
  lie apart and in the fixed parts of the frags and memory suffices for the image of the section.\<close>

theorem c_instructions_with_relocs_deliver:
  assumes "sound_gas g" "errors_grow (gas_ops.truncate g)" "wf_mem m"
    and c: "fst (nyxstone_assemble_to_instructions_with_relocs (library_api room what (gas_glue g) ops one) (Some h)
      (Some source) (length source) a (Some labels) (length labels) (Some p0) (Some n0) (Some p1) (Some n1) out_err m s) = c"
      "r_status c = NYXSTONE_OK"
    and ls: "ls = to_label_vector (Some labels) (length labels)"
    and "sites_in_place (gas_ops.truncate g) a (prepared g source ls True (l_driver s))"
  shows "\<exists>v bytes. reads_ins_relocs (r_mem c) (r_out c) v \<and> tiles a bytes (iwr_instructions v) \<and>
      holds_references (gas_ops.truncate g) a (prepared g source ls True (l_driver s)) bytes \<and>
      (let t = encoded g source a ls True (l_driver s)
       in iwr_relocations v = map (reference_entry g a ls t) (filter (unresolved (gas_ops.truncate g) t) (fixups t))) \<and>
      live (release_ins_relocs (r_out c) (r_mem c)) = live m"
proof -
  let ?x = "fst (lib_to_instructions room what (gas_glue g) one True
      (\<lambda>core v. \<lparr>iwr_instructions = v, iwr_relocations = core_relocations core\<rparr>) source a ls s)"
  have "c = run_try classify_assemble_error finish_instructions_with_relocs ?x
      ((Some None, Some 0), Some None, Some 0) (clear_err out_err) m"
    using c(1) by (auto simp: nyxstone_assemble_to_instructions_with_relocs_def library_api_def Let_def case_prod_unfold ls)
  then have "call_contract reads_ins_relocs release_ins_relocs ((Some None, Some 0), Some None, Some 0) m ?x c"
    using ins_relocs_out.run_try_contract [OF assms(3) classify_not_ok] by simp
  from call_contract_ok [OF this c(2)] obtain v where v: "?x = Returns (Inr v)"
    "reads_ins_relocs (r_mem c) (r_out c) v" "live (release_ins_relocs (r_out c) (r_mem c)) = live m"
    by blast
  from v(1) obtain core d where core: "fst (do_assemble_throwing room (gas_glue g) source a ls True (l_driver s)) = Some (Inr core)"
    "do_disassemble one (core_bytes core) a 0 (l_dis s) = Some (Inr (iwr_instructions v), d)"
    "iwr_relocations v = core_relocations core"
    by (auto simp: lib_to_instructions_def lib_decoded_def Let_def split: prod.splits option.splits sum.splits)
  note ok = returned_core [OF core(1)]
  show ?thesis
    using v(2,3) disassembled_whole [OF core(2)] core(3) references_encoded [OF assms(1,2) ok assms(7)]
      references_listed [OF assms(1) ok disjI1 [OF TrueI]]
    by (auto simp: Let_def)
qed

subsection \<open>Enough memory\<close>

text \<open>When no allocation fails, every result is built.\<close>

definition memory_lasts :: "mem \<Rightarrow> bool" where
  "memory_lasts m \<longleftrightarrow> wf_mem m \<and> alloc_ok m = (\<lambda>_. True)"

definition array_never_fails :: "('c, 'v) array_kind \<Rightarrow> bool" where
  "array_never_fails k \<longleftrightarrow> (\<forall>v m cell failed m'. alloc_ok m = (\<lambda>_. True) \<longrightarrow> convert k v m = ((cell, failed), m') \<longrightarrow>
     failed = None \<and> alloc_ok m' = (\<lambda>_. True))"

lemma alloc_lasts: "alloc_ok m = (\<lambda>_. True) \<Longrightarrow> \<exists>a m'. mem_alloc ob m = (Some a, m') \<and> alloc_ok m' = (\<lambda>_. True)"
  by (simp add: mem_alloc_def Let_def)

lemma dup_lasts: "alloc_ok m = (\<lambda>_. True) \<Longrightarrow> \<exists>a m'. dup_cstring t m = (Some a, m') \<and> alloc_ok m' = (\<lambda>_. True)"
  by (simp add: dup_cstring_def alloc_lasts)

lemma arrays_never_fail: "array_never_fails instruction_kind" "array_never_fails reloc_kind"
  unfolding array_never_fails_def instruction_kind_convert reloc_kind_convert
  by (auto simp: convert_instruction_def convert_relocation_def dup_cstring_def mem_alloc_def Let_def split: if_splits)

lemma loop_lasts:
  "array_never_fails k \<Longrightarrow> alloc_ok m = (\<lambda>_. True) \<Longrightarrow>
    \<exists>m'. convert_loop k a i vs m = (Some a, m') \<and> alloc_ok m' = (\<lambda>_. True)"
proof (induction vs arbitrary: i m)
  case (Cons v vs)
  obtain cell failed m1 where c: "convert k v m = ((cell, failed), m1)" by (metis prod.collapse)
  then have "failed = None" "alloc_ok m1 = (\<lambda>_. True)" using Cons.prems unfolding array_never_fails_def by blast+
  then show ?case using Cons c by (simp add: mem_store_def Let_def)
qed simp

lemma array_lasts:
  assumes "array_never_fails k" "alloc_ok m = (\<lambda>_. True)"
  shows "\<exists>a m'. convert_array k vs m = (Some a, m') \<and> alloc_ok m' = (\<lambda>_. True)"
proof -
  obtain a m1 where "mem_alloc (wrap k (replicate (if vs = [] then 1 else length vs) (zero_cell k))) m = (Some a, m1)"
    "alloc_ok m1 = (\<lambda>_. True)"
    using alloc_lasts [OF assms(2)] by blast
  then show ?thesis using loop_lasts [OF assms(1), of m1 a 0 vs] by (auto simp: convert_array_def)
qed

lemma builders_last:
  assumes "alloc_ok m = (\<lambda>_. True)"
  shows "fst (finish_bytes bs m) \<noteq> None" "fst (finish_text t m) \<noteq> None" "fst (finish_instructions v m) \<noteq> None"
    "fst (finish_with_relocs w m) \<noteq> None" "fst (finish_instructions_with_relocs u m) \<noteq> None"
proof -
  show "fst (finish_bytes bs m) \<noteq> None" using alloc_lasts [OF assms, of "C_bytes bs"] by (auto simp: finish_bytes_def)
  show "fst (finish_text t m) \<noteq> None" using dup_lasts [OF assms, of t] by (auto simp: finish_text_def)
  show "fst (finish_instructions v m) \<noteq> None"
    using array_lasts [OF arrays_never_fail(1) assms, of v] by (auto simp: finish_instructions_def convert_instructions_def)
  obtain b m1 where "(if wr_bytes w = [] then (None, m) else mem_alloc (C_bytes (wr_bytes w)) m) = (b, m1)"
    "wr_bytes w \<noteq> [] \<longrightarrow> b \<noteq> None" "alloc_ok m1 = (\<lambda>_. True)"
    using alloc_lasts [OF assms, of "C_bytes (wr_bytes w)"] assms by (cases "wr_bytes w = []") auto
  then show "fst (finish_with_relocs w m) \<noteq> None"
    using array_lasts [OF arrays_never_fail(2), of m1 "wr_relocations w"]
    by (auto simp: finish_with_relocs_def convert_relocations_def Let_def)
  obtain a m2 where "convert_array instruction_kind (iwr_instructions u) m = (Some a, m2)" "alloc_ok m2 = (\<lambda>_. True)"
    using array_lasts [OF arrays_never_fail(1) assms] by blast
  then show "fst (finish_instructions_with_relocs u m) \<noteq> None"
    using array_lasts [OF arrays_never_fail(2), of m2 "iwr_relocations u"]
    by (auto simp: finish_instructions_with_relocs_def convert_instructions_def convert_relocations_def Let_def)
qed

lemma run_try_succeeds:
  "fst (finish v m) \<noteq> None \<Longrightarrow> r_status (run_try classify finish (Returns (Inr v)) zeroed e m) = NYXSTONE_OK"
  by (auto simp: run_try_def split: prod.split)

subsection \<open>Disassembly always delivers\<close>

text \<open>C6. With enough memory and a libopcodes that prints undecodable bytes as data, disassembly of any
  input by a C caller returns \<open>NYXSTONE_OK\<close>: the array reads as instructions that lie one behind the other
  from the given address and make up the whole input, the text is their lines, and no access outside
  a buffer happens.\<close>

theorem c_disassembly_delivers:
  assumes "decodes_all p" "memory_lasts m" "\<not> l_broken s"
    and c: "nyxstone_disassemble_to_instructions (library_api room what gl ops (disasm_one p)) (Some h) (Some bytes)
      (length bytes) a 0 (Some p0) (Some n0) out_err m s = (c, s1)"
    and t: "nyxstone_disassemble (library_api room what gl ops (disasm_one p)) (Some h) (Some bytes)
      (length bytes) a 0 (Some p1) out_err m s = (t, s2)"
  shows "\<exists>v. r_status c = NYXSTONE_OK \<and> reads_instructions (r_mem c) (r_out c) v \<and> tiles a bytes v \<and>
    r_status t = NYXSTONE_OK \<and>
    string_at (r_mem t) (out_value (r_out t)) = concat (map (\<lambda>i. ins_assembly i @ [NEWLINE]) v) \<and>
    s1 = s2 \<and> \<not> l_broken s1"
proof -
  obtain v d where v: "do_disassemble (disasm_one p) bytes a 0 (l_dis s) = Some (Inr v, d)"
    using dis.loop_succeeds [OF assms(1)] unfolding do_disassemble_def by blast
  have m: "wf_mem m" "alloc_ok m = (\<lambda>_. True)" using assms(2) by (simp_all add: memory_lasts_def)
  have input: "input_bytes (Some bytes) (length bytes) = bytes" by (simp add: input_bytes_def)
  have c: "c = run_try (\<lambda>_. NYXSTONE_ERR_DISASM_FAILED) finish_instructions (Returns (Inr v)) (Some None, Some 0) (clear_err out_err) m"
    "s1 = s\<lparr>l_dis := d\<rparr>"
    using c by (simp_all add: nyxstone_disassemble_to_instructions_def library_api_def lib_decoded_def input v)
  have t: "t = run_try (\<lambda>_. NYXSTONE_ERR_DISASM_FAILED) finish_text (Returns (Inr (text_lines v))) (Some None) (clear_err out_err) m"
    "s2 = s\<lparr>l_dis := d\<rparr>"
    using t by (simp_all add: nyxstone_disassemble_def library_api_def lib_decoded_def input v)
  have ok: "r_status c = NYXSTONE_OK" "r_status t = NYXSTONE_OK"
    unfolding c(1) t(1) by (rule run_try_succeeds, rule builders_last [OF m(2)])+
  have "call_contract reads_instructions release_instructions (Some None, Some 0) m (Returns (Inr v)) c"
    unfolding c(1) by (rule instructions_out.run_try_contract [OF m(1)]) simp
  moreover have "call_contract reads_text release_text (Some None) m (Returns (Inr (text_lines v))) t"
    unfolding t(1) by (rule text_out.run_try_contract [OF m(1)]) simp
  ultimately show ?thesis
    using ok disassembled_whole [OF v] c(2) t(2) assms(3)
    by (auto simp: call_contract_def text_lines_def fold_lines reads_text_def out_value_def split: option.splits)
qed

subsection \<open>A library on the sample gas and the sample libopcodes\<close>

text \<open>Initialisation always works; there is nothing behind it to look at.\<close>

definition easy_init :: "unit init_ops" where
  "easy_init = \<lparr>i_bfd_init = (\<lambda>x. (True, x)), i_find_target = (\<lambda>_ x. (True, x)), i_bfd_create = (\<lambda>_ x. (True, x)),
     i_step = (\<lambda>_ x. x)\<rparr>"

definition sample_library :: "(unit, (nat, int) segment, nat) library cxx_api" where
  "sample_library = library_api ample ''bad_alloc'' (gas_glue sample_api) easy_init (disasm_one branch_dis)"

definition sample_state :: "(unit, (nat, int) segment, nat) library" where
  "sample_state = \<lparr>l_process = \<lparr>g_initialized = True, gas_state = ()\<rparr>, l_driver = fresh branch_section, l_dis = 0, l_broken = False\<rparr>"

definition ri_result :: "two_outs c_call" where
  "ri_result = fst (nyxstone_assemble_to_instructions_with_relocs sample_library (Some 9) (Some r_source) (length r_source)
     0x1000 (Some r_labels) (length r_labels) (Some None) (Some 0) (Some None) (Some 0) (Some None) (empty_mem (\<lambda>_. True)) sample_state)"

lemma plenty: "memory_lasts (empty_mem (\<lambda>_. True))"
  by (simp add: memory_lasts_def) (simp add: empty_mem_def)

lemma ri_result_ok: "r_status ri_result = NYXSTONE_OK"
proof -
  obtain core where core: "fst (do_assemble (gas_glue sample_api) r_source 0x1000 [\<lparr>l_name = ''sym'', l_address = 0x44\<rparr>] True
      (fresh branch_section)) = Inr core"
    using sample_ext by (auto simp: r_source_def)
  obtain v d where v: "do_disassemble (disasm_one branch_dis) (core_bytes core) 0x1000 0 0 = Some (Inr v, d)"
    using dis.loop_succeeds [OF branch_dis_decodes(3)] unfolding do_disassemble_def by blast
  have "fst (x_assemble_to_instructions_with_relocs sample_library r_source 0x1000 [\<lparr>l_name = ''sym'', l_address = 0x44\<rparr>] sample_state)
      = Returns (Inr \<lparr>iwr_instructions = v, iwr_relocations = core_relocations core\<rparr>)"
    using core v by (simp add: sample_library_def library_api_def lib_to_instructions_def lib_decoded_def sample_state_def
        always_returns ample_def Let_def case_prod_unfold)
  then have eq: "ri_result = run_try classify_assemble_error finish_instructions_with_relocs
      (Returns (Inr \<lparr>iwr_instructions = v, iwr_relocations = core_relocations core\<rparr>)) ((Some None, Some 0), Some None, Some 0)
      (clear_err (Some None)) (empty_mem (\<lambda>_. True))"
    by (simp add: ri_result_def nyxstone_assemble_to_instructions_with_relocs_def r_vector Let_def case_prod_unfold)
  have "alloc_ok (empty_mem (\<lambda>_. True)) = (\<lambda>_. True)" by (simp add: empty_mem_def)
  then show ?thesis unfolding eq by (intro run_try_succeeds builders_last(5))
qed

lemma r_state: "l_driver sample_state = fresh branch_section"
  by (simp add: sample_state_def)

theorem c_instructions_with_relocs_deliver_witness:
  "\<exists>v bytes. reads_ins_relocs (r_mem ri_result) (r_out ri_result) v \<and> tiles 0x1000 bytes (iwr_instructions v) \<and>
     length (iwr_relocations v) = 1 \<and>
     live (release_ins_relocs (r_out ri_result) (r_mem ri_result)) = live (empty_mem (\<lambda>_. True))"
proof -
  have one: "length (let t = encoded sample_api r_source 0x1000 [\<lparr>l_name = ''sym'', l_address = 0x44\<rparr>] True (fresh branch_section)
    in filter (unresolved branch_gas t) (fixups t)) = 1"
    by code_simp
  show ?thesis
    using c_instructions_with_relocs_deliver [OF sample_api_sound empty_mem_wf
        ri_result_def [unfolded sample_library_def, symmetric] ri_result_ok
        r_vector [symmetric], unfolded r_prepared sample_api_ops r_state, OF r_place] one
    by (auto simp: Let_def)
qed

theorem c_disassembly_delivers_witness:
  "\<exists>v. reads_instructions (r_mem (fst (nyxstone_disassemble_to_instructions sample_library (Some 9) (Some [0x3c, 1, 2]) 3 0x1000 0
      (Some None) (Some 0) None (empty_mem (\<lambda>_. True)) sample_state))) (r_out (fst (nyxstone_disassemble_to_instructions
      sample_library (Some 9) (Some [0x3c, 1, 2]) 3 0x1000 0 (Some None) (Some 0) None (empty_mem (\<lambda>_. True)) sample_state))) v \<and>
     tiles 0x1000 [0x3c, 1, 2] v"
proof -
  have three: "3 = length [0x3c :: byte, 1, 2]" "\<not> l_broken sample_state" by (simp_all add: sample_state_def)
  show ?thesis
    unfolding sample_library_def three(1)
    using c_disassembly_delivers [OF branch_dis_decodes(3) plenty three(2) prod.collapse [symmetric] prod.collapse [symmetric],
        of ample "''bad_alloc''" "gas_glue sample_api" easy_init 9 "[0x3c, 1, 2]" "0x1000" None 0 None None]
    by blast
qed

end
