(* ===== verification/Smoke.thy ===== *)
theory Smoke
  imports C_Library
begin

text \<open>
  The example program \<^verbatim>\<open>src/examples/smoke.cpp\<close> on the public C++ API: its \<open>main\<close> as the
  standard output, the standard error and the exit status. The functions are written in the order of
  \<open>main\<close>, each with the rest of the program as its last argument. An exception that reaches \<open>main\<close>
  ends the process: \<open>Terminated\<close>.
\<close>

subsection \<open>Calls and formats\<close>

datatype exit = Terminated | Exited string string int

definition call :: "'r cxx \<times> 's \<Rightarrow> (string + 'r \<Rightarrow> 's \<Rightarrow> exit) \<Rightarrow> exit" where
  "call x k = (case x of (Throws _, s) \<Rightarrow> Terminated | (Returns r, s) \<Rightarrow> k r s)"

text \<open>\<open>%0<w>x\<close>, \<open>%zu\<close> and \<open>%u\<close>, \<open>%lld\<close>; \<open>%s\<close> of a \<open>c_str()\<close> ends at the first zero.\<close>

definition hex_field :: "nat \<Rightarrow> nat \<Rightarrow> string" where
  "hex_field w n = replicate (w - length (hex n)) CHR ''0'' @ hex n"

definition decimal :: "nat \<Rightarrow> string" where
  "decimal n = numeral_string 10 n"

definition signed_decimal :: "i64 \<Rightarrow> string" where
  "signed_decimal x = (if sint x < 0 then ''-'' else []) @ decimal (nat \<bar>sint x\<bar>)"

definition line :: "string \<Rightarrow> string" where
  "line t = t @ [NEWLINE]"

definition byte_dump :: "byte list \<Rightarrow> string" where
  "byte_dump bs = concat (map (\<lambda>x. '' '' @ hex_field 2 (unat x)) bs)"

definition sized_dump :: "byte list \<Rightarrow> string" where
  "sized_dump bs = line (''    ['' @ decimal (length bs) @ '' bytes]:'' @ byte_dump bs)"

definition report_failure :: "string \<Rightarrow> string" where
  "report_failure msg = line (''    FAIL: '' @ c_str msg)"

definition heading :: "string \<Rightarrow> string" where
  "heading t = NEWLINE # line (''--- '' @ t @ '' ---'')"

subsection \<open>The program\<close>

definition smoke_base :: u64 where "smoke_base = 0x80000000"

definition smoke_sources :: "string list" where
  "smoke_sources = [''nop'', ''ret'', ''mov %d4, %d5'', ''add %d4, %d5, %d6'', ''movh %d4, 0x1234'',
     line ''start:'' @ line '' nop'' @ line '' j here'' @ line ''here:'' @ line '' ret'',
     ''.byte 0x11, 0x22, 0x33, 0x44'', ''.word 0xdeadbeef'']"

text \<open>The loop over the sources: each is assembled behind the bytes of those before it; one that
  fails is reported and left out.\<close>

fun assemble_all ::
    "'s cxx_api \<Rightarrow> string list \<Rightarrow> byte list \<Rightarrow> string \<Rightarrow> 's \<Rightarrow> (byte list \<Rightarrow> string \<Rightarrow> 's \<Rightarrow> exit) \<Rightarrow> exit" where
  "assemble_all api [] all out s k = k all out s"
| "assemble_all api (src # srcs) all out s k =
     call (x_assemble api src (smoke_base + of_nat (length all)) [] s) (\<lambda>b s'.
       let out' = out @ line (''--- '' @ src)
       in case b of
            Inl msg \<Rightarrow> assemble_all api srcs all (out' @ report_failure msg) s' k
          | Inr bs \<Rightarrow> assemble_all api srcs (all @ bs) (out' @ sized_dump bs) s' k)"

definition instructions_example :: "'s cxx_api \<Rightarrow> string \<Rightarrow> 's \<Rightarrow> (string \<Rightarrow> 's \<Rightarrow> exit) \<Rightarrow> exit" where
  "instructions_example api out s k =
     (let out1 = out @ heading ''assemble_to_instructions example''
      in call (x_assemble_to_instructions api (line ''nop'' @ line '' ret'') smoke_base [] s) (\<lambda>r s'.
           k (out1 @ (case r of
                        Inl _ \<Rightarrow> []
                      | Inr v \<Rightarrow> concat (map (\<lambda>i. line (''    0x'' @ hex_field 8 (unat (ins_address i)) @ ''  '' @
                          c_str (ins_assembly i))) v))) s'))"

definition label_example :: "'s cxx_api \<Rightarrow> string \<Rightarrow> 's \<Rightarrow> (string \<Rightarrow> 's \<Rightarrow> exit) \<Rightarrow> exit" where
  "label_example api out s k =
     (let out1 = out @ heading ''external label (j ext, ext=base+8)''
      in call (x_assemble api (line ''nop'' @ line '' nop'' @ line '' nop'' @ line '' j ext'') smoke_base
             [\<lparr>l_name = ''ext'', l_address = smoke_base + 8\<rparr>] s) (\<lambda>r s'.
           k (out1 @ (case r of Inl msg \<Rightarrow> report_failure msg | Inr bs \<Rightarrow> sized_dump bs)) s'))"

definition relocation_line :: "relocation_info \<Rightarrow> string" where
  "relocation_line r = line (''    reloc: off=0x'' @ hex (unat (ri_offset r)) @
     '' type='' @ decimal (unat (ri_relocation_type r)) @ '' sym='' @ c_str (sym_name (ri_symbol r)) @
     ''(@0x'' @ hex (unat (sym_address (ri_symbol r))) @ '') addend='' @
     signed_decimal (case ri_addend r of Some x \<Rightarrow> x | None \<Rightarrow> 0))"

definition relocations_example :: "'s cxx_api \<Rightarrow> string \<Rightarrow> 's \<Rightarrow> (string \<Rightarrow> 's \<Rightarrow> exit) \<Rightarrow> exit" where
  "relocations_example api out s k =
     (let out1 = out @ heading ''assemble_with_relocs (gcc/gas -r equivalent)''
      in call (x_assemble_with_relocs api (line ''nop'' @ line '' j ext'') 0x1000
             [\<lparr>l_name = ''ext'', l_address = 0x2000\<rparr>] s) (\<lambda>r s'.
           k (out1 @ (case r of
                        Inl msg \<Rightarrow> report_failure msg
                      | Inr v \<Rightarrow> line (''    bytes ('' @ decimal (length (wr_bytes v)) @ ''):'' @ byte_dump (wr_bytes v)) @
                          concat (map relocation_line (wr_relocations v)))) s'))"

definition listing_line :: "instruction \<Rightarrow> string" where
  "listing_line i = line (''    0x'' @ hex_field 8 (unat (ins_address i)) @ ''  ['' @ byte_dump (ins_bytes i) @ '' ]  '' @
     c_str (ins_assembly i))"

definition disassembly_example :: "'s cxx_api \<Rightarrow> byte list \<Rightarrow> string \<Rightarrow> 's \<Rightarrow> exit" where
  "disassembly_example api all out s =
     (let out1 = out @ heading ''disassemble_to_instructions of the concatenated bytes''
      in call (x_disassemble_to_instructions api all smoke_base 0 s) (\<lambda>r s1.
           case r of
             Inl msg \<Rightarrow> Exited out1 (line (''disassemble failed: '' @ msg)) 1
           | Inr v \<Rightarrow>
               let out2 = out1 @ concat (map listing_line v) @ heading ''disassemble as text (first 3 insns)''
               in call (x_disassemble api all smoke_base 3 s1) (\<lambda>t s2.
                    Exited (out2 @ (case t of Inl _ \<Rightarrow> [] | Inr text \<Rightarrow> c_str text)) [] 0)))"

definition smoke_main :: "'s cxx_api \<Rightarrow> 's \<Rightarrow> exit" where
  "smoke_main api s =
     call (x_create api s) (\<lambda>created s0.
       case created of
         Inl msg \<Rightarrow> Exited [] (line (''NyxstoneTricoreGCC::create failed: '' @ msg)) 1
       | Inr _ \<Rightarrow>
           assemble_all api smoke_sources [] [] s0 (\<lambda>all out s1.
             instructions_example api out s1 (\<lambda>out s2.
               label_example api out s2 (\<lambda>out s3.
                 relocations_example api out s3 (\<lambda>out s4.
                   disassembly_example api all out s4)))))"

subsection \<open>What it shows\<close>

text \<open>\<open>placed\<close>: one result per source, each assembled for the address at which its bytes end up.\<close>

definition result_bytes :: "string + byte list \<Rightarrow> byte list" where
  "result_bytes r = (case r of Inl _ \<Rightarrow> [] | Inr bs \<Rightarrow> bs)"

fun placed :: "'g glue \<Rightarrow> u64 \<Rightarrow> string list \<Rightarrow> (string + byte list) list \<Rightarrow> bool" where
  "placed gl a [] rs \<longleftrightarrow> rs = []"
| "placed gl a (src # srcs) [] \<longleftrightarrow> False"
| "placed gl a (src # srcs) (r # rs) \<longleftrightarrow>
     (\<exists>st. r = fst (assemble gl src a [] st)) \<and> placed gl (a + of_nat (length (result_bytes r))) srcs rs"

lemma call_returns: "fst x = Returns r \<Longrightarrow> \<exists>s'. call x k = k r s'"
  by (cases x) (auto simp: call_def)

lemma decoding_returns:
  "decodes_all p \<Longrightarrow> \<exists>v d'. do_disassemble (disasm_one p) bytes a cnt d = Some (Inr v, d')"
  using dis.loop_succeeds [of p] unfolding do_disassemble_def by blast

lemma assembly_returns:
  assumes "\<forall>n. room n"
  shows "\<exists>s'. call (x_assemble (library_api room what gl ops one) src a ls s) k = k (fst (assemble gl src a ls (l_driver s))) s'"
    "\<exists>r s'. call (x_assemble_with_relocs (library_api room what gl ops one) src a ls s) k' = k' r s'"
proof -
  note x = library_assembles [where room = room and what = what and gl = gl and ops = ops and one = one]
  show "\<exists>s'. call (x_assemble (library_api room what gl ops one) src a ls s) k = k (fst (assemble gl src a ls (l_driver s))) s'"
    using x(1) assms call_returns by blast
  show "\<exists>r s'. call (x_assemble_with_relocs (library_api room what gl ops one) src a ls s) k' = k' r s'"
    using x(2) assms call_returns by blast
qed

lemma instructions_return:
  assumes "\<forall>n. room n" "decodes_all p"
  shows "\<exists>r s'. call (x_assemble_to_instructions (library_api room what gl ops (disasm_one p)) src a ls s) k = k r s'"
proof -
  obtain r st where r: "do_assemble gl src a ls False (l_driver s) = (r, st)" by fastforce
  have room: "\<And>n. room n" using assms(1) by blast
  have "\<exists>q. fst (x_assemble_to_instructions (library_api room what gl ops (disasm_one p)) src a ls s) = Returns q"
  proof (cases r)
    case (Inr core)
    then show ?thesis
      using decoding_returns [OF assms(2), of "core_bytes core" a 0 "l_dis s"] r
      by (auto simp: library_api_def lib_to_instructions_def lib_decoded_def always_returns [where room = room, OF room])
  qed (use r in \<open>simp add: library_api_def lib_to_instructions_def always_returns [where room = room, OF room]\<close>)
  then show ?thesis using call_returns by blast
qed

lemma all_assembled:
  assumes "\<forall>n. room n" and api: "api = library_api room what gl ops one"
  shows "\<exists>rs out' s'. assemble_all api srcs all out s k = k (all @ concat (map result_bytes rs)) out' s' \<and>
    placed gl (smoke_base + of_nat (length all)) srcs rs"
proof (induction srcs arbitrary: all out s)
  case Nil
  have "assemble_all api [] all out s k = k (all @ concat (map result_bytes [])) out s" by simp
  then show ?case by (metis placed.simps(1))
next
  case (Cons src srcs)
  let ?r = "fst (assemble gl src (smoke_base + of_nat (length all)) [] (l_driver s))"
  obtain out1 s1 where step: "assemble_all api (src # srcs) all out s k = assemble_all api srcs (all @ result_bytes ?r) out1 s1 k"
  proof -
    let ?k = "\<lambda>b s'. let out' = out @ line (''--- '' @ src)
      in case b of Inl msg \<Rightarrow> assemble_all api srcs all (out' @ report_failure msg) s' k
         | Inr bs \<Rightarrow> assemble_all api srcs (all @ bs) (out' @ sized_dump bs) s' k"
    obtain s1 where "assemble_all api (src # srcs) all out s k = ?k ?r s1"
      using assembly_returns(1) [OF assms(1), of what gl ops one src "smoke_base + of_nat (length all)" "[]" s ?k] unfolding api by auto
    then show ?thesis using that by (cases ?r) (auto simp: result_bytes_def Let_def)
  qed
  obtain rs out' s' where rest: "assemble_all api srcs (all @ result_bytes ?r) out1 s1 k
      = k ((all @ result_bytes ?r) @ concat (map result_bytes rs)) out' s'"
    "placed gl (smoke_base + of_nat (length (all @ result_bytes ?r))) srcs rs"
    using Cons.IH by blast
  show ?case
    unfolding step using rest by (intro exI [of _ "?r # rs"]) (auto simp: algebra_simps)
qed

lemma disassembled:
  assumes "decodes_all p"
  shows "\<exists>v w n out'. disassembly_example (library_api room what gl ops (disasm_one p)) all out s =
      Exited (out' @ concat (map listing_line v) @ heading ''disassemble as text (first 3 insns)'' @ c_str (text_lines w)) [] 0 \<and>
    tiles smoke_base all v \<and> tiles smoke_base (take n all) w \<and> length w \<le> 3"
proof -
  obtain v d where v: "do_disassemble (disasm_one p) all smoke_base 0 (l_dis s) = Some (Inr v, d)"
    using decoding_returns [OF assms] by blast
  obtain w d' where w: "do_disassemble (disasm_one p) all smoke_base 3 d = Some (Inr w, d')"
    using decoding_returns [OF assms] by blast
  obtain n where "tiles smoke_base (take n all) w" "length w \<le> 3"
    using loop_tiles [of "disasm_one p" all smoke_base 3 0 0 "[]" d w d'] w by (auto simp: do_disassemble_def)
  then show ?thesis
    using disassembled_whole [OF v]
    by (intro exI [of _ v] exI [of _ w] exI [of _ n]
        exI [of _ "out @ heading ''disassemble_to_instructions of the concatenated bytes''"])
      (simp add: disassembly_example_def call_def library_api_def lib_decoded_def v w Let_def)
qed

lemma main_creates:
  "smoke_main (library_api room what gl ops one) s =
    (let api = library_api room what gl ops one; s0 = s\<lparr>l_process := snd (create ops (l_process s))\<rparr>
     in case fst (create ops (l_process s)) of
       Inl msg \<Rightarrow> Exited [] (line (''NyxstoneTricoreGCC::create failed: '' @ msg)) 1
     | Inr _ \<Rightarrow> assemble_all api smoke_sources [] [] s0 (\<lambda>all out s1. instructions_example api out s1 (\<lambda>out s2.
         label_example api out s2 (\<lambda>out s3. relocations_example api out s3 (\<lambda>out s4. disassembly_example api all out s4)))))"
proof -
  have "x_create (library_api room what gl ops one) s = (Returns (fst (create ops (l_process s))), s\<lparr>l_process := snd (create ops (l_process s))\<rparr>)"
    by (simp add: library_api_def lib_create_def case_prod_unfold Let_def)
  then show ?thesis by (simp add: smoke_main_def call_def Let_def)
qed

lemma example_returns:
  assumes "\<forall>n. room n" "decodes_all p" and api: "api = library_api room what gl ops (disasm_one p)"
  shows "\<exists>out' s'. instructions_example api out s k = k out' s'" "\<exists>out' s'. label_example api out s k = k out' s'"
    "\<exists>out' s'. relocations_example api out s k = k out' s'"
proof -
  have returns: "\<exists>out' s'. call x (\<lambda>r s'. k (g r) s') = k out' s'" if "\<And>k. \<exists>r s'. call x k = k r s'" for x g
    using that [of "\<lambda>r s'. k (g r) s'"] by blast
  show "\<exists>out' s'. instructions_example api out s k = k out' s'"
    unfolding instructions_example_def Let_def api by (rule returns) (rule instructions_return [OF assms(1,2)])
  show "\<exists>out' s'. label_example api out s k = k out' s'"
    unfolding label_example_def Let_def api by (rule returns) (use assembly_returns(1) [OF assms(1)] in blast)
  show "\<exists>out' s'. relocations_example api out s k = k out' s'"
    unfolding relocations_example_def Let_def api by (rule returns) (rule assembly_returns(2) [OF assms(1)])
qed

lemma main_passes:
  assumes "\<forall>n. room n" "decodes_all p" "fst (create ops (l_process s)) = Inr u"
    and api: "api = library_api room what gl ops (disasm_one p)"
  shows "\<exists>rs v w n out. placed gl smoke_base smoke_sources rs \<and> tiles smoke_base (concat (map result_bytes rs)) v \<and>
    tiles smoke_base (take n (concat (map result_bytes rs))) w \<and> length w \<le> 3 \<and>
    smoke_main api s = Exited (out @ concat (map listing_line v) @
      heading ''disassemble as text (first 3 insns)'' @ c_str (text_lines w)) [] 0"
proof -
  let ?rest = "\<lambda>all out s1. instructions_example api out s1 (\<lambda>out s2. label_example api out s2 (\<lambda>out s3.
      relocations_example api out s3 (\<lambda>out s4. disassembly_example api all out s4)))"
  obtain s0 where "smoke_main api s = assemble_all api smoke_sources [] [] s0 ?rest"
    using assms(3) unfolding api main_creates by (simp add: Let_def)
  then obtain rs out1 s1 where rs: "smoke_main api s = ?rest (concat (map result_bytes rs)) out1 s1"
    "placed gl smoke_base smoke_sources rs"
    using all_assembled [OF assms(1) api, of smoke_sources "[]" "[]" s0 ?rest] by auto
  have "\<exists>out' s'. ?rest all out1 s1 = disassembly_example api all out' s'" for all
  proof -
    let ?k3 = "\<lambda>out s4. disassembly_example api all out s4"
    let ?k2 = "\<lambda>out s3. relocations_example api out s3 ?k3"
    let ?k1 = "\<lambda>out s2. label_example api out s2 ?k2"
    note returns = example_returns [OF assms(1,2) api]
    obtain out2 s2 where 1: "?rest all out1 s1 = ?k1 out2 s2" using returns(1) [of out1 s1 ?k1] by blast
    obtain out3 s3 where 2: "?k1 out2 s2 = ?k2 out3 s3" using returns(2) [of out2 s2 ?k2] by blast
    obtain out4 s4 where "?k2 out3 s3 = ?k3 out4 s4" using returns(3) [of out3 s3 ?k3] by blast
    then have "?rest all out1 s1 = ?k3 out4 s4" unfolding 1 2 .
    then show ?thesis by blast
  qed
  then show ?thesis using rs disassembled [OF assms(2), where room = room and what = what and gl = gl and ops = ops] unfolding api by metis
qed

text \<open>C21. The example program works on the whole library, with any assembler behind it, as long as memory
  suffices and libopcodes prints undecodable bytes as data: it ends with status 1 and the error text
  if the library cannot be initialised, and otherwise with status 0 and nothing on the standard
  error. The bytes of each source are assembled for the address at which they lie, and the
  instructions listed at the end lie one behind the other from the base address and make up all of
  them; the text behind the listing has at most three instructions from the same start.\<close>

theorem smoke_passes:
  assumes "\<forall>n. room n" "decodes_all p"
  shows "case fst (create ops (l_process s)) of
      Inl msg \<Rightarrow> smoke_main (library_api room what gl ops (disasm_one p)) s =
        Exited [] (line (''NyxstoneTricoreGCC::create failed: '' @ msg)) 1
    | Inr _ \<Rightarrow> \<exists>rs v w n out. placed gl smoke_base smoke_sources rs \<and>
        tiles smoke_base (concat (map result_bytes rs)) v \<and>
        tiles smoke_base (take n (concat (map result_bytes rs))) w \<and> length w \<le> 3 \<and>
        smoke_main (library_api room what gl ops (disasm_one p)) s = Exited (out @ concat (map listing_line v) @
          heading ''disassemble as text (first 3 insns)'' @ c_str (text_lines w)) [] 0"
proof (cases "fst (create ops (l_process s))")
  case (Inl msg)
  then show ?thesis by (simp add: main_creates)
next
  case (Inr u)
  then show ?thesis
    using main_passes [OF assms Inr refl, where what = what and gl = gl] by simp
qed

theorem smoke_passes_witness:
  "\<exists>rs v out. placed (gas_glue sample_api) smoke_base smoke_sources rs \<and>
     tiles smoke_base (concat (map result_bytes rs)) v \<and>
     smoke_main sample_library sample_state = Exited out [] 0"
proof -
  have "fst (create easy_init (l_process sample_state)) = Inr ()"
    by (simp add: create_def init_once_def sample_state_def)
  moreover have "\<forall>n. ample n" by (simp add: ample_def)
  ultimately show ?thesis
    using smoke_passes [OF _ branch_dis_decodes(3), where room = ample and ops = easy_init and s = sample_state and
        what = "''bad_alloc''" and gl = "gas_glue sample_api"]
    unfolding sample_library_def by fastforce
qed

end
