(* ===== verification/Bench.thy ===== *)
theory Bench
  imports Complex_Main Smoke
begin

text \<open>
  The example program \<^verbatim>\<open>src/examples/bench.cpp\<close>: the packages of instructions it measures
  with, its timing loop and its \<open>main\<close>. The clock is a parameter: from its own state it gives the time
  in seconds. So is the text of a rate, which the code makes with floating-point arithmetic
  (\<open>rate count e k\<close> for \<open>count / e * k\<close> operations per second), and of the time the user asks for.
\<close>

subsection \<open>Packages\<close>

definition INSTRUCTIONS :: "string list" where
  "INSTRUCTIONS = [''mov %d4, %d5'', ''add %d4, %d5'', ''sub %d4, %d5'', ''nop'', ''ret'', ''mov.aa %a4, %a5'',
     ''ld.w %d4, [%a4]'', ''st.w [%a4], %d4'', ''and %d4, %d5'', ''or %d4, %d5'']"

definition PKG :: "nat list" where "PKG = [1, 10]"

definition package_item :: "nat \<Rightarrow> string" where
  "package_item i = INSTRUCTIONS ! (i mod length INSTRUCTIONS)"

definition make_pkg :: "nat \<Rightarrow> string" where
  "make_pkg n = fold (\<lambda>i s. (if i \<noteq> 0 then s @ ''; '' else s) @ package_item i) [0..<n] []"

subsection \<open>The timing loop\<close>

text \<open>\<open>fn\<close> is the measured call, \<open>None\<close> when it throws. The loop may run forever (when the clock
  stands), so its result is a partial function; \<open>Some None\<close> is an exception.\<close>

fun run_times :: "nat \<Rightarrow> ('s \<Rightarrow> 's option) \<Rightarrow> 's \<Rightarrow> 's option" where
  "run_times 0 fn s = Some s"
| "run_times (Suc n) fn s = (case fn s of None \<Rightarrow> None | Some s' \<Rightarrow> run_times n fn s')"

partial_function (option) run_loop ::
    "('s \<Rightarrow> 's option) \<Rightarrow> ('c \<Rightarrow> real \<times> 'c) \<Rightarrow> real \<Rightarrow> real \<Rightarrow> nat \<Rightarrow> 's \<Rightarrow> 'c \<Rightarrow> (nat \<times> real \<times> 's \<times> 'c) option option" where
  "run_loop fn now secs t0 cnt s c =
     (case run_times 10 fn s of
        None \<Rightarrow> Some None
      | Some s' \<Rightarrow>
          let (t, c') = now c; e = t - t0
          in if secs \<le> e then Some (Some (cnt + 10, e, s', c'))
             else run_loop fn now secs t0 (cnt + 10) s' c')"

definition run_for ::
    "('s \<Rightarrow> 's option) \<Rightarrow> ('c \<Rightarrow> real \<times> 'c) \<Rightarrow> real \<Rightarrow> 's \<Rightarrow> 'c \<Rightarrow> (nat \<times> real \<times> 's \<times> 'c) option option" where
  "run_for fn now secs s c =
     (case run_times 3 fn s of
        None \<Rightarrow> Some None
      | Some s' \<Rightarrow> let (t0, c') = now c in run_loop fn now secs t0 0 s' c')"

subsection \<open>The program\<close>

text \<open>A measured call of the library, whose result is thrown away.\<close>

definition measured :: "('s \<Rightarrow> 'r cxx \<times> 's) \<Rightarrow> 's \<Rightarrow> 's option" where
  "measured f s = (case f s of (Throws _, _) \<Rightarrow> None | (Returns _, s') \<Rightarrow> Some s')"

text \<open>The loop over the packages; the result is \<open>None\<close> when a measurement does not end.\<close>

fun measure_packages ::
    "'s cxx_api \<Rightarrow> (nat \<Rightarrow> real \<Rightarrow> nat \<Rightarrow> string) \<Rightarrow> ('c \<Rightarrow> real \<times> 'c) \<Rightarrow> real \<Rightarrow> nat list \<Rightarrow> string \<Rightarrow> string \<Rightarrow> 's \<Rightarrow> 'c
      \<Rightarrow> exit option" where
  "measure_packages api rate now secs [] out err s c = Some (Exited out err 0)"
| "measure_packages api rate now secs (pkg # pkgs) out err s c =
     (case x_assemble api (make_pkg pkg) 0 [] s of
        (Throws _, _) \<Rightarrow> Some Terminated
      | (Returns (Inl msg), s1) \<Rightarrow>
          measure_packages api rate now secs pkgs out
            (err @ line (''  [skip pkg='' @ decimal pkg @ ''] assemble failed: '' @ msg)) s1 c
      | (Returns (Inr bs), s1) \<Rightarrow>
          (case run_for (measured (x_assemble api (make_pkg pkg) 0 [])) now secs s1 c of
             None \<Rightarrow> None
           | Some None \<Rightarrow> Some Terminated
           | Some (Some (n1, e1, s2, c2)) \<Rightarrow>
               (case run_for (measured (x_disassemble_to_instructions api bs 0 0)) now secs s2 c2 of
                  None \<Rightarrow> None
                | Some None \<Rightarrow> Some Terminated
                | Some (Some (n2, e2, s3, c3)) \<Rightarrow>
                    measure_packages api rate now secs pkgs
                      (out @ line (''  Package '' @ decimal pkg @ '' ('' @ decimal pkg @ '' insns, '' @
                           decimal (length bs) @ '' bytes)'') @
                         line (''    assemble   : '' @ rate n1 e1 1 @ '' ops/s   '' @ rate n1 e1 pkg @ '' insns/s'') @
                         line (''    disassemble: '' @ rate n2 e2 1 @ '' ops/s   '' @ rate n2 e2 pkg @ '' insns/s''))
                      err s3 c3)))"

definition bench_main ::
    "'s cxx_api \<Rightarrow> (nat \<Rightarrow> real \<Rightarrow> nat \<Rightarrow> string) \<Rightarrow> ('c \<Rightarrow> real \<times> 'c) \<Rightarrow> (real \<times> string) option \<Rightarrow> 's \<Rightarrow> 'c \<Rightarrow> exit option" where
  "bench_main api rate now arg s c =
     (let (secs, shown_secs) = (case arg of Some x \<Rightarrow> x | None \<Rightarrow> (1, ''1''))
      in case x_create api s of
           (Throws _, _) \<Rightarrow> Some Terminated
         | (Returns (Inl msg), _) \<Rightarrow> Some (Exited [] (line (''NyxstoneTricoreGCC::create failed: '' @ msg)) 1)
         | (Returns (Inr _), s0) \<Rightarrow>
             measure_packages api rate now secs PKG
               (line (''NyxstoneTricoreGCC bench (target '' @ shown_secs @ ''s/measurement)'')) [] s0 c)"

subsection \<open>What is measured\<close>

text \<open>A measurement ends if the clock advances by some \<open>step > 0\<close> at each reading.\<close>

definition advances :: "real \<Rightarrow> ('c \<Rightarrow> real \<times> 'c) \<Rightarrow> bool" where
  "advances step now \<longleftrightarrow> 0 < step \<and> (\<forall>c. fst (now c) + step \<le> fst (now (snd (now c))))"

lemma run_loop_ends:
  "advances step now \<Longrightarrow> secs + t0 \<le> fst (now c) + of_nat k * step \<Longrightarrow> run_loop fn now secs t0 cnt s c \<noteq> None"
proof (induction k arbitrary: cnt s c)
  case (Suc k)
  obtain t c' where now: "now c = (t, c')" by fastforce
  have "secs + t0 \<le> fst (now c') + of_nat k * step"
    using Suc.prems now unfolding advances_def by (auto simp: algebra_simps dest: spec [of _ c])
  then show ?case
    using Suc.IH [OF Suc.prems(1)] by (subst run_loop.simps) (simp add: now Let_def split: option.split)
qed (subst run_loop.simps, auto simp: Let_def split: option.split prod.split)

lemma run_for_ends:
  assumes "advances step now"
  shows "run_for fn now secs s c \<noteq> None"
proof -
  obtain t0 c' where now: "now c = (t0, c')" by fastforce
  have "0 < step" using assms by (simp add: advances_def)
  then obtain k where "secs + t0 - fst (now c') < of_nat k * step" using reals_Archimedean3 by blast
  then show ?thesis
    using run_loop_ends [OF assms, of secs t0 c' k] by (auto simp: run_for_def now split: option.split)
qed

text \<open>A package of \<open>n\<close> instructions is handed to gas as \<open>n\<close> instructions, one by one: the texts of the
  table have no character that the scanners stop at.\<close>

definition plain_instruction :: "string \<Rightarrow> bool" where
  "plain_instruction t \<longleftrightarrow> (\<forall>c \<in> set t. tame c) \<and> t \<noteq> [] \<and> hd t \<noteq> CHR ''.'' \<and> c_str t = t \<and>
     statement_text t = t \<and> statement_text (CHR '' '' # t) = t \<and>
     (dropWhile label_char t = [] \<or> hd (dropWhile label_char t) \<noteq> CHR '':'')"

lemma items_plain: "plain_instruction (package_item i)"
proof -
  have "list_all plain_instruction INSTRUCTIONS"
    by (simp add: INSTRUCTIONS_def plain_instruction_def tame_def statement_text_def strip_comment_def isspace_def
        label_char_def char_class_defs c_str_def rtrim_def)
  then show ?thesis
    unfolding package_item_def list_all_iff by (metis INSTRUCTIONS_def length_greater_0_conv list.discI mod_less_divisor nth_mem)
qed

lemma plain_processed:
  assumes "plain_instruction t" "raw = t \<or> raw = CHR '' '' # t"
  shows "process gl raw st = on_gas (g_md_assemble gl t) st"
proof -
  have "strip_labels gl t st = (t, st)" using assms(1) by (subst strip_labels.simps) (auto simp: plain_instruction_def Let_def)
  then show ?thesis using assms by (auto simp: process_def dispatch_def plain_instruction_def Let_def)
qed

text \<open>The statements of a package, the ones behind a separator with a blank in front.\<close>

definition package_statement :: "nat \<Rightarrow> string" where
  "package_statement i = (if i = 0 then package_item i else CHR '' '' # package_item i)"

lemma make_pkg_Suc: "make_pkg (Suc n) = (if n = 0 then [] else make_pkg n @ '';'') @ package_statement n"
  by (simp add: make_pkg_def package_statement_def)

lemma statement_clean:
  "skips_tame stop \<Longrightarrow> clean stop t False (package_statement i @ q) = clean stop t False q"
  by (rule clean_tame) (use items_plain [of i] in \<open>auto simp: package_statement_def plain_instruction_def tame_def\<close>)

lemma package_clean: "clean block_start t False (make_pkg n @ q) = clean block_start t False q"
proof (induction n arbitrary: q)
  case (Suc n)
  have "\<not> block_start CHR '';'' s" for s by (simp add: block_start_def)
  then show ?case using Suc by (simp add: make_pkg_Suc statement_clean scanners_skip_tame)
qed (simp add: make_pkg_def)

lemma pieces_statement: "pieces False (package_statement i @ q) = glue_on (package_statement i) (pieces False q)"
  by (rule split_at_separator) (use statement_clean [of separator_start q i "[]"] in \<open>simp add: scanners_skip_tame\<close>)

lemma package_pieces: "pieces False (make_pkg (Suc n) @ q) = map package_statement [0..<n] @ glue_on (package_statement n) (pieces False q)"
proof (induction n arbitrary: q)
  case 0
  then show ?case by (simp add: make_pkg_Suc pieces_statement)
next
  case (Suc n)
  have "pieces False (make_pkg (Suc (Suc n)) @ q) = pieces False (make_pkg (Suc n) @ CHR '';'' # package_statement (Suc n) @ q)"
    by (simp add: make_pkg_Suc [of "Suc n"])
  also have "\<dots> = map package_statement [0..<n] @ glue_on (package_statement n) ([] # glue_on (package_statement (Suc n)) (pieces False q))"
    using Suc.IH [of "CHR '';'' # package_statement (Suc n) @ q"] by (simp add: is_separator_def pieces_statement)
  finally show ?case by simp
qed

text \<open>A package of \<open>n\<close> instructions is handed to gas as \<open>n\<close> instructions of the table, in order and nothing
  else, on any glue: the rates per instruction that \<open>main\<close> prints count what they should.\<close>

theorem packages_are_instructions:
  "parse_source gl (make_pkg n) st = fold (\<lambda>i. on_gas (g_md_assemble gl (package_item i))) [0..<n] st"
proof (cases n)
  case 0
  then show ?thesis by (simp add: make_pkg_def parse_source_def strip_block_comments_def split_statements_def)
next
  case (Suc k)
  have "strip_block_comments (make_pkg n) = make_pkg n"
    using package_clean [of "[]" n "[]"] block_scan.clean_prefix [of "[]" False "make_pkg n"] by (simp add: strip_block_comments_def)
  moreover have "split_statements (make_pkg n) = map package_statement [0..<n]"
    using package_pieces [of k "[]"] Suc
    using items_plain [of 0] by (auto simp: split_statements_pieces drop_last_empty_def package_statement_def plain_instruction_def)
  moreover have "process gl (package_statement i) = on_gas (g_md_assemble gl (package_item i))" for i
    by (rule ext, rule plain_processed [OF items_plain]) (simp add: package_statement_def)
  ultimately show ?thesis by (simp add: parse_source_def fold_map o_def)
qed

end
