(* ===== verification/Expected.thy ===== *)
theory Expected
  imports Prelude
begin

text \<open>
  The result type of the library, \<^verbatim>\<open>src/include/nyxstone/expected.hpp\<close>: an
  \<open>expected<T, E>\<close> holds a value or an error in one piece of storage and tracks with a flag which
  of the two it is. The theory models the storage with the lifetimes of the objects in it. \<open>T\<close> and
  \<open>E\<close> are parameters, given by their special members; each of those may throw. An operation ends
  normally, with an exception, in \<open>std::terminate\<close> (an exception leaves a \<open>noexcept\<close> function, or
  an assertion fails), or it uses an object outside its lifetime, which C++ leaves undefined.
\<close>

subsection \<open>Outcomes\<close>

datatype ('x, 'a) outcome = Done 'a | Raised 'x | Terminate | Undefined

fun bind_out :: "('x, 'a) outcome \<Rightarrow> ('a \<Rightarrow> ('x, 'b) outcome) \<Rightarrow> ('x, 'b) outcome" where
  "bind_out (Done a) f = f a"
| "bind_out (Raised x) f = Raised x"
| "bind_out Terminate f = Terminate"
| "bind_out Undefined f = Undefined"

text \<open>\<open>try\<close> and \<open>catch (...)\<close>; a \<open>noexcept\<close> function; the exception of a part of the state as one
  of the whole.\<close>

fun catch_out :: "('x, 'a) outcome \<Rightarrow> ('x \<Rightarrow> ('y, 'a) outcome) \<Rightarrow> ('y, 'a) outcome" where
  "catch_out (Raised x) h = h x"
| "catch_out (Done a) h = Done a"
| "catch_out Terminate h = Terminate"
| "catch_out Undefined h = Undefined"

definition no_except :: "('x, 'a) outcome \<Rightarrow> ('y, 'a) outcome" where
  "no_except m = catch_out m (\<lambda>_. Terminate)"

definition raise_as :: "('x \<Rightarrow> 'y) \<Rightarrow> ('x, 'a) outcome \<Rightarrow> ('y, 'a) outcome" where
  "raise_as h m = catch_out m (\<lambda>x. Raised (h x))"

lemma no_except_simps [simp]:
  "no_except (Done a) = Done a" "no_except (Raised x) = Terminate"
  "no_except Terminate = Terminate" "no_except Undefined = Undefined"
  by (simp_all add: no_except_def)

lemma raise_as_simps [simp]:
  "raise_as h (Done a) = Done a" "raise_as h (Raised x) = Raised (h x)"
  "raise_as h Terminate = Terminate" "raise_as h Undefined = Undefined"
  by (simp_all add: raise_as_def)

text \<open>A constructor that throws leaves the state it was called in.\<close>

definition or_raise :: "'a option \<Rightarrow> 'x \<Rightarrow> ('x, 'a) outcome" where
  "or_raise c x = (case c of None \<Rightarrow> Raised x | Some a \<Rightarrow> Done a)"

lemma or_raise_simps [simp]: "or_raise None x = Raised x" "or_raise (Some a) x = Done a"
  by (simp_all add: or_raise_def)

subsection \<open>Class types and storage\<close>

text \<open>The special members of a class: what a copy or move constructor makes (\<open>None\<close> when it
  throws) and what a move leaves in its source; the target and the source after an assignment or a
  swap and whether it threw (\<open>exchange\<close> is the \<open>swap\<close> that argument lookup finds for \<open>T\<close>); and the two traits the overloads are chosen by.\<close>

record 'c class_type =
  copy_new :: "'c \<Rightarrow> 'c option"
  move_new :: "'c \<Rightarrow> 'c option \<times> 'c"
  copy_into :: "'c \<Rightarrow> 'c \<Rightarrow> 'c \<times> bool"
  move_into :: "'c \<Rightarrow> 'c \<Rightarrow> ('c \<times> 'c) \<times> bool"
  exchange :: "'c \<Rightarrow> 'c \<Rightarrow> ('c \<times> 'c) \<times> bool"
  nothrow_copy :: bool
  nothrow_move :: bool

text \<open>The union with its live member, the flag, and (for the proofs) how many live objects lost
  their storage without a destructor call.\<close>

datatype ('t, 'e) slot = Val 't | Err 'e | No_init

record ('t, 'e) expected =
  slot :: "('t, 'e) slot"
  m_has_val :: bool
  lost :: nat

definition live :: "('t, 'e) slot \<Rightarrow> nat" where
  "live u = (case u of No_init \<Rightarrow> 0 | _ \<Rightarrow> 1)"

text \<open>Lifetime rules: reading or destroying a member needs it alive; placement \<open>new\<close> starts a
  lifetime.\<close>

definition the_val :: "('t, 'e) expected \<Rightarrow> ('x, 't) outcome" where
  "the_val s = (case slot s of Val v \<Rightarrow> Done v | _ \<Rightarrow> Undefined)"

definition the_err :: "('t, 'e) expected \<Rightarrow> ('x, 'e) outcome" where
  "the_err s = (case slot s of Err e \<Rightarrow> Done e | _ \<Rightarrow> Undefined)"

definition end_val :: "('t, 'e) expected \<Rightarrow> ('x, ('t, 'e) expected) outcome" where
  "end_val s = bind_out (the_val s) (\<lambda>_. Done (s\<lparr>slot := No_init\<rparr>))"

definition end_err :: "('t, 'e) expected \<Rightarrow> ('x, ('t, 'e) expected) outcome" where
  "end_err s = bind_out (the_err s) (\<lambda>_. Done (s\<lparr>slot := No_init\<rparr>))"

definition new_val :: "'t \<Rightarrow> ('t, 'e) expected \<Rightarrow> ('t, 'e) expected" where
  "new_val v s = s\<lparr>slot := Val v, lost := lost s + live (slot s)\<rparr>"

definition new_err :: "'e \<Rightarrow> ('t, 'e) expected \<Rightarrow> ('t, 'e) expected" where
  "new_err e s = s\<lparr>slot := Err e, lost := lost s + live (slot s)\<rparr>"

text \<open>\<open>std::move(val())\<close> and \<open>std::move(err())\<close> as the source of a construction; assignment to
  the members.\<close>

definition move_val :: "'t class_type \<Rightarrow> ('t, 'e) expected
    \<Rightarrow> (('t, 'e) expected, 't \<times> ('t, 'e) expected) outcome" where
  "move_val T s = bind_out (the_val s) (\<lambda>v.
     let (c, v') = move_new T v; s' = s\<lparr>slot := Val v'\<rparr>
     in bind_out (or_raise c s') (\<lambda>t. Done (t, s')))"

definition move_err :: "'e class_type \<Rightarrow> ('t, 'e) expected
    \<Rightarrow> (('t, 'e) expected, 'e \<times> ('t, 'e) expected) outcome" where
  "move_err E s = bind_out (the_err s) (\<lambda>e.
     let (c, e') = move_new E e; s' = s\<lparr>slot := Err e'\<rparr>
     in bind_out (or_raise c s') (\<lambda>t. Done (t, s')))"

definition set_val :: "('t \<Rightarrow> 't \<times> bool) \<Rightarrow> ('t, 'e) expected
    \<Rightarrow> (('t, 'e) expected, ('t, 'e) expected) outcome" where
  "set_val a s = bind_out (the_val s) (\<lambda>d.
     let (d', threw) = a d; s' = s\<lparr>slot := Val d'\<rparr> in if threw then Raised s' else Done s')"

definition set_err :: "('e \<Rightarrow> 'e \<times> bool) \<Rightarrow> ('t, 'e) expected
    \<Rightarrow> (('t, 'e) expected, ('t, 'e) expected) outcome" where
  "set_err a s = bind_out (the_err s) (\<lambda>d.
     let (d', threw) = a d; s' = s\<lparr>slot := Err d'\<rparr> in if threw then Raised s' else Done s')"

text \<open>Assignment from a temporary, whose remains nobody looks at.\<close>

definition from_temp :: "'c class_type \<Rightarrow> 'c \<Rightarrow> 'c \<Rightarrow> 'c \<times> bool" where
  "from_temp C t d = (fst (fst (move_into C d t)), snd (move_into C d t))"

lemmas lifetime_defs = the_val_def the_err_def end_val_def end_err_def new_val_def new_err_def
  move_val_def move_err_def set_val_def set_err_def from_temp_def live_def

subsection \<open>\<open>expected_storage_base\<close>\<close>

definition storage_default :: "'t \<Rightarrow> ('t, 'e) expected" where
  "storage_default d = \<lparr>slot = Val d, m_has_val = True, lost = 0\<rparr>"

definition storage_no_init :: "('t, 'e) expected" where
  "storage_no_init = \<lparr>slot = No_init, m_has_val = False, lost = 0\<rparr>"

definition storage_in_place :: "'t \<Rightarrow> ('t, 'e) expected" where
  "storage_in_place v = \<lparr>slot = Val v, m_has_val = True, lost = 0\<rparr>"

definition storage_unexpect :: "'e \<Rightarrow> ('t, 'e) expected" where
  "storage_unexpect e = \<lparr>slot = Err e, m_has_val = False, lost = 0\<rparr>"

definition storage_destructor :: "('t, 'e) expected \<Rightarrow> ('x, ('t, 'e) expected) outcome" where
  "storage_destructor s = (if m_has_val s then end_val s else end_err s)"

text \<open>The specialisations whose \<open>T\<close> or \<open>E\<close> needs no destructor call.\<close>

definition storage_destructor_T_trivial :: "('t, 'e) expected \<Rightarrow> ('x, ('t, 'e) expected) outcome" where
  "storage_destructor_T_trivial s = (if \<not> m_has_val s then end_err s else Done s)"

definition storage_destructor_E_trivial :: "('t, 'e) expected \<Rightarrow> ('x, ('t, 'e) expected) outcome" where
  "storage_destructor_E_trivial s = (if m_has_val s then end_val s else Done s)"

definition storage_destructor_void :: "(unit, 'e) expected \<Rightarrow> ('x, (unit, 'e) expected) outcome" where
  "storage_destructor_void s = (if \<not> m_has_val s then end_err s else Done s)"

text \<open>\<open>expected<void, E>\<close> keeps no value object; its \<open>m_dummy\<close> is a \<open>char\<close>.\<close>

definition storage_default_void :: "(unit, 'e) expected" where
  "storage_default_void = \<lparr>slot = No_init, m_has_val = True, lost = 0\<rparr>"

definition storage_unexpect_void :: "'e \<Rightarrow> (unit, 'e) expected" where
  "storage_unexpect_void e = \<lparr>slot = Err e, m_has_val = False, lost = 0\<rparr>"

lemmas storage_defs = storage_default_def storage_no_init_def storage_in_place_def
  storage_unexpect_def storage_default_void_def storage_unexpect_void_def

subsection \<open>\<open>expected_operations_base\<close>\<close>

text \<open>\<open>construct\<close> and \<open>construct_with\<close> differ in how they get the argument of the constructor. Both
  are \<open>noexcept\<close>, so a constructor that throws ends the program.\<close>

definition construct :: "'t option \<Rightarrow> ('t, 'e) expected \<Rightarrow> ('x, ('t, 'e) expected) outcome" where
  "construct c s = no_except
     (bind_out (or_raise c s) (\<lambda>v. Done ((new_val v s)\<lparr>m_has_val := True\<rparr>)))"

definition construct_error :: "'e option \<Rightarrow> ('t, 'e) expected \<Rightarrow> ('x, ('t, 'e) expected) outcome" where
  "construct_error c s = no_except
     (bind_out (or_raise c s) (\<lambda>e. Done ((new_err e s)\<lparr>m_has_val := False\<rparr>)))"

text \<open>Construction from a moved source: \<open>construct(std::move(rhs).get())\<close> and
  \<open>construct_error(std::move(rhs).geterr())\<close>, on the pair of \<open>*this\<close> and \<open>rhs\<close>.\<close>

definition construct_moved :: "'t class_type \<Rightarrow> ('t, 'e) expected \<times> ('t, 'e) expected
    \<Rightarrow> ('x, ('t, 'e) expected \<times> ('t, 'e) expected) outcome" where
  "construct_moved T = (\<lambda>(l, r). bind_out (the_val r) (\<lambda>v.
     let (c, v') = move_new T v
     in bind_out (construct c l) (\<lambda>l'. Done (l', r\<lparr>slot := Val v'\<rparr>))))"

definition construct_error_moved :: "'e class_type \<Rightarrow> ('t, 'e) expected \<times> ('t, 'e) expected
    \<Rightarrow> ('x, ('t, 'e) expected \<times> ('t, 'e) expected) outcome" where
  "construct_error_moved E = (\<lambda>(l, r). bind_out (the_err r) (\<lambda>e.
     let (c, e') = move_new E e
     in bind_out (construct_error c l) (\<lambda>l'. Done (l', r\<lparr>slot := Err e'\<rparr>))))"


subsection \<open>Copy and move assignment\<close>

text \<open>\<open>assign_common\<close> for an lvalue and for an rvalue.\<close>

definition assign_common_copy :: "'t class_type \<Rightarrow> 'e class_type \<Rightarrow> ('t, 'e) expected
    \<Rightarrow> ('t, 'e) expected \<Rightarrow> (('t, 'e) expected, ('t, 'e) expected) outcome" where
  "assign_common_copy T E r l =
     (if m_has_val l then
        if m_has_val r then bind_out (the_val r) (\<lambda>v. set_val (\<lambda>d. copy_into T d v) l)
        else bind_out (end_val l) (\<lambda>l. bind_out (the_err r) (\<lambda>e. construct_error (copy_new E e) l))
      else if \<not> m_has_val r then bind_out (the_err r) (\<lambda>e. set_err (\<lambda>d. copy_into E d e) l)
      else Done l)"

definition assign_common_move :: "'t class_type \<Rightarrow> 'e class_type \<Rightarrow> ('t, 'e) expected \<times> ('t, 'e) expected
    \<Rightarrow> (('t, 'e) expected \<times> ('t, 'e) expected, ('t, 'e) expected \<times> ('t, 'e) expected) outcome" where
  "assign_common_move T E = (\<lambda>(l, r).
     if m_has_val l then
       if m_has_val r then bind_out (the_val l) (\<lambda>d. bind_out (the_val r) (\<lambda>v.
         let ((d', v'), threw) = move_into T d v; s = (l\<lparr>slot := Val d'\<rparr>, r\<lparr>slot := Val v'\<rparr>)
         in if threw then Raised s else Done s))
       else bind_out (end_val l) (\<lambda>l. construct_error_moved E (l, r))
     else if \<not> m_has_val r then bind_out (the_err l) (\<lambda>d. bind_out (the_err r) (\<lambda>e.
         let ((d', e'), threw) = move_into E d e; s = (l\<lparr>slot := Err d'\<rparr>, r\<lparr>slot := Err e'\<rparr>)
         in if threw then Raised s else Done s))
     else Done (l, r))"

text \<open>The three overloads for an lvalue, by what \<open>T\<close> promises of its constructors.\<close>

definition assign_copy_in_place :: "'t class_type \<Rightarrow> 'e class_type \<Rightarrow> ('t, 'e) expected
    \<Rightarrow> ('t, 'e) expected \<Rightarrow> (('t, 'e) expected, ('t, 'e) expected) outcome" where
  "assign_copy_in_place T E r l = no_except
     (if \<not> m_has_val l \<and> m_has_val r then
        bind_out (end_err l) (\<lambda>l. bind_out (the_val r) (\<lambda>v. construct (copy_new T v) l))
      else assign_common_copy T E r l)"

definition assign_copy_then_move :: "'t class_type \<Rightarrow> 'e class_type \<Rightarrow> ('t, 'e) expected
    \<Rightarrow> ('t, 'e) expected \<Rightarrow> (('t, 'e) expected, ('t, 'e) expected) outcome" where
  "assign_copy_then_move T E r l = no_except
     (if \<not> m_has_val l \<and> m_has_val r then
        bind_out (the_val r) (\<lambda>v. bind_out (or_raise (copy_new T v) l) (\<lambda>tmp.
          bind_out (end_err l) (\<lambda>l. construct (fst (move_new T tmp)) l)))
      else assign_common_copy T E r l)"

definition assign_copy_rollback :: "'t class_type \<Rightarrow> 'e class_type \<Rightarrow> ('t, 'e) expected
    \<Rightarrow> ('t, 'e) expected \<Rightarrow> (('t, 'e) expected, ('t, 'e) expected) outcome" where
  "assign_copy_rollback T E r l =
     (if \<not> m_has_val l \<and> m_has_val r then
        bind_out (move_err E l) (\<lambda>(tmp, l). bind_out (end_err l) (\<lambda>l. bind_out (the_val r) (\<lambda>v.
          catch_out (construct (copy_new T v) l)
            (\<lambda>l. bind_out (set_err (from_temp E tmp) l) Raised))))
      else assign_common_copy T E r l)"

definition assign_copy :: "'t class_type \<Rightarrow> 'e class_type \<Rightarrow> ('t, 'e) expected
    \<Rightarrow> ('t, 'e) expected \<Rightarrow> (('t, 'e) expected, ('t, 'e) expected) outcome" where
  "assign_copy T E r l =
     (if nothrow_copy T then assign_copy_in_place T E r l
      else if nothrow_move T then assign_copy_then_move T E r l
      else assign_copy_rollback T E r l)"

text \<open>The two overloads for an rvalue.\<close>

definition assign_move_in_place :: "'t class_type \<Rightarrow> 'e class_type \<Rightarrow> ('t, 'e) expected \<times> ('t, 'e) expected
    \<Rightarrow> (('t, 'e) expected \<times> ('t, 'e) expected, ('t, 'e) expected \<times> ('t, 'e) expected) outcome" where
  "assign_move_in_place T E = (\<lambda>(l, r). no_except
     (if \<not> m_has_val l \<and> m_has_val r then bind_out (end_err l) (\<lambda>l. construct_moved T (l, r))
      else assign_common_move T E (l, r)))"

definition assign_move_rollback :: "'t class_type \<Rightarrow> 'e class_type \<Rightarrow> ('t, 'e) expected \<times> ('t, 'e) expected
    \<Rightarrow> (('t, 'e) expected \<times> ('t, 'e) expected, ('t, 'e) expected \<times> ('t, 'e) expected) outcome" where
  "assign_move_rollback T E = (\<lambda>(l, r).
     if \<not> m_has_val l \<and> m_has_val r then
       bind_out (raise_as (\<lambda>l. (l, r)) (move_err E l)) (\<lambda>(tmp, l). bind_out (end_err l) (\<lambda>l.
         catch_out (construct_moved T (l, r)) (\<lambda>(l, r).
           bind_out (raise_as (\<lambda>l. (l, r)) (set_err (from_temp E tmp) l)) (\<lambda>l. Raised (l, r)))))
     else assign_common_move T E (l, r))"

definition assign_move :: "'t class_type \<Rightarrow> 'e class_type \<Rightarrow> ('t, 'e) expected \<times> ('t, 'e) expected
    \<Rightarrow> (('t, 'e) expected \<times> ('t, 'e) expected, ('t, 'e) expected \<times> ('t, 'e) expected) outcome" where
  "assign_move T E p = (if nothrow_move T then assign_move_in_place T E p else assign_move_rollback T E p)"

subsection \<open>Copy and move construction\<close>

definition copy_construct :: "'t class_type \<Rightarrow> 'e class_type \<Rightarrow> ('t, 'e) expected
    \<Rightarrow> ('x, ('t, 'e) expected) outcome" where
  "copy_construct T E r =
     (if m_has_val r then bind_out (the_val r) (\<lambda>v. construct (copy_new T v) storage_no_init)
      else bind_out (the_err r) (\<lambda>e. construct_error (copy_new E e) storage_no_init))"

definition move_construct :: "'t class_type \<Rightarrow> 'e class_type \<Rightarrow> ('t, 'e) expected
    \<Rightarrow> ('x, ('t, 'e) expected \<times> ('t, 'e) expected) outcome" where
  "move_construct T E r =
     (if m_has_val r then construct_moved T (storage_no_init, r)
      else construct_error_moved E (storage_no_init, r))"

text \<open>Construction from an \<open>expected<U, G>\<close>: the storage is default constructed first, so it holds
  a \<open>T{}\<close> (\<open>d\<close> here), and the converted value or error is then constructed into it. \<open>toT\<close> and \<open>toE\<close>
  are the converting constructors.\<close>

definition convert_construct :: "'t \<Rightarrow> ('u \<Rightarrow> 't option) \<Rightarrow> ('g \<Rightarrow> 'e option) \<Rightarrow> ('u, 'g) expected
    \<Rightarrow> ('x, ('t, 'e) expected) outcome" where
  "convert_construct d toT toE r =
     (if m_has_val r then bind_out (the_val r) (\<lambda>v. construct (toT v) (storage_default d))
      else bind_out (the_err r) (\<lambda>e. construct_error (toE e) (storage_default d)))"

subsection \<open>\<open>expected<void, E>\<close>\<close>

definition construct_void :: "(unit, 'e) expected \<Rightarrow> (unit, 'e) expected" where
  "construct_void s = s\<lparr>m_has_val := True\<rparr>"

definition construct_error_void :: "'e option \<Rightarrow> (unit, 'e) expected \<Rightarrow> ('x, (unit, 'e) expected) outcome" where
  "construct_error_void c s = no_except
     (bind_out (or_raise c s) (\<lambda>e. Done ((new_err e s)\<lparr>m_has_val := False\<rparr>)))"

definition assign_void :: "'e class_type \<Rightarrow> (unit, 'e) expected \<Rightarrow> (unit, 'e) expected
    \<Rightarrow> ('x, (unit, 'e) expected) outcome" where
  "assign_void E r l = no_except
     (if \<not> m_has_val l then
        if m_has_val r then bind_out (end_err l) (\<lambda>l. Done (construct_void l))
        else bind_out (the_err r) (\<lambda>e. set_err (\<lambda>d. copy_into E d e) l)
      else if \<not> m_has_val r then bind_out (the_err r) (\<lambda>e. construct_error_void (copy_new E e) l)
      else Done l)"

subsection \<open>Assignment of a value or an error, \<open>emplace\<close>\<close>

text \<open>\<open>operator=(U&&)\<close>: \<open>c\<close> is what \<open>T(std::forward<U>(v))\<close> makes, \<open>a\<close> what assigning \<open>v\<close> to a \<open>T\<close>
  does. The first overload is for a constructor that is \<open>noexcept\<close>.\<close>

definition assign_value :: "'t \<Rightarrow> ('t \<Rightarrow> 't \<times> bool) \<Rightarrow> ('t, 'e) expected
    \<Rightarrow> (('t, 'e) expected, ('t, 'e) expected) outcome" where
  "assign_value v a s =
     (if m_has_val s then set_val a s
      else bind_out (end_err s) (\<lambda>s. Done ((new_val v s)\<lparr>m_has_val := True\<rparr>)))"

definition assign_value_rollback :: "'e class_type \<Rightarrow> 't option \<Rightarrow> ('t \<Rightarrow> 't \<times> bool) \<Rightarrow> ('t, 'e) expected
    \<Rightarrow> (('t, 'e) expected, ('t, 'e) expected) outcome" where
  "assign_value_rollback E c a s =
     (if m_has_val s then set_val a s
      else bind_out (move_err E s) (\<lambda>(tmp, s). bind_out (end_err s) (\<lambda>s.
        catch_out (bind_out (or_raise c s) (\<lambda>v. Done ((new_val v s)\<lparr>m_has_val := True\<rparr>)))
          (\<lambda>s. bind_out (set_err (from_temp E tmp) s) Raised))))"

definition assign_unexpected :: "'e class_type \<Rightarrow> 'e \<Rightarrow> ('t, 'e) expected
    \<Rightarrow> (('t, 'e) expected, ('t, 'e) expected) outcome" where
  "assign_unexpected E e s =
     (if \<not> m_has_val s then set_err (\<lambda>d. copy_into E d e) s
      else bind_out (end_val s) (\<lambda>s. bind_out (or_raise (copy_new E e) s) (\<lambda>e.
        Done ((new_err e s)\<lparr>m_has_val := False\<rparr>))))"

definition assign_unexpected_move :: "'e class_type \<Rightarrow> 'e \<Rightarrow> ('t, 'e) expected
    \<Rightarrow> (('t, 'e) expected, ('t, 'e) expected) outcome" where
  "assign_unexpected_move E e s = no_except
     (if \<not> m_has_val s then set_err (from_temp E e) s
      else bind_out (end_val s) (\<lambda>s. bind_out (or_raise (fst (move_new E e)) s) (\<lambda>e.
        Done ((new_err e s)\<lparr>m_has_val := False\<rparr>))))"

definition emplace :: "'t \<Rightarrow> ('t, 'e) expected \<Rightarrow> (('t, 'e) expected, ('t, 'e) expected) outcome" where
  "emplace v s =
     (if m_has_val s then bind_out (end_val s) (\<lambda>s. Done (new_val v s))
      else bind_out (end_err s) (\<lambda>s. Done (new_val v (s\<lparr>m_has_val := True\<rparr>))))"

definition emplace_rollback :: "'e class_type \<Rightarrow> 't option \<Rightarrow> ('t, 'e) expected
    \<Rightarrow> (('t, 'e) expected, ('t, 'e) expected) outcome" where
  "emplace_rollback E c s =
     (if m_has_val s then bind_out (end_val s) (\<lambda>s. bind_out (or_raise c s) (\<lambda>v. Done (new_val v s)))
      else bind_out (move_err E s) (\<lambda>(tmp, s). bind_out (end_err s) (\<lambda>s.
        catch_out (bind_out (or_raise c s) (\<lambda>v. Done ((new_val v s)\<lparr>m_has_val := True\<rparr>)))
          (\<lambda>s. bind_out (set_err (from_temp E tmp) s) Raised))))"

text \<open>\<open>emplace\<close> with an initializer list builds a temporary first when there is a value to assign to.\<close>

definition emplace_list :: "'t class_type \<Rightarrow> 't \<Rightarrow> ('t, 'e) expected
    \<Rightarrow> (('t, 'e) expected, ('t, 'e) expected) outcome" where
  "emplace_list T v s =
     (if m_has_val s then set_val (from_temp T v) s
      else bind_out (end_err s) (\<lambda>s. Done ((new_val v s)\<lparr>m_has_val := True\<rparr>)))"

definition emplace_list_rollback :: "'t class_type \<Rightarrow> 'e class_type \<Rightarrow> 't option \<Rightarrow> ('t, 'e) expected
    \<Rightarrow> (('t, 'e) expected, ('t, 'e) expected) outcome" where
  "emplace_list_rollback T E c s =
     (if m_has_val s then bind_out (or_raise c s) (\<lambda>v. set_val (from_temp T v) s)
      else bind_out (move_err E s) (\<lambda>(tmp, s). bind_out (end_err s) (\<lambda>s.
        catch_out (bind_out (or_raise c s) (\<lambda>v. Done ((new_val v s)\<lparr>m_has_val := True\<rparr>)))
          (\<lambda>s. bind_out (set_err (from_temp E tmp) s) Raised))))"


subsection \<open>\<open>swap\<close>\<close>

text \<open>All on the pair of \<open>*this\<close> and \<open>rhs\<close>, two different objects.\<close>

type_synonym ('t, 'e) two = "('t, 'e) expected \<times> ('t, 'e) expected"

definition swap_where_both_have_value :: "'t class_type \<Rightarrow> ('t, 'e) two \<Rightarrow> (('t, 'e) two, ('t, 'e) two) outcome" where
  "swap_where_both_have_value T = (\<lambda>(l, r). bind_out (the_val l) (\<lambda>v. bind_out (the_val r) (\<lambda>w.
     let ((v', w'), threw) = exchange T v w; s = (l\<lparr>slot := Val v'\<rparr>, r\<lparr>slot := Val w'\<rparr>)
     in if threw then Raised s else Done s)))"

definition swap_flags :: "('t, 'e) two \<Rightarrow> ('t, 'e) two" where
  "swap_flags = (\<lambda>(l, r). (l\<lparr>m_has_val := m_has_val r\<rparr>, r\<lparr>m_has_val := m_has_val l\<rparr>))"

definition swap_one_void :: "'e class_type \<Rightarrow> (unit, 'e) two \<Rightarrow> ((unit, 'e) two, (unit, 'e) two) outcome" where
  "swap_one_void E = (\<lambda>(l, r).
     bind_out (raise_as (Pair l) (move_err E r)) (\<lambda>(e, r).
     bind_out (end_err r) (\<lambda>r. Done (swap_flags (new_err e l, r)))))"

text \<open>The steps two of the overloads share: the error of \<open>rhs\<close> moves here, the saved value there.\<close>

definition swap_error_over :: "'t class_type \<Rightarrow> 'e class_type \<Rightarrow> 't \<Rightarrow> ('t, 'e) two
    \<Rightarrow> (('t, 'e) two, ('t, 'e) two) outcome" where
  "swap_error_over T E temp = (\<lambda>(l, r).
     bind_out (raise_as (Pair l) (move_err E r)) (\<lambda>(e, r).
     let l = new_err e l in
     bind_out (end_err r) (\<lambda>r.
     bind_out (or_raise (fst (move_new T temp)) (l, r)) (\<lambda>v. Done (swap_flags (l, new_val v r))))))"

definition swap_one_nothrow :: "'t class_type \<Rightarrow> 'e class_type \<Rightarrow> ('t, 'e) two
    \<Rightarrow> (('t, 'e) two, ('t, 'e) two) outcome" where
  "swap_one_nothrow T E = (\<lambda>(l, r). no_except
     (bind_out (raise_as (\<lambda>l. (l, r)) (move_val T l)) (\<lambda>(temp, l).
      bind_out (end_val l) (\<lambda>l. swap_error_over T E temp (l, r)))))"

definition swap_one_e_can_throw :: "'t class_type \<Rightarrow> 'e class_type \<Rightarrow> ('t, 'e) two
    \<Rightarrow> (('t, 'e) two, ('t, 'e) two) outcome" where
  "swap_one_e_can_throw T E = (\<lambda>(l, r).
     bind_out (raise_as (\<lambda>l. (l, r)) (move_val T l)) (\<lambda>(temp, l).
     bind_out (end_val l) (\<lambda>l.
     catch_out (swap_error_over T E temp (l, r)) (\<lambda>(l, r).
       bind_out (raise_as (\<lambda>l. (l, r)) (set_val (from_temp T temp) l)) (\<lambda>l. Raised (l, r))))))"

definition swap_one_t_can_throw :: "'t class_type \<Rightarrow> 'e class_type \<Rightarrow> ('t, 'e) two
    \<Rightarrow> (('t, 'e) two, ('t, 'e) two) outcome" where
  "swap_one_t_can_throw T E = (\<lambda>(l, r).
     bind_out (raise_as (Pair l) (move_err E r)) (\<lambda>(temp, r).
     bind_out (end_err r) (\<lambda>r.
     catch_out
       (bind_out (raise_as (\<lambda>l. (l, r)) (move_val T l)) (\<lambda>(v, l).
        let r = new_val v r in
        bind_out (end_val l) (\<lambda>l.
        bind_out (or_raise (fst (move_new E temp)) (l, r)) (\<lambda>e. Done (swap_flags (new_err e l, r))))))
       (\<lambda>(l, r). bind_out (raise_as (Pair l) (set_err (from_temp E temp) r)) (\<lambda>r. Raised (l, r))))))"

text \<open>\<open>swap\<close> takes part in overload resolution only when one of the two moves cannot throw, so that
  the last case has a promise of \<open>E\<close>.\<close>

definition swap_where_only_one_has_value :: "'t class_type \<Rightarrow> 'e class_type \<Rightarrow> ('t, 'e) two
    \<Rightarrow> (('t, 'e) two, ('t, 'e) two) outcome" where
  "swap_where_only_one_has_value T E p =
     (if nothrow_move T then if nothrow_move E then swap_one_nothrow T E p else swap_one_e_can_throw T E p
      else swap_one_t_can_throw T E p)"

text \<open>Two errors are exchanged by \<open>std::swap\<close> on the \<open>unexpected\<close> wrappers: three moves.\<close>

definition swap_errors :: "'e class_type \<Rightarrow> ('t, 'e) two \<Rightarrow> (('t, 'e) two, ('t, 'e) two) outcome" where
  "swap_errors E = (\<lambda>(l, r).
     bind_out (raise_as (\<lambda>l. (l, r)) (move_err E l)) (\<lambda>(tmp, l).
     bind_out (the_err l) (\<lambda>d. bind_out (the_err r) (\<lambda>e.
       let ((d', e'), threw) = move_into E d e; l = l\<lparr>slot := Err d'\<rparr>; r = r\<lparr>slot := Err e'\<rparr>
       in if threw then Raised (l, r)
          else bind_out (raise_as (Pair l) (set_err (from_temp E tmp) r)) (\<lambda>r. Done (l, r))))))"

text \<open>The member \<open>swap\<close>. Its second case calls itself with the roles exchanged, once.\<close>

definition exchanged :: "('t, 'e) two \<Rightarrow> ('t, 'e) two" where
  "exchanged = (\<lambda>(l, r). (r, l))"

function swap_expected :: "'t class_type \<Rightarrow> 'e class_type \<Rightarrow> ('t, 'e) two
    \<Rightarrow> (('t, 'e) two, ('t, 'e) two) outcome" where
  "swap_expected T E (l, r) =
     (if m_has_val l \<and> m_has_val r then swap_where_both_have_value T (l, r)
      else if \<not> m_has_val l \<and> m_has_val r then
        bind_out (raise_as exchanged (swap_expected T E (r, l))) (\<lambda>p. Done (exchanged p))
      else if m_has_val l then swap_where_only_one_has_value T E (l, r)
      else swap_errors E (l, r))"
  by pat_completeness auto
termination
  by (relation "measure (\<lambda>(T, E, l, r). if m_has_val l then 0 else 1)") auto

declare swap_expected.simps [simp del]

subsection \<open>Observers\<close>

text \<open>\<open>operator*\<close>, \<open>operator->\<close> and \<open>error\<close> assert the state first. \<open>value\<close> throws a
  \<open>bad_expected_access\<close> with a copy of the error instead; \<open>None\<close> is the exception of that copy.\<close>

definition deref :: "('t, 'e) expected \<Rightarrow> ('x, 't) outcome" where
  "deref s = (if m_has_val s then the_val s else Terminate)"

definition error_of :: "('t, 'e) expected \<Rightarrow> ('x, 'e) outcome" where
  "error_of s = (if \<not> m_has_val s then the_err s else Terminate)"

definition value_of :: "'e class_type \<Rightarrow> ('t, 'e) expected \<Rightarrow> ('e option, 't) outcome" where
  "value_of E s = (if \<not> m_has_val s then bind_out (the_err s) (\<lambda>e. Raised (copy_new E e)) else the_val s)"

definition value_or :: "'t class_type \<Rightarrow> 't option \<Rightarrow> ('t, 'e) expected \<Rightarrow> (unit, 't) outcome" where
  "value_or T v s = (if m_has_val s then bind_out (deref s) (\<lambda>t. or_raise (copy_new T t) ()) else or_raise v ())"

definition error_or :: "'e class_type \<Rightarrow> 'e option \<Rightarrow> ('t, 'e) expected \<Rightarrow> (unit, 'e) outcome" where
  "error_or E v s = (if \<not> m_has_val s then bind_out (error_of s) (\<lambda>e. or_raise (copy_new E e) ()) else or_raise v ())"

subsection \<open>Functional operations\<close>

text \<open>Called on an lvalue, so that values and errors are copied into the result. A function argument
  gives an outcome of its own and is modelled by its result.\<close>

definition copied_error :: "'e class_type \<Rightarrow> ('t, 'e) expected \<Rightarrow> (unit, ('u, 'e) expected) outcome" where
  "copied_error E s = bind_out (error_of s) (\<lambda>e.
     bind_out (or_raise (copy_new E e) ()) (\<lambda>e. Done (storage_unexpect e)))"

definition and_then_impl :: "'e class_type \<Rightarrow> ('t \<Rightarrow> (unit, ('u, 'e) expected) outcome)
    \<Rightarrow> ('t, 'e) expected \<Rightarrow> (unit, ('u, 'e) expected) outcome" where
  "and_then_impl E f s = (if m_has_val s then bind_out (deref s) f else copied_error E s)"

definition and_then_impl_void :: "'e class_type \<Rightarrow> (unit, ('u, 'e) expected) outcome
    \<Rightarrow> (unit, 'e) expected \<Rightarrow> (unit, ('u, 'e) expected) outcome" where
  "and_then_impl_void E f s = (if m_has_val s then f else copied_error E s)"

definition expected_map_impl :: "'e class_type \<Rightarrow> ('t \<Rightarrow> (unit, 'u) outcome)
    \<Rightarrow> ('t, 'e) expected \<Rightarrow> (unit, ('u, 'e) expected) outcome" where
  "expected_map_impl E f s =
     (if m_has_val s then bind_out (deref s) (\<lambda>v. bind_out (f v) (\<lambda>u. Done (storage_in_place u)))
      else copied_error E s)"

definition expected_map_impl_to_void :: "'e class_type \<Rightarrow> ('t \<Rightarrow> (unit, unit) outcome)
    \<Rightarrow> ('t, 'e) expected \<Rightarrow> (unit, (unit, 'e) expected) outcome" where
  "expected_map_impl_to_void E f s =
     (if m_has_val s then bind_out (deref s) (\<lambda>v. bind_out (f v) (\<lambda>_. Done storage_default_void))
      else copied_error E s)"

definition expected_map_impl_void :: "'e class_type \<Rightarrow> (unit, 'u) outcome
    \<Rightarrow> (unit, 'e) expected \<Rightarrow> (unit, ('u, 'e) expected) outcome" where
  "expected_map_impl_void E f s =
     (if m_has_val s then bind_out f (\<lambda>u. Done (storage_in_place u)) else copied_error E s)"

definition expected_map_impl_void_to_void :: "'e class_type \<Rightarrow> (unit, unit) outcome
    \<Rightarrow> (unit, 'e) expected \<Rightarrow> (unit, (unit, 'e) expected) outcome" where
  "expected_map_impl_void_to_void E f s =
     (if m_has_val s then bind_out f (\<lambda>_. Done storage_default_void) else copied_error E s)"

definition map_error_impl :: "'t class_type \<Rightarrow> ('e \<Rightarrow> (unit, 'g) outcome)
    \<Rightarrow> ('t, 'e) expected \<Rightarrow> (unit, ('t, 'g) expected) outcome" where
  "map_error_impl T f s =
     (if m_has_val s then bind_out (deref s) (\<lambda>v.
        bind_out (or_raise (copy_new T v) ()) (\<lambda>v. Done (storage_in_place v)))
      else bind_out (error_of s) (\<lambda>e. bind_out (f e) (\<lambda>g. Done (storage_unexpect g))))"

text \<open>A function without a result leaves a \<open>monostate\<close>, here \<open>()\<close>, as the error.\<close>

definition map_error_impl_to_void :: "'t class_type \<Rightarrow> ('e \<Rightarrow> (unit, unit) outcome)
    \<Rightarrow> ('t, 'e) expected \<Rightarrow> (unit, ('t, unit) expected) outcome" where
  "map_error_impl_to_void T f s =
     (if m_has_val s then bind_out (deref s) (\<lambda>v.
        bind_out (or_raise (copy_new T v) ()) (\<lambda>v. Done (storage_in_place v)))
      else bind_out (error_of s) (\<lambda>e. bind_out (f e) (\<lambda>_. Done (storage_unexpect ()))))"

definition map_error_impl_void :: "('e \<Rightarrow> (unit, 'g) outcome)
    \<Rightarrow> (unit, 'e) expected \<Rightarrow> (unit, (unit, 'g) expected) outcome" where
  "map_error_impl_void f s =
     (if m_has_val s then Done storage_default_void
      else bind_out (error_of s) (\<lambda>e. bind_out (f e) (\<lambda>g. Done (storage_unexpect_void g))))"

definition or_else_impl :: "'t class_type \<Rightarrow> 'e class_type \<Rightarrow> ('e \<Rightarrow> (unit, ('t, 'e) expected) outcome)
    \<Rightarrow> ('t, 'e) expected \<Rightarrow> (unit, ('t, 'e) expected) outcome" where
  "or_else_impl T E f s =
     (if m_has_val s then copy_construct T E s else bind_out (error_of s) f)"

definition or_else_impl_to_void :: "'t class_type \<Rightarrow> 'e class_type \<Rightarrow> ('e \<Rightarrow> (unit, unit) outcome)
    \<Rightarrow> ('t, 'e) expected \<Rightarrow> (unit, ('t, 'e) expected) outcome" where
  "or_else_impl_to_void T E f s =
     (if m_has_val s then copy_construct T E s
      else bind_out (error_of s) (\<lambda>e. bind_out (f e) (\<lambda>_. copy_construct T E s)))"

subsection \<open>Comparison\<close>

text \<open>The operators of the members are parameters, each that the code uses.\<close>

definition expected_eq :: "('t \<Rightarrow> 'u \<Rightarrow> bool) \<Rightarrow> ('e \<Rightarrow> 'f \<Rightarrow> bool) \<Rightarrow> ('t, 'e) expected
    \<Rightarrow> ('u, 'f) expected \<Rightarrow> ('x, bool) outcome" where
  "expected_eq eqT eqE x y =
     (if m_has_val x \<noteq> m_has_val y then Done False
      else if \<not> m_has_val x then bind_out (error_of x) (\<lambda>d. bind_out (error_of y) (\<lambda>e. Done (eqE d e)))
      else bind_out (deref x) (\<lambda>v. bind_out (deref y) (\<lambda>w. Done (eqT v w))))"

definition expected_neq :: "('t \<Rightarrow> 'u \<Rightarrow> bool) \<Rightarrow> ('e \<Rightarrow> 'f \<Rightarrow> bool) \<Rightarrow> ('t, 'e) expected
    \<Rightarrow> ('u, 'f) expected \<Rightarrow> ('x, bool) outcome" where
  "expected_neq neT neE x y =
     (if m_has_val x \<noteq> m_has_val y then Done True
      else if \<not> m_has_val x then bind_out (error_of x) (\<lambda>d. bind_out (error_of y) (\<lambda>e. Done (neE d e)))
      else bind_out (deref x) (\<lambda>v. bind_out (deref y) (\<lambda>w. Done (neT v w))))"

definition expected_eq_void :: "('e \<Rightarrow> 'f \<Rightarrow> bool) \<Rightarrow> (unit, 'e) expected \<Rightarrow> (unit, 'f) expected
    \<Rightarrow> ('x, bool) outcome" where
  "expected_eq_void eqE x y =
     (if m_has_val x \<noteq> m_has_val y then Done False
      else if \<not> m_has_val x then bind_out (error_of x) (\<lambda>d. bind_out (error_of y) (\<lambda>e. Done (eqE d e)))
      else Done True)"

definition expected_neq_void :: "('e \<Rightarrow> 'f \<Rightarrow> bool) \<Rightarrow> (unit, 'e) expected \<Rightarrow> (unit, 'f) expected
    \<Rightarrow> ('x, bool) outcome" where
  "expected_neq_void eqE x y =
     (if m_has_val x \<noteq> m_has_val y then Done True
      else if \<not> m_has_val x then bind_out (error_of x) (\<lambda>d. bind_out (error_of y) (\<lambda>e. Done (eqE d e)))
      else Done False)"

definition expected_eq_value :: "('t \<Rightarrow> 'u \<Rightarrow> bool) \<Rightarrow> ('t, 'e) expected \<Rightarrow> 'u \<Rightarrow> ('x, bool) outcome" where
  "expected_eq_value eqT x v =
     (if m_has_val x then bind_out (deref x) (\<lambda>w. Done (eqT w v)) else Done False)"

definition expected_neq_value :: "('t \<Rightarrow> 'u \<Rightarrow> bool) \<Rightarrow> ('t, 'e) expected \<Rightarrow> 'u \<Rightarrow> ('x, bool) outcome" where
  "expected_neq_value neT x v =
     (if m_has_val x then bind_out (deref x) (\<lambda>w. Done (neT w v)) else Done True)"

definition expected_eq_unexpected :: "('e \<Rightarrow> 'e \<Rightarrow> bool) \<Rightarrow> ('t, 'e) expected \<Rightarrow> 'e \<Rightarrow> ('x, bool) outcome" where
  "expected_eq_unexpected eqE x e =
     (if m_has_val x then Done False else bind_out (error_of x) (\<lambda>d. Done (eqE d e)))"

definition expected_neq_unexpected :: "('e \<Rightarrow> 'e \<Rightarrow> bool) \<Rightarrow> ('t, 'e) expected \<Rightarrow> 'e \<Rightarrow> ('x, bool) outcome" where
  "expected_neq_unexpected neE x e =
     (if m_has_val x then Done True else bind_out (error_of x) (\<lambda>d. Done (neE d e)))"

end
