(* ===== verification/Expected_Properties.thy ===== *)
theory Expected_Properties
  imports Expected
begin

text \<open>
  What \<open>expected\<close> promises. While the moves of \<open>T\<close> and \<open>E\<close> do not throw, as for every type the
  library puts into it, the storage behaves as a sum type: no sequence of member functions reads or
  destroys a dead object, none leaves a live one behind, and each has the effect on the sum that one
  expects. The promise ends where a construction in place throws: the code that should restore the
  old state then assigns to an object that has been destroyed.
\<close>

subsection \<open>Well-behaved members\<close>

text \<open>The standard's rules for a class whose move operations are \<open>noexcept\<close>: a move hands the value
  over and leaves \<open>rest\<close> behind; a copy is equal or throws.\<close>

locale value_class =
  fixes C :: "'c class_type" and rest :: "'c \<Rightarrow> 'c"
  assumes move_new: "move_new C x = (Some x, rest x)"
    and move_into: "move_into C d x = ((x, rest x), False)"
    and exchange: "exchange C x y = ((y, x), False)"
    and copy_new: "copy_new C x \<in> {None, Some x}"
    and copy_into: "copy_into C d x = (x, False) \<or> (\<exists>d'. copy_into C d x = (d', True))"
    and nothrow_move: "nothrow_move C"
    and nothrow_copy: "nothrow_copy C \<Longrightarrow> copy_new C x = Some x"
begin

lemma from_temp: "from_temp C x d = (x, False)"
  by (simp add: from_temp_def move_into)

end

locale copyable_class = value_class +
  assumes copies: "copy_new C x = Some x" and copies_into: "copy_into C d x = (x, False)"

text \<open>\<open>std::string\<close> and \<open>std::vector\<close>, the types the library's results hold: a copy needs memory, a
  move leaves the source empty.\<close>

definition container_type :: "(nat \<Rightarrow> bool) \<Rightarrow> 'a list class_type" where
  "container_type room =
     \<lparr>copy_new = (\<lambda>x. if room (length x) then Some x else None),
      move_new = (\<lambda>x. (Some x, [])),
      copy_into = (\<lambda>d x. if room (length x) then (x, False) else (d, True)),
      move_into = (\<lambda>d x. ((x, []), False)),
      exchange = (\<lambda>x y. ((y, x), False)),
      nothrow_copy = False, nothrow_move = True\<rparr>"

interpretation container: value_class "container_type room" "\<lambda>_. []" for room
  by unfold_locales (auto simp: container_type_def)

interpretation roomy: copyable_class "container_type (\<lambda>_. True)" "\<lambda>_. []"
  by unfold_locales (auto simp: container_type_def)

subsection \<open>The sum an \<open>expected\<close> stands for\<close>

definition st_of :: "'e + 't \<Rightarrow> ('t, 'e) expected" where
  "st_of x = (case x of Inl e \<Rightarrow> storage_unexpect e | Inr v \<Rightarrow> storage_in_place v)"

lemma st_of_simps [simp]:
  "slot (st_of (Inr v)) = Val v" "slot (st_of (Inl e)) = Err e"
  "m_has_val (st_of (Inr v))" "\<not> m_has_val (st_of (Inl e))" "lost (st_of x) = 0"
  by (simp_all add: st_of_def storage_defs split: sum.split)

lemma st_of_inject [simp]: "st_of x = st_of y \<longleftrightarrow> x = y"
  by (cases x; cases y) (auto simp: st_of_def storage_defs)

lemma st_of_updates [simp]:
  "(st_of (Inr w))\<lparr>slot := Val v\<rparr> = st_of (Inr v)"
  "(st_of (Inl d))\<lparr>slot := Err e\<rparr> = st_of (Inl e)"
  by (simp_all add: st_of_def storage_defs)

lemma destructor_st_of: "storage_destructor (st_of x) = Done ((st_of x)\<lparr>slot := No_init\<rparr>)"
  by (cases x) (simp_all add: storage_destructor_def lifetime_defs)

lemma new_in_dead [simp]:
  "(new_val v ((st_of x)\<lparr>slot := No_init\<rparr>))\<lparr>m_has_val := True\<rparr> = st_of (Inr v)"
  "(new_err e ((st_of x)\<lparr>slot := No_init\<rparr>))\<lparr>m_has_val := False\<rparr> = st_of (Inl e)"
  "(new_val v storage_no_init)\<lparr>m_has_val := True\<rparr> = st_of (Inr v)"
  "(new_err e storage_no_init)\<lparr>m_has_val := False\<rparr> = st_of (Inl e)"
  by (simp_all add: new_val_def new_err_def live_def st_of_def storage_defs split: sum.splits)

lemma the_st_of [simp]:
  "the_val (st_of (Inr v)) = Done v" "the_err (st_of (Inl e)) = Done e"
  "end_val (st_of (Inr v)) = Done ((st_of (Inr v))\<lparr>slot := No_init\<rparr>)"
  "end_err (st_of (Inl e)) = Done ((st_of (Inl e))\<lparr>slot := No_init\<rparr>)"
  "the_val (s\<lparr>slot := Val v\<rparr>) = Done v" "the_err (s\<lparr>slot := Err e\<rparr>) = Done e"
  "end_val (s\<lparr>slot := Val v\<rparr>) = Done (s\<lparr>slot := No_init\<rparr>)"
  "end_err (s\<lparr>slot := Err e\<rparr>) = Done (s\<lparr>slot := No_init\<rparr>)"
  by (simp_all add: the_val_def the_err_def end_val_def end_err_def)

lemma construct_dead [simp]:
  "construct c ((st_of x)\<lparr>slot := No_init\<rparr>) = (case c of None \<Rightarrow> Terminate | Some v \<Rightarrow> Done (st_of (Inr v)))"
  "construct_error k ((st_of x)\<lparr>slot := No_init\<rparr>) = (case k of None \<Rightarrow> Terminate | Some e \<Rightarrow> Done (st_of (Inl e)))"
  "construct c storage_no_init = (case c of None \<Rightarrow> Terminate | Some v \<Rightarrow> Done (st_of (Inr v)))"
  "construct_error k storage_no_init = (case k of None \<Rightarrow> Terminate | Some e \<Rightarrow> Done (st_of (Inl e)))"
  by (auto simp: construct_def construct_error_def split: option.split)


subsection \<open>Every member function on a sum\<close>

locale expected_members = T: value_class T restT + E: value_class E restE
  for T :: "'t class_type" and restT and E :: "'e class_type" and restE
begin

lemma moves [simp]:
  "move_val T (st_of (Inr v)) = Done (v, st_of (Inr (restT v)))"
  "move_err E (st_of (Inl e)) = Done (e, st_of (Inl (restE e)))"
  by (simp_all add: move_val_def move_err_def T.move_new E.move_new)

lemma sets [simp]:
  "set_val a (st_of (Inr d)) = (if snd (a d) then Raised (st_of (Inr (fst (a d)))) else Done (st_of (Inr (fst (a d)))))"
  "set_err b (st_of (Inl e)) = (if snd (b e) then Raised (st_of (Inl (fst (b e)))) else Done (st_of (Inl (fst (b e)))))"
  by (auto simp: set_val_def set_err_def Let_def split: prod.splits)

lemma copies_or_terminates:
  "no_except (set_val (\<lambda>d. copy_into T d v) (st_of (Inr d))) \<in> {Terminate, Done (st_of (Inr v))}"
  "no_except (set_err (\<lambda>d. copy_into E d e) (st_of (Inl d'))) \<in> {Terminate, Done (st_of (Inl e))}"
  using T.copy_into [of d v] E.copy_into [of d' e] by auto

lemma assign_copy_st: "assign_copy T E (st_of b) (st_of a) \<in> {Terminate, Done (st_of b)}"
proof (cases a; cases b)
  fix d e assume s: "a = Inl d" "b = Inl e"
  show ?thesis
    using copies_or_terminates(2) [of e d] T.nothrow_move
    by (simp add: s assign_copy_def assign_copy_in_place_def assign_copy_then_move_def assign_common_copy_def)
next
  fix d v assume s: "a = Inl d" "b = Inr v"
  show ?thesis
    using T.copy_new [of v] T.nothrow_move T.nothrow_copy [of v]
    by (auto simp: s assign_copy_def assign_copy_in_place_def assign_copy_then_move_def T.move_new)
next
  fix v e assume s: "a = Inr v" "b = Inl e"
  show ?thesis
    using E.copy_new [of e] T.nothrow_move
    by (auto simp: s assign_copy_def assign_copy_in_place_def assign_copy_then_move_def assign_common_copy_def)
next
  fix d v assume s: "a = Inr d" "b = Inr v"
  show ?thesis
    using copies_or_terminates(1) [of v d] T.nothrow_move
    by (simp add: s assign_copy_def assign_copy_in_place_def assign_copy_then_move_def assign_common_copy_def)
qed

lemma assign_move_st [simp]:
  "assign_move T E (st_of a, st_of b) = Done (st_of b, st_of (map_sum restE restT b))"
  by (cases a; cases b)
    (simp_all add: assign_move_def assign_move_in_place_def assign_common_move_def T.nothrow_move
      construct_moved_def construct_error_moved_def T.move_new E.move_new T.move_into E.move_into)

lemma move_construct_st:
  "move_construct T E (st_of a) = Done (st_of a, st_of (map_sum restE restT a))"
  by (cases a) (simp_all add: move_construct_def construct_moved_def construct_error_moved_def
      T.move_new E.move_new)

lemma copy_construct_st: "copy_construct T E (st_of a) \<in> {Terminate, Done (st_of a)}"
proof (cases a)
  case (Inl e)
  with E.copy_new [of e] show ?thesis by (auto simp: copy_construct_def)
next
  case (Inr v)
  with T.copy_new [of v] show ?thesis by (auto simp: copy_construct_def)
qed

lemma assign_value_st [simp]: "assign_value v (from_temp T v) (st_of a) = Done (st_of (Inr v))"
  by (cases a) (simp_all add: assign_value_def T.from_temp)

lemma assign_unexpected_move_st [simp]: "assign_unexpected_move E e (st_of a) = Done (st_of (Inl e))"
  by (cases a) (simp_all add: assign_unexpected_move_def E.from_temp E.move_new)

lemma emplace_st [simp]: "emplace v (st_of a) = Done (st_of (Inr v))"
  by (cases a)
    (simp_all add: emplace_def new_val_def live_def st_of_def storage_defs the_val_def end_val_def the_err_def end_err_def)

lemma emplace_list_st: "emplace_list T v (st_of a) = Done (st_of (Inr v))"
  by (cases a) (simp_all add: emplace_list_def T.from_temp)

lemma emplace_rollback_st:
  "emplace_rollback E (Some v) (st_of a) = Done (st_of (Inr v))"
  "emplace_list_rollback T E (Some v) (st_of a) = Done (st_of (Inr v))"
  "assign_value_rollback E (Some v) (from_temp T v) (st_of a) = Done (st_of (Inr v))"
  by (cases a; simp add: emplace_rollback_def emplace_list_rollback_def assign_value_rollback_def T.from_temp;
      simp add: new_val_def live_def st_of_def storage_defs)+

lemma swap_one_st:
  "swap_where_only_one_has_value T E (st_of (Inr v), st_of (Inl e)) = Done (st_of (Inl e), st_of (Inr v))"
  by (simp add: swap_where_only_one_has_value_def T.nothrow_move E.nothrow_move swap_one_nothrow_def
      swap_error_over_def T.move_new)
    (simp add: swap_flags_def new_val_def new_err_def live_def the_err_def end_err_def st_of_def storage_defs)

lemma swap_st [simp]: "swap_expected T E (st_of a, st_of b) = Done (st_of b, st_of a)"
proof (cases a; cases b)
  fix d e assume "a = Inl d" "b = Inl e"
  then show ?thesis
    by (simp add: swap_expected.simps swap_errors_def E.move_into E.from_temp)
next
  fix d v assume "a = Inl d" "b = Inr v"
  then show ?thesis
    by (simp add: swap_expected.simps [of T E "st_of (Inl d)"] swap_expected.simps [of T E "st_of (Inr v)"]
        swap_one_st exchanged_def)
next
  fix v e assume "a = Inr v" "b = Inl e"
  then show ?thesis by (simp add: swap_expected.simps swap_one_st)
next
  fix v w assume "a = Inr v" "b = Inr w"
  then show ?thesis
    by (simp add: swap_expected.simps swap_where_both_have_value_def T.exchange)
qed

end

interpretation results: expected_members "container_type room" "\<lambda>_. []" "container_type room'" "\<lambda>_. []"
  for room room'
  by unfold_locales


subsection \<open>Sequences of member calls\<close>

text \<open>Calls on two objects \<open>x\<close> and \<open>y\<close> of a program: \<open>x = v\<close>, \<open>x = unexpected(e)\<close>, \<open>x.emplace(v)\<close>
  with rvalues, \<open>x = y\<close>, \<open>x = std::move(y)\<close> and \<open>x.swap(y)\<close>.\<close>

datatype ('t, 'e) member_call =
  Set_value 't | Set_error 'e | Emplace 't | Copy_from | Move_from | Swap_with

fun call_member :: "'t class_type \<Rightarrow> 'e class_type \<Rightarrow> ('t, 'e) member_call \<Rightarrow> ('t, 'e) two
    \<Rightarrow> (('t, 'e) two, ('t, 'e) two) outcome" where
  "call_member T E (Set_value v) (x, y) =
     bind_out (raise_as (\<lambda>x. (x, y)) (assign_value v (from_temp T v) x)) (\<lambda>x. Done (x, y))"
| "call_member T E (Set_error e) (x, y) =
     bind_out (raise_as (\<lambda>x. (x, y)) (assign_unexpected_move E e x)) (\<lambda>x. Done (x, y))"
| "call_member T E (Emplace v) (x, y) =
     bind_out (raise_as (\<lambda>x. (x, y)) (emplace v x)) (\<lambda>x. Done (x, y))"
| "call_member T E Copy_from (x, y) =
     bind_out (raise_as (\<lambda>x. (x, y)) (assign_copy T E y x)) (\<lambda>x. Done (x, y))"
| "call_member T E Move_from (x, y) = assign_move T E (x, y)"
| "call_member T E Swap_with (x, y) = swap_expected T E (x, y)"

fun call_members :: "'t class_type \<Rightarrow> 'e class_type \<Rightarrow> ('t, 'e) member_call list \<Rightarrow> ('t, 'e) two
    \<Rightarrow> (('t, 'e) two, ('t, 'e) two) outcome" where
  "call_members T E [] p = Done p"
| "call_members T E (c # cs) p = bind_out (call_member T E c p) (call_members T E cs)"

text \<open>The same calls on sums.\<close>

fun call_spec :: "('e + 't \<Rightarrow> 'e + 't) \<Rightarrow> ('t, 'e) member_call \<Rightarrow> ('e + 't) \<times> ('e + 't) \<Rightarrow> ('e + 't) \<times> ('e + 't)" where
  "call_spec rest (Set_value v) (a, b) = (Inr v, b)"
| "call_spec rest (Set_error e) (a, b) = (Inl e, b)"
| "call_spec rest (Emplace v) (a, b) = (Inr v, b)"
| "call_spec rest Copy_from (a, b) = (b, b)"
| "call_spec rest Move_from (a, b) = (b, rest b)"
| "call_spec rest Swap_with (a, b) = (b, a)"

context expected_members
begin

abbreviation sums :: "('e + 't) \<times> ('e + 't) \<Rightarrow> ('t, 'e) two" where
  "sums \<equiv> map_prod st_of st_of"

lemma call_member_sums:
  "call_member T E c (sums p) = Done (sums (call_spec (map_sum restE restT) c p))
   \<or> call_member T E c (sums p) = Terminate \<and> c = Copy_from"
proof (cases p)
  case (Pair a b)
  then show ?thesis
    using assign_copy_st [of b a] by (cases c) auto
qed

end

text \<open>The other overloads construct the new value or error in place, from an lvalue or from any arguments:
  \<open>x = v\<close> and \<open>x = unexpected\<close> for lvalues, \<open>x.emplace(args)\<close> and \<open>x.emplace({...}, args)\<close>. For the last
  two \<open>c\<close> is what the constructor of \<open>T\<close> makes of the arguments. Which overload of \<open>x = v\<close> is picked depends on
  whether the copy constructor is \<open>noexcept\<close>.\<close>

datatype ('t, 'e) any_call =
  Basic "('t, 'e) member_call" | Copy_value 't | Copy_error 'e | Emplace_args "'t option" | Emplace_list "'t option"

fun change_first :: "'t class_type \<Rightarrow> 'e class_type \<Rightarrow> ('t, 'e) any_call \<Rightarrow> ('t, 'e) expected
    \<Rightarrow> (('t, 'e) expected, ('t, 'e) expected) outcome" where
  "change_first T E (Copy_value v) x =
     (if nothrow_copy T then assign_value v (\<lambda>d. copy_into T d v) x
      else assign_value_rollback E (copy_new T v) (\<lambda>d. copy_into T d v) x)"
| "change_first T E (Copy_error e) x = assign_unexpected E e x"
| "change_first T E (Emplace_args c) x = emplace_rollback E c x"
| "change_first T E (Emplace_list c) x = emplace_list_rollback T E c x"
| "change_first T E (Basic c) x = Done x"

fun call_any :: "'t class_type \<Rightarrow> 'e class_type \<Rightarrow> ('t, 'e) any_call \<Rightarrow> ('t, 'e) two
    \<Rightarrow> (('t, 'e) two, ('t, 'e) two) outcome" where
  "call_any T E (Basic c) p = call_member T E c p"
| "call_any T E c (x, y) = bind_out (raise_as (\<lambda>x. (x, y)) (change_first T E c x)) (\<lambda>x. Done (x, y))"

fun call_all :: "'t class_type \<Rightarrow> 'e class_type \<Rightarrow> ('t, 'e) any_call list \<Rightarrow> ('t, 'e) two
    \<Rightarrow> (('t, 'e) two, ('t, 'e) two) outcome" where
  "call_all T E [] p = Done p"
| "call_all T E (c # cs) p = bind_out (call_any T E c p) (call_all T E cs)"

text \<open>The constructors a call runs in place do not throw. The copy assignment of an error only takes part in
  overload resolution when the copies of \<open>E\<close> are \<open>noexcept\<close>.\<close>

fun constructs :: "'t class_type \<Rightarrow> 'e class_type \<Rightarrow> ('t, 'e) any_call \<Rightarrow> bool" where
  "constructs T E (Copy_value v) \<longleftrightarrow> copy_new T v \<noteq> None"
| "constructs T E (Copy_error e) \<longleftrightarrow> nothrow_copy E"
| "constructs T E (Emplace_args c) \<longleftrightarrow> c \<noteq> None"
| "constructs T E (Emplace_list c) \<longleftrightarrow> c \<noteq> None"
| "constructs T E (Basic c) \<longleftrightarrow> True"

context expected_members
begin

lemma rollback_unused:
  "assign_value_rollback E (Some v) a (st_of (Inl e)) = Done (st_of (Inr v))"
  by (simp add: assign_value_rollback_def; simp add: new_val_def live_def st_of_def storage_defs)

lemma change_first_st:
  assumes "constructs T E c"
  shows "\<exists>b. change_first T E c (st_of a) \<in> {Done (st_of b), Raised (st_of b)}"
proof (cases c)
  case (Copy_value v)
  then obtain "copy_new T v = Some v" using assms T.copy_new [of v] by auto
  then show ?thesis
  proof (cases a)
    case (Inl e)
    then show ?thesis using Copy_value \<open>copy_new T v = Some v\<close> by (auto simp: rollback_unused assign_value_def)
  next
    case (Inr d)
    have "change_first T E c (st_of a) = set_val (\<lambda>d. copy_into T d v) (st_of a)"
      using Copy_value by (simp add: Inr assign_value_def assign_value_rollback_def)
    then show ?thesis by (intro exI [of _ "Inr (fst (copy_into T d v))"]) (simp add: Inr)
  qed
next
  case (Copy_error e)
  then have "copy_new E e = Some e" using assms E.nothrow_copy by simp
  then show ?thesis using Copy_error by (cases a) (auto simp: assign_unexpected_def)
next
  case (Emplace_args k)
  then show ?thesis using assms emplace_rollback_st(1) by auto
next
  case (Emplace_list k)
  then show ?thesis using assms emplace_rollback_st(2) by auto
qed auto

lemma call_any_sums:
  assumes "constructs T E c"
  shows "(\<exists>q. call_any T E c (sums p) \<in> {Done (sums q), Raised (sums q)}) \<or>
    call_any T E c (sums p) = Terminate \<and> c = Basic Copy_from"
proof (cases "\<exists>b. c = Basic b")
  case True
  then obtain b where "c = Basic b" by blast
  then show ?thesis using call_member_sums [of b p] by (simp only: call_any.simps any_call.inject insert_iff) blast
next
  case False
  obtain a b where p: "p = (a, b)" by fastforce
  obtain a' where "change_first T E c (st_of a) \<in> {Done (st_of a'), Raised (st_of a')}"
    using change_first_st [OF assms] by blast
  then have "call_any T E c (sums p) \<in> {Done (sums (a', b)), Raised (sums (a', b))}"
    using False by (cases c) (auto simp: p)
  then show ?thesis by blast
qed

lemma call_all_sums:
  assumes "\<forall>c \<in> set cs. constructs T E c"
  shows "(\<exists>q. call_all T E cs (sums p) \<in> {Done (sums q), Raised (sums q)}) \<or>
    call_all T E cs (sums p) = Terminate \<and> Basic Copy_from \<in> set cs"
  using assms
proof (induction cs arbitrary: p)
  case (Cons c cs)
  consider q where "call_any T E c (sums p) = Done (sums q)" | q where "call_any T E c (sums p) = Raised (sums q)"
    | "call_any T E c (sums p) = Terminate" "c = Basic Copy_from"
    using call_any_sums [of c p] Cons.prems by (auto simp del: map_prod_simp)
  then show ?case
  proof cases
    case (1 q)
    then show ?thesis using Cons.IH [of q] Cons.prems by simp blast
  next
    case (2 q)
    then show ?thesis by (intro disjI1 exI [of _ q]) simp
  qed simp
next
  case Nil
  show ?case by (intro disjI1 exI [of _ p]) simp
qed

end

locale copyable_members = T: copyable_class T restT + E: copyable_class E restE
  for T :: "'t class_type" and restT and E :: "'e class_type" and restE

sublocale copyable_members \<subseteq> expected_members
  by unfold_locales

context copyable_members
begin

lemma assign_copy_done [simp]: "assign_copy T E (st_of b) (st_of a) = Done (st_of b)"
  by (cases a; cases b)
    (simp_all add: assign_copy_def assign_copy_in_place_def assign_copy_then_move_def
      assign_common_copy_def T.nothrow_move T.copies E.copies T.copies_into E.copies_into T.move_new)

lemma copy_construct_done [simp]: "copy_construct T E (st_of a) = Done (st_of a)"
  by (cases a) (simp_all add: copy_construct_def T.copies E.copies)

lemma assign_unexpected_done: "assign_unexpected E e (st_of a) = Done (st_of (Inl e))"
  by (cases a) (simp_all add: assign_unexpected_def E.copies E.copies_into)

lemma call_member_done:
  "call_member T E c (sums p) = Done (sums (call_spec (map_sum restE restT) c p))"
  by (cases p; cases c) simp_all

lemma call_members_done:
  "call_members T E cs (sums p) = Done (sums (fold (call_spec (map_sum restE restT)) cs p))"
  by (induction cs arbitrary: p) (simp_all add: call_member_done)

end

interpretation roomy_results: copyable_members "container_type (\<lambda>_. True)" "\<lambda>_. []"
    "container_type (\<lambda>_. True)" "\<lambda>_. []"
  by unfold_locales


subsection \<open>\<open>expected<void, E>\<close>\<close>

definition void_of :: "'e option \<Rightarrow> (unit, 'e) expected" where
  "void_of x = (case x of None \<Rightarrow> storage_default_void | Some e \<Rightarrow> storage_unexpect_void e)"

context copyable_class
begin

lemma assign_void_done: "assign_void C (void_of b) (void_of a) = Done (void_of b)"
  by (cases a; cases b)
    (simp_all add: assign_void_def void_of_def storage_defs end_err_def the_err_def construct_void_def
      construct_error_void_def copies set_err_def copies_into new_err_def live_def)

lemma swap_one_void_done:
  "swap_one_void C (void_of None, void_of (Some e)) = Done (void_of (Some e), void_of None)"
  by (simp add: swap_one_void_def void_of_def storage_defs move_err_def end_err_def the_err_def move_new
      swap_flags_def new_err_def live_def)

end

lemma void_maps:
  assumes "copyable_class E restE"
  shows "and_then_impl_void E f (void_of x) = (case x of None \<Rightarrow> f | Some e \<Rightarrow> Done (st_of (Inl e)))"
    "expected_map_impl_to_void E (\<lambda>v. Done ()) (st_of a)
       = Done (void_of (case a of Inl e \<Rightarrow> Some e | Inr v \<Rightarrow> None))"
    "expected_map_impl_void E (Done u) (void_of x) = Done (st_of (case x of None \<Rightarrow> Inr u | Some e \<Rightarrow> Inl e))"
    "expected_map_impl_void_to_void E (Done ()) (void_of x) = Done (void_of x)"
    "map_error_impl_void (\<lambda>e. Done (h e)) (void_of x) = Done (void_of (map_option h x))"
  by (cases x; cases a; simp add: and_then_impl_void_def expected_map_impl_to_void_def expected_map_impl_void_def
      expected_map_impl_void_to_void_def map_error_impl_void_def copied_error_def error_of_def deref_def void_of_def
      st_of_def storage_defs the_err_def the_val_def copyable_class.copies [OF assms])+

lemma specialised_destructors:
  "storage_destructor_T_trivial (st_of (Inl e)) = storage_destructor (st_of (Inl e))"
  "storage_destructor_E_trivial (st_of (Inr v)) = storage_destructor (st_of (Inr v))"
  "storage_destructor_void (void_of x) = Done ((void_of x)\<lparr>slot := No_init\<rparr>)"
  by (cases x; simp add: storage_destructor_T_trivial_def storage_destructor_E_trivial_def storage_destructor_def
      storage_destructor_void_def void_of_def storage_defs end_err_def the_err_def)+

subsection \<open>The properties\<close>

text \<open>The type invariant: the flag tells which member is alive, and no object was lost.\<close>

definition well_formed :: "('t, 'e) expected \<Rightarrow> bool" where
  "well_formed s =
     ((case slot s of Val v \<Rightarrow> m_has_val s | Err e \<Rightarrow> \<not> m_has_val s | No_init \<Rightarrow> False) \<and> lost s = 0)"

lemma well_formed_st_of [simp]: "well_formed (st_of x)"
  by (cases x) (simp_all add: well_formed_def)

lemma well_formedE:
  assumes "well_formed s"
  obtains x where "s = st_of x"
proof (cases "slot s")
  case (Val v)
  with assms have "s = st_of (Inr v)" by (simp add: well_formed_def st_of_def storage_defs)
  then show ?thesis by (rule that)
next
  case (Err e)
  with assms have "s = st_of (Inl e)" by (simp add: well_formed_def st_of_def storage_defs)
  then show ?thesis by (rule that)
next
  case No_init
  with assms show ?thesis by (simp add: well_formed_def)
qed

text \<open>C18. The storage of an \<open>expected\<close> is type safe when the moves of \<open>T\<close> and \<open>E\<close> do not throw and
  no constructor that a member runs in place throws; copy assignments may. From well-formed objects, no
  sequence of assignments, from rvalues or lvalues, of \<open>emplace\<close>s and of swaps reads, assigns or
  destroys an object outside its lifetime. Both objects stay well formed, also when an exception leaves the
  sequence, with no object lost, and their destructors end exactly the live member. Only a copy that throws
  inside the copy assignment from another \<open>expected\<close> ends the program. Constructions in place that throw
  are the subject of \<open>failed_construction_undefined\<close> below.\<close>

theorem expected_type_sound:
  assumes "value_class T restT" and "value_class E restE" and "well_formed x" and "well_formed y"
    and "\<forall>c \<in> set cs. constructs T E c"
  shows "case call_all T E cs (x, y) of
      Done (x', y') \<Rightarrow> well_formed x' \<and> well_formed y'
        \<and> storage_destructor x' = (Done (x'\<lparr>slot := No_init\<rparr>) :: (unit, _) outcome)
        \<and> storage_destructor y' = (Done (y'\<lparr>slot := No_init\<rparr>) :: (unit, _) outcome)
    | Raised (x', y') \<Rightarrow> well_formed x' \<and> well_formed y'
        \<and> storage_destructor x' = (Done (x'\<lparr>slot := No_init\<rparr>) :: (unit, _) outcome)
        \<and> storage_destructor y' = (Done (y'\<lparr>slot := No_init\<rparr>) :: (unit, _) outcome)
    | Terminate \<Rightarrow> Basic Copy_from \<in> set cs
    | Undefined \<Rightarrow> False"
proof -
  from assms(3, 4) obtain a b where st: "x = st_of a" "y = st_of b" by (metis well_formedE)
  have "expected_members T restT E restE" using assms(1, 2) by (rule expected_members.intro)
  note run = expected_members.call_all_sums [OF this assms(5), of "(a, b)"]
  then show ?thesis by (auto simp: st destructor_st_of)
qed

text \<open>A copy that still fits, one that does not, into a value; the exception leaves the old value.\<close>

definition sample_calls :: "(nat list, string) any_call list" where
  "sample_calls = [Basic Copy_from, Basic (Set_error ''no room''), Basic Swap_with, Copy_value [5], Basic Move_from,
     Emplace_args (Some [7]), Emplace_list (Some [8, 9]), Basic Swap_with]"

theorem expected_type_sound_witness:
  "(case call_all (container_type (\<lambda>n. n < 3)) (container_type (\<lambda>_. True)) sample_calls
       (st_of (Inl ''x''), st_of (Inr [1 :: nat, 2])) of
     Done (x', y') \<Rightarrow> well_formed x' \<and> well_formed y'
       \<and> storage_destructor x' = (Done (x'\<lparr>slot := No_init\<rparr>) :: (unit, _) outcome)
       \<and> storage_destructor y' = (Done (y'\<lparr>slot := No_init\<rparr>) :: (unit, _) outcome)
   | Raised (x', y') \<Rightarrow> well_formed x' \<and> well_formed y'
       \<and> storage_destructor x' = (Done (x'\<lparr>slot := No_init\<rparr>) :: (unit, _) outcome)
       \<and> storage_destructor y' = (Done (y'\<lparr>slot := No_init\<rparr>) :: (unit, _) outcome)
   | Terminate \<Rightarrow> Basic Copy_from \<in> set sample_calls
   | Undefined \<Rightarrow> False)
   \<and> call_all (container_type (\<lambda>n. n < 3)) (container_type (\<lambda>_. True)) sample_calls
       (st_of (Inl ''x''), st_of (Inr [1 :: nat, 2])) = Done (st_of (Inl []), st_of (Inr [8, 9]))"
  (is "?sound \<and> ?run")
proof
  have "\<forall>c \<in> set sample_calls. constructs (container_type (\<lambda>n. n < 3)) (container_type (\<lambda>_. True)) c"
    by (simp add: sample_calls_def container_type_def)
  then show ?sound
    by (rule expected_type_sound [OF container.value_class_axioms container.value_class_axioms
          well_formed_st_of well_formed_st_of])
  show ?run by code_simp
qed


lemma dead [simp]:
  "the_val (s\<lparr>slot := No_init\<rparr>) = Undefined" "the_err (s\<lparr>slot := No_init\<rparr>) = Undefined"
  by (simp_all add: the_val_def the_err_def)

lemma st_of_ctors: "storage_in_place v = st_of (Inr v)" "storage_unexpect e = st_of (Inl e)"
  by (simp_all add: st_of_def)

context value_class
begin

lemma move_err_st: "move_err C (st_of (Inl e)) = Done (e, st_of (Inl (rest e)))"
  by (simp add: move_err_def move_new)

end

text \<open>C19. When copies succeed, an \<open>expected\<close> is the sum of error and value: every sequence of
  assignments, \<open>emplace\<close>s and swaps has the effect of the same calls on sums, a copy equals its
  source, a move leaves the moved-from value or error of the source in it, and \<open>expected<void, E>\<close>
  is assigned and swapped like an optional error.\<close>

theorem expected_refines_sum:
  assumes "copyable_class T restT" and "copyable_class E restE"
  shows "call_members T E cs (st_of a, st_of b)
      = Done (map_prod st_of st_of (fold (call_spec (map_sum restE restT)) cs (a, b)))
    \<and> copy_construct T E (st_of a) = (Done (st_of a) :: (unit, _) outcome)
    \<and> move_construct T E (st_of a) = (Done (st_of a, st_of (map_sum restE restT a)) :: (unit, _) outcome)
    \<and> assign_void E (void_of k) (void_of h) = (Done (void_of k) :: (unit, _) outcome)
    \<and> swap_one_void E (void_of None, void_of (Some e)) = Done (void_of (Some e), void_of None)"
proof -
  have c: "copyable_members T restT E restE" using assms by (rule copyable_members.intro)
  then have m: "expected_members T restT E restE"
    by (metis assms copyable_class.axioms(1) expected_members.intro)
  show ?thesis
    using copyable_members.call_members_done [OF c, of cs "(a, b)"]
    by (simp add: copyable_members.copy_construct_done [OF c] expected_members.move_construct_st [OF m]
        copyable_class.assign_void_done [OF assms(2)] copyable_class.swap_one_void_done [OF assms(2)])
qed

theorem expected_refines_sum_witness:
  "call_members (container_type (\<lambda>_. True)) (container_type (\<lambda>_. True))
     [Move_from, Set_value [3 :: nat], Swap_with] (st_of (Inr [1, 2]), st_of (Inl ''bad''))
   = Done (st_of (Inl []), st_of (Inr [3]))"
  using expected_refines_sum [OF roomy.copyable_class_axioms roomy.copyable_class_axioms,
      of "[Move_from, Set_value [3 :: nat], Swap_with]" "Inr [1, 2]" "Inl ''bad''"]
  by (simp add: id_def)

text \<open>C30. The roll-back of the members that construct in place does not work. When the constructor
  of \<open>T\<close> throws while \<open>*this\<close> holds an error, the assignment of a value and both forms of \<open>emplace\<close>
  end in undefined behaviour: the handler assigns the saved error to the error object that was just
  destroyed. \<open>emplace\<close> on a value leaves a destroyed value behind that the destructor of \<open>expected\<close>
  destroys again. In copy assignment the same exception meets a \<open>noexcept\<close> function and ends the
  program, whatever \<open>T\<close> promises. A swap in which the move constructor of \<open>T\<close> throws is undefined.\<close>

theorem failed_construction_undefined:
  assumes "value_class E restE" and "copy_new T v = None" and "move_new M w = (None, w')"
    and "\<not> nothrow_move M"
  shows "assign_value_rollback E None a (st_of (Inl e)) = Undefined
    \<and> emplace_rollback E None (st_of (Inl e)) = Undefined
    \<and> emplace_list_rollback L E None (st_of (Inl e)) = Undefined
    \<and> (\<exists>s. emplace_rollback E None (st_of (Inr u)) = Raised s
          \<and> storage_destructor s = (Undefined :: (unit, _) outcome))
    \<and> assign_copy T E (st_of (Inr v)) (st_of (Inl e)) = Terminate
    \<and> swap_expected M E (st_of (Inr w), st_of (Inl e)) = Undefined"
  using assms(2-4)
  by (simp add: assign_value_rollback_def emplace_rollback_def emplace_list_rollback_def set_err_def
      value_class.move_err_st [OF assms(1)] storage_destructor_def end_val_def assign_copy_def
      assign_copy_in_place_def assign_copy_then_move_def assign_copy_rollback_def
      swap_expected.simps swap_where_only_one_has_value_def swap_one_t_can_throw_def move_val_def)

text \<open>A class whose copies and moves run out of memory: every allocation fails.\<close>

definition full_type :: "'a list class_type" where
  "full_type = (container_type (\<lambda>_. False))\<lparr>move_new := \<lambda>x. (None, x), nothrow_move := False\<rparr>"

lemma full_type:
  "copy_new full_type x = None" "move_new full_type x = (None, x)" "\<not> nothrow_move full_type"
  by (simp_all add: full_type_def container_type_def)

theorem failed_construction_undefined_witness:
  "assign_copy full_type (container_type (\<lambda>_. True)) (st_of (Inr [1 :: nat])) (st_of (Inl ''old'')) = Terminate
   \<and> swap_expected full_type (container_type (\<lambda>_. True)) (st_of (Inr [2 :: nat]), st_of (Inl ''old'')) = Undefined"
  by (rule failed_construction_undefined [OF container.value_class_axioms full_type,
        THEN conjunct2, THEN conjunct2, THEN conjunct2, THEN conjunct2])

text \<open>On objects that hold sums the functional operations are those of the sum type:
  \<open>and_then\<close> is the monadic bind that keeps errors, \<open>map\<close> and \<open>map_error\<close> act on one side, \<open>or_else\<close>
  acts on errors only, \<open>value\<close> throws exactly on errors and hands the error on, \<open>value_or\<close> replaces
  errors, and an access to the member that is not there fails its assertion. An exception of the
  function passed to \<open>and_then\<close> or \<open>map\<close> is passed on.\<close>

theorem functional_operations_are_sums:
  assumes "copyable_class T restT" and "copyable_class E restE"
  shows "and_then_impl E f (st_of a) = (case a of Inl e \<Rightarrow> Done (st_of (Inl e)) | Inr v \<Rightarrow> f v)
    \<and> expected_map_impl E (\<lambda>v. Done (g v)) (st_of a) = Done (st_of (map_sum id g a))
    \<and> expected_map_impl E (\<lambda>v. Raised ()) (st_of (Inr v)) = (Raised () :: (unit, ('u, 'e) expected) outcome)
    \<and> map_error_impl T (\<lambda>e. Done (h e)) (st_of a) = Done (st_of (map_sum h id a))
    \<and> or_else_impl T E k (st_of a) = (case a of Inl e \<Rightarrow> k e | Inr v \<Rightarrow> Done (st_of (Inr v)))
    \<and> value_of E (st_of a) = (case a of Inl e \<Rightarrow> Raised (Some e) | Inr v \<Rightarrow> Done v)
    \<and> value_or T (Some d) (st_of a) = Done (case a of Inl e \<Rightarrow> d | Inr v \<Rightarrow> v)
    \<and> deref (st_of a) = (case a of Inl e \<Rightarrow> Terminate | Inr v \<Rightarrow> (Done v :: (unit, _) outcome))
    \<and> error_of (st_of a) = (case a of Inl e \<Rightarrow> (Done e :: (unit, _) outcome) | Inr v \<Rightarrow> Terminate)"
proof -
  have c: "copyable_members T restT E restE" using assms by (rule copyable_members.intro)
  show ?thesis
    by (cases a)
      (simp_all add: and_then_impl_def expected_map_impl_def map_error_impl_def or_else_impl_def value_of_def
        value_or_def deref_def error_of_def copied_error_def copyable_members.copy_construct_done [OF c]
        copyable_class.copies [OF assms(1)] copyable_class.copies [OF assms(2)] st_of_ctors)
qed

theorem functional_operations_are_sums_witness:
  "and_then_impl (container_type (\<lambda>_. True)) (\<lambda>v. Done (st_of (Inr (length v))))
     (st_of (Inl ''e'') :: (nat list, string) expected) = Done (st_of (Inl ''e''))
   \<and> value_of (container_type (\<lambda>_. True)) (st_of (Inl ''e'') :: (nat list, string) expected) = Raised (Some ''e'')"
proof
  note at = functional_operations_are_sums [OF roomy.copyable_class_axioms roomy.copyable_class_axioms]
  show "and_then_impl (container_type (\<lambda>_. True)) (\<lambda>v. Done (st_of (Inr (length v))))
      (st_of (Inl ''e'') :: (nat list, string) expected) = Done (st_of (Inl ''e''))"
    by (rule trans [OF at [THEN conjunct1]]) simp
  show "value_of (container_type (\<lambda>_. True)) (st_of (Inl ''e'') :: (nat list, string) expected) = Raised (Some ''e'')"
    by (rule trans [OF at [THEN conjunct2, THEN conjunct2, THEN conjunct2, THEN conjunct2, THEN conjunct2,
          THEN conjunct1]]) simp
qed

text \<open>C36. \<open>operator==\<close> is equality of the sums and \<open>operator!=\<close> its negation, for values, for errors
  and against a plain value or \<open>unexpected\<close>. For \<open>expected<void, E>\<close> \<open>operator==\<close> is equality as
  well, but \<open>operator!=\<close> on two errors is true exactly when the errors are equal: it agrees with
  \<open>operator==\<close> there.\<close>

theorem comparison_operators:
  fixes a b :: "'e + 't" and x y :: "'e option"
  shows "expected_eq (=) (=) (st_of a) (st_of b) = (Done (a = b) :: (unit, _) outcome)
    \<and> expected_neq (\<noteq>) (\<noteq>) (st_of a) (st_of b) = (Done (a \<noteq> b) :: (unit, _) outcome)
    \<and> expected_eq_value (=) (st_of a) v = (Done (a = Inr v) :: (unit, _) outcome)
    \<and> expected_neq_value (\<noteq>) (st_of a) v = (Done (a \<noteq> Inr v) :: (unit, _) outcome)
    \<and> expected_eq_unexpected (=) (st_of a) e = (Done (a = Inl e) :: (unit, _) outcome)
    \<and> expected_neq_unexpected (\<noteq>) (st_of a) e = (Done (a \<noteq> Inl e) :: (unit, _) outcome)
    \<and> expected_eq_void (=) (void_of x) (void_of y) = (Done (x = y) :: (unit, _) outcome)
    \<and> expected_neq_void (=) (void_of x) (void_of y)
        = (Done (if x = None \<or> y = None then x \<noteq> y else x = y) :: (unit, _) outcome)"
  by (cases a; cases b; cases x; cases y)
    (simp_all add: expected_eq_def expected_neq_def expected_eq_value_def expected_neq_value_def
      expected_eq_unexpected_def expected_neq_unexpected_def expected_eq_void_def expected_neq_void_def
      deref_def error_of_def void_of_def storage_defs the_err_def)

text \<open>Construction from another \<open>expected\<close> type builds the value into storage that already holds a
  default constructed one, which is never destroyed.\<close>

lemma conversion_loses_default:
  assumes "toT v = Some t"
  shows "convert_construct d toT toE (st_of (Inr v)) = (Done ((st_of (Inr t))\<lparr>lost := 1\<rparr>) :: (unit, _) outcome)"
  using assms
  by (simp add: convert_construct_def)
    (simp add: construct_def new_val_def live_def storage_defs st_of_def)

end
