(* ===== verification/Expected_Members.thy ===== *)
theory Expected_Members
  imports Expected_Properties
begin

text \<open>
  The members of \<^verbatim>\<open>src/include/nyxstone/expected.hpp\<close> that exist once for each kind of
  object they can be called on (\<open>&\<close>, \<open>&&\<close>, \<open>const&\<close>, \<open>const&&\<close>), and the constructors of a result. Theory
  \<open>Expected\<close> has the functional operations on an object that keeps its content; here they work on
  the object itself, which a callback or a move may change. Where the two agree, and where they do
  not, is proved at the end.
\<close>

datatype ref_kind = Lvalue | Rvalue | Const_lvalue | Const_rvalue

text \<open>Constructing from \<open>std::forward\<close> of a member: only a non-constant rvalue is moved from, a
  constant one binds to the copy constructor.\<close>

definition pass_new :: "ref_kind \<Rightarrow> 'c class_type \<Rightarrow> 'c \<Rightarrow> 'c option \<times> 'c" where
  "pass_new k C x = (if k = Rvalue then move_new C x else (copy_new C x, x))"

text \<open>A callback (or a constructor) is given the value or the error by reference: what it returns,
  \<open>None\<close> when it throws, and what it leaves there. The access asserts the state.\<close>

definition call_val :: "('t \<Rightarrow> 'r option \<times> 't) \<Rightarrow> ('t, 'e) expected
    \<Rightarrow> (('t, 'e) expected, 'r \<times> ('t, 'e) expected) outcome" where
  "call_val f s =
     (if \<not> m_has_val s then Terminate
      else bind_out (the_val s) (\<lambda>v.
        let (r, v') = f v; s' = s\<lparr>slot := Val v'\<rparr> in bind_out (or_raise r s') (\<lambda>r. Done (r, s'))))"

definition call_err :: "('e \<Rightarrow> 'r option \<times> 'e) \<Rightarrow> ('t, 'e) expected
    \<Rightarrow> (('t, 'e) expected, 'r \<times> ('t, 'e) expected) outcome" where
  "call_err f s =
     (if m_has_val s then Terminate
      else bind_out (the_err s) (\<lambda>e.
        let (r, e') = f e; s' = s\<lparr>slot := Err e'\<rparr> in bind_out (or_raise r s') (\<lambda>r. Done (r, s'))))"

subsection \<open>Constructors of a result\<close>

text \<open>\<open>unexpected<E>\<close> is a wrapper around an \<open>E\<close>; \<open>make_unexpected\<close> copies or moves its argument.\<close>

definition make_unexpected :: "ref_kind \<Rightarrow> 'e class_type \<Rightarrow> 'e \<Rightarrow> 'e option \<times> 'e" where
  "make_unexpected k E e = pass_new k E e"

text \<open>\<open>expected(in_place, args...)\<close> and \<open>expected(U&&)\<close>: \<open>c\<close> is what the constructor of \<open>T\<close> makes.\<close>

definition construct_in_place :: "'t option \<Rightarrow> (unit, ('t, 'e) expected) outcome" where
  "construct_in_place c = bind_out (or_raise c ()) (\<lambda>v. Done (storage_in_place v))"

definition construct_value :: "'t option \<Rightarrow> (unit, ('t, 'e) expected) outcome" where
  "construct_value c = construct_in_place c"

text \<open>\<open>expected(unexpect, args...)\<close>, and the conversions from \<open>unexpected<G>\<close>: copied, or moved by a
  constructor that is \<open>noexcept\<close> when the move is.\<close>

definition construct_unexpect :: "'e option \<Rightarrow> (unit, ('t, 'e) expected) outcome" where
  "construct_unexpect c = bind_out (or_raise c ()) (\<lambda>e. Done (storage_unexpect e))"

definition construct_unexpected :: "ref_kind \<Rightarrow> 'e class_type \<Rightarrow> 'e \<Rightarrow> (unit, ('t, 'e) expected) outcome" where
  "construct_unexpected k E e =
     (let m = construct_unexpect (fst (pass_new k E e)) in if k = Rvalue \<and> nothrow_move E then no_except m else m)"

text \<open>From an rvalue \<open>expected<U, G>\<close>: \<open>toT\<close> and \<open>toE\<close> are the converting constructors. Like the
  conversion of an lvalue it builds into default constructed storage.\<close>

definition convert_construct_moved :: "'t \<Rightarrow> ('u \<Rightarrow> 't option \<times> 'u) \<Rightarrow> ('g \<Rightarrow> 'e option \<times> 'g) \<Rightarrow> ('u, 'g) expected
    \<Rightarrow> ('x, ('t, 'e) expected \<times> ('u, 'g) expected) outcome" where
  "convert_construct_moved d toT toE r =
     (if m_has_val r then bind_out (the_val r) (\<lambda>v. let (c, v') = toT v
        in bind_out (construct c (storage_default d)) (\<lambda>l. Done (l, r\<lparr>slot := Val v'\<rparr>)))
      else bind_out (the_err r) (\<lambda>e. let (c, e') = toE e
        in bind_out (construct_error c (storage_default d)) (\<lambda>l. Done (l, r\<lparr>slot := Err e'\<rparr>))))"

subsection \<open>Access\<close>

text \<open>\<open>bad_expected_access(E e)\<close> moves its parameter into the exception.\<close>

definition bad_expected_access :: "'e class_type \<Rightarrow> 'e option \<Rightarrow> 'e option" where
  "bad_expected_access E c = (case c of None \<Rightarrow> None | Some e \<Rightarrow> fst (move_new E e))"

text \<open>\<open>value\<close>: a reference to the value, or the exception with the error, \<open>None\<close> when making it throws.\<close>

definition value_as :: "ref_kind \<Rightarrow> 'e class_type \<Rightarrow> ('t, 'e) expected \<Rightarrow> ('e option \<times> ('t, 'e) expected, 't) outcome" where
  "value_as k E s =
     (if \<not> m_has_val s then bind_out (the_err s) (\<lambda>e.
        let (c, e') = pass_new k E e in Raised (bad_expected_access E c, s\<lparr>slot := Err e'\<rparr>))
      else the_val s)"

text \<open>\<open>value_or\<close> and \<open>error_or\<close>; the alternative is given as what its conversion makes.\<close>

definition value_or_as :: "ref_kind \<Rightarrow> 't class_type \<Rightarrow> 't option \<Rightarrow> ('t, 'e) expected
    \<Rightarrow> (('t, 'e) expected, 't \<times> ('t, 'e) expected) outcome" where
  "value_or_as k T c s = (if m_has_val s then call_val (pass_new k T) s else bind_out (or_raise c s) (\<lambda>v. Done (v, s)))"

definition error_or_as :: "ref_kind \<Rightarrow> 'e class_type \<Rightarrow> 'e option \<Rightarrow> ('t, 'e) expected
    \<Rightarrow> (('t, 'e) expected, 'e \<times> ('t, 'e) expected) outcome" where
  "error_or_as k E c s = (if \<not> m_has_val s then call_err (pass_new k E) s else bind_out (or_raise c s) (\<lambda>e. Done (e, s)))"

subsection \<open>The functional members\<close>

text \<open>\<open>Ret(unexpect, std::forward<Exp>(exp).error())\<close>, and the object itself as the result.\<close>

definition failed :: "ref_kind \<Rightarrow> 'e class_type \<Rightarrow> ('t, 'e) expected
    \<Rightarrow> (('t, 'e) expected, ('u, 'e) expected \<times> ('t, 'e) expected) outcome" where
  "failed k E s = bind_out (call_err (pass_new k E) s) (\<lambda>(e, s). Done (storage_unexpect e, s))"

definition new_from :: "ref_kind \<Rightarrow> 't class_type \<Rightarrow> 'e class_type \<Rightarrow> ('t, 'e) expected \<Rightarrow> ('x, ('t, 'e) two) outcome" where
  "new_from k T E s =
     (if k = Rvalue then move_construct T E s else bind_out (copy_construct T E s) (\<lambda>r. Done (r, s)))"

definition and_then :: "ref_kind \<Rightarrow> 'e class_type \<Rightarrow> ('t \<Rightarrow> ('u, 'e) expected option \<times> 't) \<Rightarrow> ('t, 'e) expected
    \<Rightarrow> (('t, 'e) expected, ('u, 'e) expected \<times> ('t, 'e) expected) outcome" where
  "and_then k E f s = (if m_has_val s then call_val f s else failed k E s)"

definition and_then_void :: "ref_kind \<Rightarrow> 'e class_type \<Rightarrow> ('u, 'e) expected option \<Rightarrow> (unit, 'e) expected
    \<Rightarrow> ((unit, 'e) expected, ('u, 'e) expected \<times> (unit, 'e) expected) outcome" where
  "and_then_void k E f s = (if m_has_val s then bind_out (or_raise f s) (\<lambda>r. Done (r, s)) else failed k E s)"

text \<open>\<open>map\<close>, of which \<open>transform\<close> is another name. A callback without a result gives \<open>expected<void, E>\<close>.\<close>

definition map_as :: "ref_kind \<Rightarrow> 'e class_type \<Rightarrow> ('t \<Rightarrow> 'u option \<times> 't) \<Rightarrow> ('t, 'e) expected
    \<Rightarrow> (('t, 'e) expected, ('u, 'e) expected \<times> ('t, 'e) expected) outcome" where
  "map_as k E f s =
     (if m_has_val s then bind_out (call_val f s) (\<lambda>(u, s). Done (storage_in_place u, s)) else failed k E s)"

definition map_as_to_void :: "ref_kind \<Rightarrow> 'e class_type \<Rightarrow> ('t \<Rightarrow> unit option \<times> 't) \<Rightarrow> ('t, 'e) expected
    \<Rightarrow> (('t, 'e) expected, (unit, 'e) expected \<times> ('t, 'e) expected) outcome" where
  "map_as_to_void k E f s =
     (if m_has_val s then bind_out (call_val f s) (\<lambda>(_, s). Done (storage_default_void, s)) else failed k E s)"

definition map_as_void :: "ref_kind \<Rightarrow> 'e class_type \<Rightarrow> 'u option \<Rightarrow> (unit, 'e) expected
    \<Rightarrow> ((unit, 'e) expected, ('u, 'e) expected \<times> (unit, 'e) expected) outcome" where
  "map_as_void k E f s =
     (if m_has_val s then bind_out (or_raise f s) (\<lambda>u. Done (storage_in_place u, s)) else failed k E s)"

definition map_error_as :: "ref_kind \<Rightarrow> 't class_type \<Rightarrow> ('e \<Rightarrow> 'g option \<times> 'e) \<Rightarrow> ('t, 'e) expected
    \<Rightarrow> (('t, 'e) expected, ('t, 'g) expected \<times> ('t, 'e) expected) outcome" where
  "map_error_as k T f s =
     (if m_has_val s then bind_out (call_val (pass_new k T) s) (\<lambda>(v, s). Done (storage_in_place v, s))
      else bind_out (call_err f s) (\<lambda>(g, s). Done (storage_unexpect g, s)))"

text \<open>\<open>or_else\<close>, and its form for a callback without a result: the object is given to the callback
  first and becomes the result afterwards.\<close>

definition or_else :: "ref_kind \<Rightarrow> 't class_type \<Rightarrow> 'e class_type \<Rightarrow> ('e \<Rightarrow> ('t, 'e) expected option \<times> 'e)
    \<Rightarrow> ('t, 'e) expected \<Rightarrow> (('t, 'e) expected, ('t, 'e) two) outcome" where
  "or_else k T E f s = (if m_has_val s then new_from k T E s else call_err f s)"

definition or_else_to_void :: "ref_kind \<Rightarrow> 't class_type \<Rightarrow> 'e class_type \<Rightarrow> ('e \<Rightarrow> unit option \<times> 'e)
    \<Rightarrow> ('t, 'e) expected \<Rightarrow> (('t, 'e) expected, ('t, 'e) two) outcome" where
  "or_else_to_void k T E f s =
     (if m_has_val s then new_from k T E s else bind_out (call_err f s) (\<lambda>(_, s). new_from k T E s))"

subsection \<open>The forms agree\<close>

text \<open>The result of a member, and what it leaves in the object it was called on.\<close>

fun result_of :: "('s, 'r \<times> 's) outcome \<Rightarrow> (unit, 'r) outcome" where
  "result_of (Done (r, s)) = Done r"
| "result_of (Raised s) = Raised ()"
| "result_of Terminate = Terminate"
| "result_of Undefined = Undefined"

fun left_in :: "('s, 'r \<times> 's) outcome \<Rightarrow> 's option" where
  "left_in (Done (r, s)) = Some s"
| "left_in (Raised s) = Some s"
| "left_in _ = None"

definition remains :: "ref_kind \<Rightarrow> ('c \<Rightarrow> 'c) \<Rightarrow> 'c \<Rightarrow> 'c" where
  "remains k rest x = (if k = Rvalue then rest x else x)"

text \<open>A callback by what it returns.\<close>

abbreviation plain :: "('c \<Rightarrow> 'r option \<times> 'c) \<Rightarrow> 'c \<Rightarrow> (unit, 'r) outcome" where
  "plain f \<equiv> \<lambda>x. or_raise (fst (f x)) ()"

lemma call_st:
  "call_val f (st_of (Inr v)) = bind_out (or_raise (fst (f v)) (st_of (Inr (snd (f v))))) (\<lambda>r. Done (r, st_of (Inr (snd (f v)))))"
  "call_err f' (st_of (Inl e)) = bind_out (or_raise (fst (f' e)) (st_of (Inl (snd (f' e))))) (\<lambda>r. Done (r, st_of (Inl (snd (f' e)))))"
  by (simp_all add: call_val_def call_err_def st_of_def storage_defs the_val_def the_err_def case_prod_unfold Let_def)

lemma pass_new_copies:
  assumes "copyable_class C rest"
  shows "pass_new k C x = (Some x, remains k rest x)"
  using assms by (auto simp: pass_new_def remains_def copyable_class.copies copyable_class_def value_class.move_new)

lemma result_of_bind [simp]:
  "result_of (bind_out (or_raise c s) (\<lambda>r. Done (g r, s'))) = bind_out (or_raise c ()) (\<lambda>r. Done (g r))"
  "left_in (bind_out (or_raise c s) (\<lambda>r. Done (g r, s))) = Some s"
  "result_of (bind_out (bind_out (or_raise c s) (\<lambda>r. Done (r, s'))) (\<lambda>(r, t). Done (g r, t)))
     = bind_out (or_raise c ()) (\<lambda>r. Done (g r))"
  "left_in (bind_out (bind_out (or_raise c s) (\<lambda>r. Done (r, s))) (\<lambda>(r, t). Done (g r, t))) = Some s"
  by (cases c; simp add: or_raise_def)+

lemma bind_done [simp]: "bind_out (or_raise c ()) Done = or_raise c ()"
  by (cases c) (simp_all add: or_raise_def)

text \<open>C31. The functional members give the same result on all four kinds of object, namely what the
  operation gives on an object that keeps its content, so a result may be passed on with
  \<open>std::move\<close>. The object is never left without a value: it keeps its alternative, with what the callback
  left of its argument, or, for a member that was moved into the result, with what the move left.
  The exception is \<open>or_else\<close> with a callback that returns nothing: the callback gets the object's own
  error before that is moved into the result, so the result has what the callback left of it.\<close>

theorem members_agree:
  assumes "copyable_class T restT" "copyable_class E restE"
  shows "result_of (and_then k E f (st_of a)) = and_then_impl E (plain f) (st_of a) \<and>
    result_of (map_as k E g (st_of a)) = expected_map_impl E (plain g) (st_of a) \<and>
    result_of (map_error_as k T h (st_of a)) = map_error_impl T (plain h) (st_of a) \<and>
    result_of (or_else k T E j (st_of a)) = or_else_impl T E (plain j) (st_of a) \<and>
    left_in (and_then k E f (st_of a)) = Some (st_of (map_sum (remains k restE) (snd \<circ> f) a)) \<and>
    left_in (map_as k E g (st_of a)) = Some (st_of (map_sum (remains k restE) (snd \<circ> g) a)) \<and>
    left_in (map_error_as k T h (st_of a)) = Some (st_of (map_sum (snd \<circ> h) (remains k restT) a)) \<and>
    left_in (or_else k T E j (st_of a)) = Some (st_of (map_sum (snd \<circ> j) (remains k restT) a)) \<and>
    result_of (or_else_to_void k T E (\<lambda>e. (Some (), eaten e)) (st_of (Inl e))) = Done (st_of (Inl (eaten e))) \<and>
    or_else_impl_to_void T E (\<lambda>_. Done ()) (st_of (Inl e)) = Done (st_of (Inl e))"
proof -
  have c: "copyable_members T restT E restE" using assms by (rule copyable_members.intro)
  have m: "expected_members T restT E restE"
    using assms by (simp add: expected_members_def copyable_class_def)
  have self: "new_from k T E (st_of x) = Done (st_of x, st_of (map_sum (remains k restE) (remains k restT) x))" for x
    by (cases x) (simp_all add: new_from_def remains_def copyable_members.copy_construct_done [OF c]
        expected_members.move_construct_st [OF m])
  have err: "failed k E (st_of (Inl e)) = Done (st_of (Inl e), st_of (Inl (remains k restE e)))" for e
    by (simp add: failed_def call_st pass_new_copies [OF assms(2)] or_raise_def st_of_ctors)
  note impls = and_then_impl_def expected_map_impl_def map_error_impl_def or_else_impl_def copied_error_def deref_def error_of_def
  note members = and_then_def map_as_def map_error_as_def or_else_def or_else_to_void_def or_else_impl_to_void_def
  show ?thesis
    by (cases a)
      (simp_all add: impls members self err call_st st_of_ctors pass_new_copies [OF assms(1)]
        copyable_members.copy_construct_done [OF c] copyable_class.copies [OF assms(1)] copyable_class.copies [OF assms(2)]
        result_of_bind [where g = "\<lambda>x. x"] or_raise_def [of "Some _"])
qed

text \<open>A \<open>std::string\<close> error and a callback that takes it by value.\<close>

theorem members_agree_witness:
  "result_of (or_else_to_void Rvalue (container_type (\<lambda>_. True)) (container_type (\<lambda>_. True)) (\<lambda>e. (Some (), []))
     (st_of (Inl ''bad opcode'') :: (nat list, string) expected)) = Done (st_of (Inl [])) \<and>
   or_else_impl_to_void (container_type (\<lambda>_. True)) (container_type (\<lambda>_. True)) (\<lambda>_. Done ())
     (st_of (Inl ''bad opcode'') :: (nat list, string) expected) = Done (st_of (Inl ''bad opcode''))"
proof
  note agree = members_agree [OF roomy.copyable_class_axioms roomy.copyable_class_axioms, THEN conjunct2, THEN conjunct2,
      THEN conjunct2, THEN conjunct2, THEN conjunct2, THEN conjunct2, THEN conjunct2, THEN conjunct2]
  show "result_of (or_else_to_void Rvalue (container_type (\<lambda>_. True)) (container_type (\<lambda>_. True)) (\<lambda>e. (Some (), []))
      (st_of (Inl ''bad opcode'') :: (nat list, string) expected)) = Done (st_of (Inl []))"
    by (rule agree [THEN conjunct1])
  show "or_else_impl_to_void (container_type (\<lambda>_. True)) (container_type (\<lambda>_. True)) (\<lambda>_. Done ())
      (st_of (Inl ''bad opcode'') :: (nat list, string) expected) = Done (st_of (Inl ''bad opcode''))"
    by (rule agree [THEN conjunct2])
qed

subsection \<open>Results read back\<close>

text \<open>What a constructor of a result puts in is what the accesses give out, and \<open>value\<close> on an error throws
  with that error.\<close>

lemma made_results_read_back:
  assumes "copyable_class T restT" "copyable_class E restE"
  shows "construct_value (Some v) = Done (st_of (Inr v))"
    "construct_unexpected k E (the (fst (make_unexpected k E e))) = Done (st_of (Inl e))"
    "value_as k E (st_of (Inr v)) = Done v"
    "value_as k E (st_of (Inl e)) = Raised (Some e, st_of (Inl (remains k restE e)))"
    "result_of (value_or_as k T (Some d) (st_of a)) = Done (case a of Inl _ \<Rightarrow> d | Inr v \<Rightarrow> v)"
    "result_of (error_or_as k E (Some d') (st_of a)) = Done (case a of Inl e \<Rightarrow> e | Inr _ \<Rightarrow> d')"
proof -
  have moves: "move_new E e = (Some e, restE e)"
    using assms(2) by (simp add: copyable_class_def value_class.move_new)
  show "construct_value (Some v) = Done (st_of (Inr v))"
    by (simp add: construct_value_def construct_in_place_def or_raise_def st_of_ctors)
  show "construct_unexpected k E (the (fst (make_unexpected k E e))) = Done (st_of (Inl e))"
    by (simp add: construct_unexpected_def construct_unexpect_def make_unexpected_def pass_new_copies [OF assms(2)]
        or_raise_def no_except_def st_of_ctors Let_def)
  show "value_as k E (st_of (Inr v)) = Done v" "value_as k E (st_of (Inl e)) = Raised (Some e, st_of (Inl (remains k restE e)))"
    by (simp_all add: value_as_def st_of_def storage_defs the_val_def the_err_def pass_new_copies [OF assms(2)]
        bad_expected_access_def moves)
  show "result_of (value_or_as k T (Some d) (st_of a)) = Done (case a of Inl _ \<Rightarrow> d | Inr v \<Rightarrow> v)"
    by (cases a) (simp_all add: value_or_as_def call_st pass_new_copies [OF assms(1)] or_raise_def)
  show "result_of (error_or_as k E (Some d') (st_of a)) = Done (case a of Inl e \<Rightarrow> e | Inr _ \<Rightarrow> d')"
    by (cases a) (simp_all add: error_or_as_def call_st pass_new_copies [OF assms(2)] or_raise_def)
qed

text \<open>The conversion of an rvalue loses the default constructed value as well.\<close>

lemma moved_conversion_loses_default:
  assumes "fst (toT v) = Some t"
  shows "convert_construct_moved d toT toE (st_of (Inr v))
    = (Done ((st_of (Inr t))\<lparr>lost := 1\<rparr>, st_of (Inr (snd (toT v)))) :: (unit, _) outcome)"
  using assms
  by (simp add: convert_construct_moved_def case_prod_unfold Let_def)
    (simp add: construct_def new_val_def live_def storage_defs st_of_def the_val_def no_except_def or_raise_def)

end
