(* ===== verification/Expected_Special.thy ===== *)
theory Expected_Special
  imports Expected_Members
begin

text \<open>
  How \<^verbatim>\<open>src/include/nyxstone/expected.hpp\<close> puts the class \<open>expected<T, E>\<close> together from its
  base classes: from the type traits of \<open>T\<close> and \<open>E\<close> each base picks a specialisation, which copies
  and destroys by the members' own code, leaves it to the compiler because bytes suffice, or deletes
  the operation. The rest of the development reasons about the general code; here it is shown that
  the other specialisations do the same.
\<close>

subsection \<open>Type traits\<close>

text \<open>What the traits of the standard library say of a type, and what a call of \<open>swap\<close> on two of its
  objects resolves to: a function at all, the \<open>std::swap\<close> stand-in, one that is \<open>noexcept\<close>.\<close>

record traits =
  is_void :: bool
  is_default_constructible :: bool
  is_copy_constructible :: bool
  is_move_constructible :: bool
  is_copy_assignable :: bool
  is_move_assignable :: bool
  is_trivially_destructible :: bool
  is_trivially_copy_constructible :: bool
  is_trivially_move_constructible :: bool
  is_trivially_copy_assignable :: bool
  is_trivially_move_assignable :: bool
  is_nothrow_move_constructible :: bool
  is_nothrow_move_assignable :: bool
  can_swap :: bool
  uses_std :: bool
  is_adl_swap_noexcept :: bool

fun conjunction :: "bool list \<Rightarrow> bool" where
  "conjunction [] = True"
| "conjunction [b] = b"
| "conjunction (b # bs) = (if b then conjunction bs else b)"

definition is_void_or :: "traits \<Rightarrow> bool \<Rightarrow> bool" where
  "is_void_or t u = (if is_void t then True else u)"

definition is_copy_constructible_or_void :: "traits \<Rightarrow> bool" where
  "is_copy_constructible_or_void t = is_void_or t (is_copy_constructible t)"

definition is_move_constructible_or_void :: "traits \<Rightarrow> bool" where
  "is_move_constructible_or_void t = is_void_or t (is_move_constructible t)"

definition is_copy_assignable_or_void :: "traits \<Rightarrow> bool" where
  "is_copy_assignable_or_void t = is_void_or t (is_copy_assignable t)"

definition is_move_assignable_or_void :: "traits \<Rightarrow> bool" where
  "is_move_assignable_or_void t = is_void_or t (is_move_assignable t)"

definition is_std_swap_noexcept :: "traits \<Rightarrow> bool" where
  "is_std_swap_noexcept t \<longleftrightarrow> is_nothrow_move_constructible t \<and> is_nothrow_move_assignable t"

definition is_swappable :: "traits \<Rightarrow> bool" where
  "is_swappable t \<longleftrightarrow> can_swap t \<and> (\<not> uses_std t \<or> (is_move_assignable t \<and> is_move_constructible t))"

definition is_nothrow_swappable :: "traits \<Rightarrow> bool" where
  "is_nothrow_swappable t \<longleftrightarrow> is_swappable t \<and>
     ((uses_std t \<and> is_std_swap_noexcept t) \<or> (\<not> uses_std t \<and> is_adl_swap_noexcept t))"

lemma conjunction_iff [simp]: "conjunction bs \<longleftrightarrow> (\<forall>b \<in> set bs. b)"
  by (induction bs rule: conjunction.induct) auto

subsection \<open>\<open>unexpected\<close> and \<open>throw_exception\<close>\<close>

record 'e unexpected =
  m_val :: 'e

definition unexpected_new :: "ref_kind \<Rightarrow> 'e class_type \<Rightarrow> 'e \<Rightarrow> 'e unexpected option \<times> 'e" where
  "unexpected_new k E e = (let (c, e') = pass_new k E e in (map_option (\<lambda>x. \<lparr>m_val = x\<rparr>) c, e'))"

text \<open>From the arguments of a constructor of \<open>E\<close>: \<open>c\<close> is what it makes.\<close>

definition unexpected_in_place :: "'e option \<Rightarrow> 'e unexpected option" where
  "unexpected_in_place c = map_option (\<lambda>x. \<lparr>m_val = x\<rparr>) c"

text \<open>The six comparisons, \<open>rel\<close> being the operator of the same name on \<open>E\<close>.\<close>

definition unexpected_compare :: "('e \<Rightarrow> 'e \<Rightarrow> bool) \<Rightarrow> 'e unexpected \<Rightarrow> 'e unexpected \<Rightarrow> bool" where
  "unexpected_compare rel lhs rhs = rel (m_val lhs) (m_val rhs)"

definition throw_exception :: "bool \<Rightarrow> 'x \<Rightarrow> ('x, 'a) outcome" where
  "throw_exception exceptions_enabled e = (if exceptions_enabled then Raised e else Undefined)"

subsection \<open>The six specialisations of \<open>expected_storage_base\<close>\<close>

record ('t, 'e) storage_base =
  sb_default :: "'t \<Rightarrow> ('t, 'e) expected"
  sb_no_init :: "('t, 'e) expected"
  sb_in_place :: "'t \<Rightarrow> ('t, 'e) expected"
  sb_unexpect :: "'e \<Rightarrow> ('t, 'e) expected"
  sb_destructor :: "('t, 'e) expected \<Rightarrow> (unit, ('t, 'e) expected) outcome"

definition storage_neither_trivial :: "('t, 'e) storage_base" where
  "storage_neither_trivial = \<lparr>
     sb_default = storage_default, sb_no_init = storage_no_init, sb_in_place = storage_in_place,
     sb_unexpect = storage_unexpect, sb_destructor = storage_destructor\<rparr>"

definition storage_both_trivial :: "('t, 'e) storage_base" where
  "storage_both_trivial = \<lparr>
     sb_default = (\<lambda>d. \<lparr>slot = Val d, m_has_val = True, lost = 0\<rparr>),
     sb_no_init = \<lparr>slot = No_init, m_has_val = False, lost = 0\<rparr>,
     sb_in_place = (\<lambda>v. \<lparr>slot = Val v, m_has_val = True, lost = 0\<rparr>),
     sb_unexpect = (\<lambda>e. \<lparr>slot = Err e, m_has_val = False, lost = 0\<rparr>),
     sb_destructor = Done\<rparr>"

definition storage_T_trivial :: "('t, 'e) storage_base" where
  "storage_T_trivial = \<lparr>
     sb_default = (\<lambda>d. \<lparr>slot = Val d, m_has_val = True, lost = 0\<rparr>),
     sb_no_init = \<lparr>slot = No_init, m_has_val = False, lost = 0\<rparr>,
     sb_in_place = (\<lambda>v. \<lparr>slot = Val v, m_has_val = True, lost = 0\<rparr>),
     sb_unexpect = (\<lambda>e. \<lparr>slot = Err e, m_has_val = False, lost = 0\<rparr>),
     sb_destructor = storage_destructor_T_trivial\<rparr>"

definition storage_E_trivial :: "('t, 'e) storage_base" where
  "storage_E_trivial = \<lparr>
     sb_default = (\<lambda>d. \<lparr>slot = Val d, m_has_val = True, lost = 0\<rparr>),
     sb_no_init = \<lparr>slot = No_init, m_has_val = False, lost = 0\<rparr>,
     sb_in_place = (\<lambda>v. \<lparr>slot = Val v, m_has_val = True, lost = 0\<rparr>),
     sb_unexpect = (\<lambda>e. \<lparr>slot = Err e, m_has_val = False, lost = 0\<rparr>),
     sb_destructor = storage_destructor_E_trivial\<rparr>"

text \<open>For \<open>void\<close> there is no value object; the members \<open>m_val\<close> and \<open>m_dummy\<close> are empty stand-ins.\<close>

definition storage_void_E_trivial :: "(unit, 'e) storage_base" where
  "storage_void_E_trivial = \<lparr>
     sb_default = (\<lambda>_. \<lparr>slot = No_init, m_has_val = True, lost = 0\<rparr>),
     sb_no_init = \<lparr>slot = No_init, m_has_val = False, lost = 0\<rparr>,
     sb_in_place = (\<lambda>_. \<lparr>slot = No_init, m_has_val = True, lost = 0\<rparr>),
     sb_unexpect = (\<lambda>e. \<lparr>slot = Err e, m_has_val = False, lost = 0\<rparr>),
     sb_destructor = Done\<rparr>"

definition storage_void :: "(unit, 'e) storage_base" where
  "storage_void = \<lparr>
     sb_default = (\<lambda>_. storage_default_void),
     sb_no_init = \<lparr>slot = No_init, m_has_val = False, lost = 0\<rparr>,
     sb_in_place = (\<lambda>_. \<lparr>slot = No_init, m_has_val = True, lost = 0\<rparr>),
     sb_unexpect = storage_unexpect_void,
     sb_destructor = storage_destructor_void\<rparr>"

definition storage_of :: "traits \<Rightarrow> traits \<Rightarrow> ('t, 'e) storage_base" where
  "storage_of tT tE =
     (if is_trivially_destructible tT
      then if is_trivially_destructible tE then storage_both_trivial else storage_T_trivial
      else if is_trivially_destructible tE then storage_E_trivial else storage_neither_trivial)"

definition storage_of_void :: "traits \<Rightarrow> (unit, 'e) storage_base" where
  "storage_of_void tE = (if is_trivially_destructible tE then storage_void_E_trivial else storage_void)"

subsection \<open>The base classes of the special members\<close>

text \<open>\<open>Bitwise\<close>: the compiler's member, which copies the bytes of the storage. \<open>Written\<close>: the body of
  the base class. \<open>By_copy\<close>: a move that runs the written copy of a base class below.\<close>

datatype member = Bitwise | Written | By_copy | Deleted

text \<open>All specialisations of the storage declare a destructor, if only \<open>= default\<close>, so none has a move
  constructor or a move assignment. Its implicit copy members exist where those of both members of the
  union are trivial, and are deleted otherwise.\<close>

definition storage_copies :: "traits \<Rightarrow> traits \<Rightarrow> bool" where
  "storage_copies tT tE \<longleftrightarrow> is_void_or tT (is_trivially_copy_constructible tT) \<and> is_trivially_copy_constructible tE"

definition storage_assigns :: "traits \<Rightarrow> traits \<Rightarrow> bool" where
  "storage_assigns tT tE \<longleftrightarrow> is_void_or tT (is_trivially_copy_assignable tT) \<and> is_trivially_copy_assignable tE"

definition copy_base :: "traits \<Rightarrow> traits \<Rightarrow> member" where
  "copy_base tT tE =
     (if is_void_or tT (is_trivially_copy_constructible tT) \<and> is_trivially_copy_constructible tE
      then Bitwise else Written)"

text \<open>The specialisation without a move constructor of its own leaves the move to the bases: down to the
  storage, which copies its bytes; where it cannot, \<open>expected_copy_base(expected_copy_base&&) = default\<close>
  is deleted, overload resolution passes over it, and the copy constructor next to it takes the rvalue.\<close>

definition move_base :: "traits \<Rightarrow> traits \<Rightarrow> member" where
  "move_base tT tE =
     (if is_void_or tT (is_trivially_move_constructible tT) \<and> is_trivially_move_constructible tE
      then if storage_copies tT tE then Bitwise else By_copy
      else Written)"

definition copy_assign_base :: "traits \<Rightarrow> traits \<Rightarrow> member" where
  "copy_assign_base tT tE =
     (if is_void_or tT (conjunction [is_trivially_copy_assignable tT, is_trivially_copy_constructible tT,
            is_trivially_destructible tT]) \<and>
         is_trivially_copy_assignable tE \<and> is_trivially_copy_constructible tE \<and> is_trivially_destructible tE
      then Bitwise else Written)"

text \<open>In the same way the copy assignment of \<open>expected_copy_assign_base\<close> takes the rvalue where the
  storage cannot be assigned.\<close>

definition move_assign_base :: "traits \<Rightarrow> traits \<Rightarrow> member" where
  "move_assign_base tT tE =
     (if is_void_or tT (conjunction [is_trivially_destructible tT, is_trivially_move_constructible tT,
            is_trivially_move_assignable tT]) \<and>
         is_trivially_destructible tE \<and> is_trivially_move_constructible tE \<and> is_trivially_move_assignable tE
      then if storage_assigns tT tE then Bitwise else By_copy
      else Written)"

text \<open>Which of copy and move a base leaves, by its parameters \<open>EnableCopy\<close> and \<open>EnableMove\<close>.\<close>

fun delete_ctor_base :: "bool \<Rightarrow> bool \<Rightarrow> bool \<times> bool" where
  "delete_ctor_base True True = (True, True)"
| "delete_ctor_base True False = (True, False)"
| "delete_ctor_base False True = (False, True)"
| "delete_ctor_base False False = (False, False)"

definition ctors_enabled :: "traits \<Rightarrow> traits \<Rightarrow> bool \<times> bool" where
  "ctors_enabled tT tE = delete_ctor_base
     (is_copy_constructible_or_void tT \<and> is_copy_constructible tE)
     (is_move_constructible_or_void tT \<and> is_move_constructible tE)"

fun delete_assign_base :: "bool \<Rightarrow> bool \<Rightarrow> bool \<times> bool" where
  "delete_assign_base True True = (True, True)"
| "delete_assign_base True False = (True, False)"
| "delete_assign_base False True = (False, True)"
| "delete_assign_base False False = (False, False)"

definition assigns_enabled :: "traits \<Rightarrow> traits \<Rightarrow> bool \<times> bool" where
  "assigns_enabled tT tE = delete_assign_base
     (is_copy_constructible_or_void tT \<and> is_copy_constructible tE \<and>
        is_copy_assignable_or_void tT \<and> is_copy_assignable tE)
     (is_move_constructible_or_void tT \<and> is_move_constructible tE \<and>
        is_move_assignable_or_void tT \<and> is_move_assignable tE)"

definition default_ctor_base :: "traits \<Rightarrow> bool" where
  "default_ctor_base tT \<longleftrightarrow> is_default_constructible tT \<or> is_void tT"

subsection \<open>The class\<close>

text \<open>The members of \<open>expected\<close> are defaulted: deleted where a base deletes them, otherwise what the bases
  do. An operation that is deleted has no result, \<open>None\<close>, and neither has one whose body does not
  compile for lack of a copy.\<close>

definition unless_deleted :: "bool \<Rightarrow> member \<Rightarrow> member" where
  "unless_deleted enabled how = (if enabled then how else Deleted)"

definition run_member :: "member \<Rightarrow> 'a \<Rightarrow> 'a \<Rightarrow> 'a option \<Rightarrow> 'a option" where
  "run_member how bits body copied =
     (case how of Bitwise \<Rightarrow> Some bits | Written \<Rightarrow> Some body | By_copy \<Rightarrow> copied | Deleted \<Rightarrow> None)"

definition class_copy ::
    "traits \<Rightarrow> traits \<Rightarrow> 't class_type \<Rightarrow> 'e class_type \<Rightarrow> ('t, 'e) expected \<Rightarrow> (unit, ('t, 'e) expected) outcome option" where
  "class_copy tT tE T E r =
     run_member (unless_deleted (fst (ctors_enabled tT tE)) (copy_base tT tE)) (Done (r\<lparr>lost := 0\<rparr>)) (copy_construct T E r) None"

definition move_by_copy ::
    "traits \<Rightarrow> traits \<Rightarrow> 't class_type \<Rightarrow> 'e class_type \<Rightarrow> ('t, 'e) expected \<Rightarrow> (unit, ('t, 'e) two) outcome option" where
  "move_by_copy tT tE T E r =
     (if is_void_or tT (is_copy_constructible tT) \<and> is_copy_constructible tE
      then Some (bind_out (copy_construct T E r) (\<lambda>l. Done (l, r))) else None)"

definition class_move ::
    "traits \<Rightarrow> traits \<Rightarrow> 't class_type \<Rightarrow> 'e class_type \<Rightarrow> ('t, 'e) expected \<Rightarrow> (unit, ('t, 'e) two) outcome option" where
  "class_move tT tE T E r =
     run_member (unless_deleted (snd (ctors_enabled tT tE)) (move_base tT tE)) (Done (r\<lparr>lost := 0\<rparr>, r)) (move_construct T E r)
       (move_by_copy tT tE T E r)"

definition class_copy_assign ::
    "traits \<Rightarrow> traits \<Rightarrow> 't class_type \<Rightarrow> 'e class_type \<Rightarrow> ('t, 'e) expected \<Rightarrow> ('t, 'e) expected
      \<Rightarrow> (('t, 'e) expected, ('t, 'e) expected) outcome option" where
  "class_copy_assign tT tE T E r l =
     run_member (unless_deleted (fst (assigns_enabled tT tE)) (copy_assign_base tT tE))
       (Done (r\<lparr>lost := lost l\<rparr>)) (assign_copy T E r l) None"

definition move_assign_by_copy ::
    "traits \<Rightarrow> traits \<Rightarrow> 't class_type \<Rightarrow> 'e class_type \<Rightarrow> ('t, 'e) two \<Rightarrow> (('t, 'e) two, ('t, 'e) two) outcome option" where
  "move_assign_by_copy tT tE T E = (\<lambda>(l, r).
     if is_void_or tT (is_copy_constructible tT \<and> is_copy_assignable tT) \<and> is_copy_constructible tE \<and> is_copy_assignable tE
     then Some (bind_out (raise_as (\<lambda>l. (l, r)) (assign_copy T E r l)) (\<lambda>l. Done (l, r))) else None)"

definition class_move_assign ::
    "traits \<Rightarrow> traits \<Rightarrow> 't class_type \<Rightarrow> 'e class_type \<Rightarrow> ('t, 'e) two \<Rightarrow> (('t, 'e) two, ('t, 'e) two) outcome option" where
  "class_move_assign tT tE T E = (\<lambda>(l, r).
     run_member (unless_deleted (snd (assigns_enabled tT tE)) (move_assign_base tT tE))
       (Done (r\<lparr>lost := lost l\<rparr>, r)) (assign_move T E (l, r)) (move_assign_by_copy tT tE T E (l, r)))"

text \<open>Where \<open>swap\<close> takes part in overload resolution, as a member and as a function.\<close>

definition member_swap_enabled :: "traits \<Rightarrow> traits \<Rightarrow> bool" where
  "member_swap_enabled tT tE \<longleftrightarrow> is_swappable tT \<and> is_swappable tE \<and>
     (is_nothrow_move_constructible tT \<or> is_nothrow_move_constructible tE)"

definition free_swap_enabled :: "traits \<Rightarrow> traits \<Rightarrow> bool" where
  "free_swap_enabled tT tE \<longleftrightarrow> (is_void tT \<or> is_move_constructible tT) \<and> is_swappable tT \<and>
     is_move_constructible tE \<and> is_swappable tE"

text \<open>Without exceptions (\<open>TL_EXPECTED_EXCEPTIONS_ENABLED\<close> not defined) there is one overload of \<open>assign\<close>
  for each kind of source, and no way back.\<close>

definition assign_copy_no_exceptions :: "'t class_type \<Rightarrow> 'e class_type \<Rightarrow> ('t, 'e) expected
    \<Rightarrow> ('t, 'e) expected \<Rightarrow> (('t, 'e) expected, ('t, 'e) expected) outcome" where
  "assign_copy_no_exceptions T E r l = no_except
     (if \<not> m_has_val l \<and> m_has_val r then
        bind_out (end_err l) (\<lambda>l. bind_out (the_val r) (\<lambda>v. construct (copy_new T v) l))
      else assign_common_copy T E r l)"

definition assign_move_no_exceptions :: "'t class_type \<Rightarrow> 'e class_type \<Rightarrow> ('t, 'e) two
    \<Rightarrow> (('t, 'e) two, ('t, 'e) two) outcome" where
  "assign_move_no_exceptions T E = (\<lambda>(l, r). no_except
     (if \<not> m_has_val l \<and> m_has_val r then bind_out (end_err l) (\<lambda>l. construct_moved T (l, r))
      else assign_common_move T E (l, r)))"

subsection \<open>The choice does not show\<close>

text \<open>The standard's rules for a class and its traits: a trivial constructor does not throw and its
  class has a trivial destructor; a trivial member copies the value and leaves its source alone.\<close>

definition describes :: "traits \<Rightarrow> 'c class_type \<Rightarrow> bool" where
  "describes t C \<longleftrightarrow> \<not> is_void t \<and>
     (is_trivially_copy_constructible t \<longrightarrow> is_copy_constructible t \<and> is_trivially_destructible t \<and> nothrow_copy C \<and>
        (\<forall>x. copy_new C x = Some x)) \<and>
     (is_trivially_move_constructible t \<longrightarrow> is_move_constructible t \<and> is_trivially_destructible t \<and> nothrow_move C \<and>
        (\<forall>x. move_new C x = (Some x, x))) \<and>
     (is_trivially_copy_assignable t \<longrightarrow> (\<forall>d x. copy_into C d x = (x, False))) \<and>
     (is_trivially_move_assignable t \<longrightarrow> (\<forall>d x. move_into C d x = ((x, x), False)))"

lemma run_unless_deleted:
  "(how = Bitwise \<Longrightarrow> bits = body) \<Longrightarrow> how \<noteq> Deleted \<Longrightarrow>
    run_member (unless_deleted b how) bits body copied =
      (if b then if how = By_copy then copied else Some body else None)"
  by (cases how) (simp_all add: unless_deleted_def run_member_def)

lemma bases_not_deleted [simp]:
  "copy_base tT tE \<noteq> Deleted" "move_base tT tE \<noteq> Deleted" "copy_assign_base tT tE \<noteq> Deleted" "move_assign_base tT tE \<noteq> Deleted"
  "copy_base tT tE \<noteq> By_copy" "copy_assign_base tT tE \<noteq> By_copy"
  by (simp_all add: copy_base_def move_base_def copy_assign_base_def move_assign_base_def)

lemma enabled_iff:
  "delete_ctor_base a b = (a, b)" "delete_assign_base a b = (a, b)"
  by (cases a; cases b; simp)+

lemma st_of_lost: "(st_of x)\<lparr>lost := 0\<rparr> = st_of x"
  by (cases x) (simp_all add: st_of_def storage_defs)

lemma bitwise_copies:
  assumes "describes tT T" "describes tE E"
  shows "copy_base tT tE = Bitwise \<Longrightarrow> copy_construct T E (st_of x) = Done (st_of x)"
    "move_base tT tE = Bitwise \<Longrightarrow> move_construct T E (st_of x) = Done (st_of x, st_of x)"
  using assms
  by (cases x; simp add: describes_def copy_base_def move_base_def is_void_or_def copy_construct_def move_construct_def
      construct_moved_def construct_error_moved_def split: if_splits)+

lemma bitwise_copy_assigns:
  assumes "describes tT T" "describes tE E" "copy_assign_base tT tE = Bitwise"
  shows "assign_copy T E (st_of y) (st_of x) = Done (st_of y)"
proof -
  have "nothrow_copy T" "\<And>v. copy_new T v = Some v" "\<And>e. copy_new E e = Some e"
    "\<And>d v. copy_into T d v = (v, False)" "\<And>d e. copy_into E d e = (e, False)"
    using assms by (simp_all add: describes_def copy_assign_base_def is_void_or_def split: if_splits)
  then show ?thesis
    by (cases x; cases y)
      (simp_all add: assign_copy_def assign_copy_in_place_def assign_common_copy_def set_val_def set_err_def)
qed

lemma bitwise_move_assigns:
  assumes "describes tT T" "describes tE E" "move_assign_base tT tE = Bitwise"
  shows "assign_move T E (st_of x, st_of y) = Done (st_of y, st_of y)"
proof -
  have "nothrow_move T" "\<And>v. move_new T v = (Some v, v)" "\<And>e. move_new E e = (Some e, e)"
    "\<And>d v. move_into T d v = ((v, v), False)" "\<And>d e. move_into E d e = ((e, e), False)"
    using assms by (simp_all add: describes_def move_assign_base_def is_void_or_def split: if_splits)
  then show ?thesis
    by (cases x; cases y)
      (simp_all add: assign_move_def assign_move_in_place_def assign_common_move_def construct_moved_def
        construct_error_moved_def)
qed

text \<open>Is the destructor of the live member one that does something.\<close>

definition has_destructor :: "traits \<Rightarrow> traits \<Rightarrow> 'e + 't \<Rightarrow> bool" where
  "has_destructor tT tE x \<longleftrightarrow> \<not> is_trivially_destructible (case x of Inl _ \<Rightarrow> tE | Inr _ \<Rightarrow> tT)"

lemma storage_of_builds:
  "sb_in_place (storage_of tT tE) v = st_of (Inr v)" "sb_default (storage_of tT tE) v = st_of (Inr v)"
  "sb_unexpect (storage_of tT tE) e = st_of (Inl e)" "sb_no_init (storage_of tT tE) = storage_no_init"
  by (auto simp: storage_of_def storage_neither_trivial_def storage_both_trivial_def storage_T_trivial_def
      storage_E_trivial_def st_of_def storage_defs)

lemma storage_of_destroys:
  "sb_destructor (storage_of tT tE) (st_of x) = Done (if has_destructor tT tE x then (st_of x)\<lparr>slot := No_init\<rparr> else st_of x)"
  by (cases x) (auto simp: storage_of_def storage_neither_trivial_def storage_both_trivial_def storage_T_trivial_def
      storage_E_trivial_def has_destructor_def destructor_st_of storage_destructor_T_trivial_def
      storage_destructor_E_trivial_def)

text \<open>The traits of two types that can both be moved bytewise, but not both be copied so.\<close>

definition moved_by_copy :: "traits \<Rightarrow> traits \<Rightarrow> bool" where
  "moved_by_copy tT tE \<longleftrightarrow> is_trivially_move_constructible tT \<and> is_trivially_move_constructible tE \<and>
     \<not> (is_trivially_copy_constructible tT \<and> is_trivially_copy_constructible tE)"

definition move_assigned_by_copy :: "traits \<Rightarrow> traits \<Rightarrow> bool" where
  "move_assigned_by_copy tT tE \<longleftrightarrow>
     is_trivially_move_constructible tT \<and> is_trivially_move_assignable tT \<and>
     is_trivially_move_constructible tE \<and> is_trivially_move_assignable tE \<and>
     \<not> (is_trivially_copy_assignable tT \<and> is_trivially_copy_assignable tE)"

text \<open>C20. Which specialisations the traits of \<open>T\<close> and \<open>E\<close> select shows in one place only. For any two
  classes that their traits describe, a copy construction or assignment is available exactly when both
  members have the operations it needs, and then does what the code of the bases does, also where the
  compiler copies bytes instead. So do moves, unless both types move bytewise and one of them does
  not copy so: then the move of the \<open>expected\<close> is a copy that leaves its source alone, and when a type cannot
  be copied the move does not compile, although both types can be moved. All constructors of the storage build
  the same object; and the destructor that is picked ends the live member exactly when that needs a
  destructor, and never touches the other one.\<close>

theorem specialisations_agree:
  assumes "describes tT T" "describes tE E"
  shows "class_copy tT tE T E (st_of x) =
        (if is_copy_constructible tT \<and> is_copy_constructible tE then Some (copy_construct T E (st_of x)) else None) \<and>
    class_move tT tE T E (st_of x) =
        (if \<not> (is_move_constructible tT \<and> is_move_constructible tE) then None
         else if \<not> moved_by_copy tT tE then Some (move_construct T E (st_of x))
         else if is_copy_constructible tT \<and> is_copy_constructible tE
           then Some (bind_out (copy_construct T E (st_of x)) (\<lambda>l. Done (l, st_of x)))
         else None) \<and>
    class_copy_assign tT tE T E (st_of y) (st_of x) =
        (if is_copy_constructible tT \<and> is_copy_constructible tE \<and> is_copy_assignable tT \<and> is_copy_assignable tE
         then Some (assign_copy T E (st_of y) (st_of x)) else None) \<and>
    class_move_assign tT tE T E (st_of x, st_of y) =
        (if \<not> (is_move_constructible tT \<and> is_move_constructible tE \<and> is_move_assignable tT \<and> is_move_assignable tE) then None
         else if \<not> move_assigned_by_copy tT tE then Some (assign_move T E (st_of x, st_of y))
         else if is_copy_constructible tT \<and> is_copy_constructible tE \<and> is_copy_assignable tT \<and> is_copy_assignable tE
           then Some (bind_out (raise_as (\<lambda>l. (l, st_of y)) (assign_copy T E (st_of y) (st_of x))) (\<lambda>l. Done (l, st_of y)))
         else None) \<and>
    sb_in_place (storage_of tT tE) v = storage_in_place v \<and> sb_unexpect (storage_of tT tE) e = storage_unexpect e \<and>
    sb_destructor (storage_of tT tE) (st_of x) =
        Done (if has_destructor tT tE x then (st_of x)\<lparr>slot := No_init\<rparr> else st_of x)"
proof -
  have void: "\<not> is_void tT" using assms(1) by (simp add: describes_def)
  have built: "sb_in_place (storage_of tT tE) v = storage_in_place v" "sb_unexpect (storage_of tT tE) e = storage_unexpect e"
    by (simp_all add: storage_of_builds st_of_def)
  have by_copy: "move_base tT tE = By_copy \<longleftrightarrow> moved_by_copy tT tE"
    "move_assign_base tT tE = By_copy \<longleftrightarrow> move_assigned_by_copy tT tE"
    using assms void
    by (auto simp: move_base_def move_assign_base_def moved_by_copy_def move_assigned_by_copy_def is_void_or_def
        storage_copies_def storage_assigns_def describes_def)
  note enabled = ctors_enabled_def assigns_enabled_def enabled_iff is_void_or_def void is_copy_constructible_or_void_def
    is_move_constructible_or_void_def is_copy_assignable_or_void_def is_move_assignable_or_void_def
  have runs:
    "run_member (unless_deleted b (copy_base tT tE)) (Done (st_of x)) (copy_construct T E (st_of x)) None
      = (if b then Some (copy_construct T E (st_of x)) else None)"
    "run_member (unless_deleted b (move_base tT tE)) (Done (st_of x, st_of x)) (move_construct T E (st_of x)) c
      = (if b then if moved_by_copy tT tE then c else Some (move_construct T E (st_of x)) else None)"
    "run_member (unless_deleted b (copy_assign_base tT tE)) (Done (st_of y)) (assign_copy T E (st_of y) (st_of x)) None
      = (if b then Some (assign_copy T E (st_of y) (st_of x)) else None)"
    "run_member (unless_deleted b (move_assign_base tT tE)) (Done (st_of y, st_of y)) (assign_move T E (st_of x, st_of y)) c'
      = (if b then if move_assigned_by_copy tT tE then c' else Some (assign_move T E (st_of x, st_of y)) else None)" for b c c'
    by (subst run_unless_deleted; simp add: by_copy bitwise_copies [OF assms] bitwise_copy_assigns [OF assms] bitwise_move_assigns [OF assms])+
  show ?thesis
    unfolding class_copy_def class_move_def class_copy_assign_def class_move_assign_def move_by_copy_def
      move_assign_by_copy_def prod.case
    by (simp only: runs st_of_lost st_of_simps enabled built storage_of_destroys) (simp add: void)
qed

text \<open>A number next to a string: \<open>expected<size_t, std::string>\<close> and \<open>expected<size_t, size_t>\<close>.\<close>

definition plain_type :: "'a class_type" where
  "plain_type = \<lparr>copy_new = Some, move_new = (\<lambda>x. (Some x, x)), copy_into = (\<lambda>d x. (x, False)),
     move_into = (\<lambda>d x. ((x, x), False)), exchange = (\<lambda>x y. ((y, x), False)), nothrow_copy = True, nothrow_move = True\<rparr>"

definition plain_traits :: traits where
  "plain_traits = \<lparr>is_void = False, is_default_constructible = True, is_copy_constructible = True,
     is_move_constructible = True, is_copy_assignable = True, is_move_assignable = True, is_trivially_destructible = True,
     is_trivially_copy_constructible = True, is_trivially_move_constructible = True, is_trivially_copy_assignable = True,
     is_trivially_move_assignable = True, is_nothrow_move_constructible = True, is_nothrow_move_assignable = True,
     can_swap = True, uses_std = True, is_adl_swap_noexcept = True\<rparr>"

definition string_traits :: traits where
  "string_traits = plain_traits\<lparr>is_trivially_destructible := False, is_trivially_copy_constructible := False,
     is_trivially_move_constructible := False, is_trivially_copy_assignable := False, is_trivially_move_assignable := False,
     uses_std := False\<rparr>"

definition void_traits :: traits where
  "void_traits = \<lparr>is_void = True, is_default_constructible = False, is_copy_constructible = False,
     is_move_constructible = False, is_copy_assignable = False, is_move_assignable = False, is_trivially_destructible = False,
     is_trivially_copy_constructible = False, is_trivially_move_constructible = False, is_trivially_copy_assignable = False,
     is_trivially_move_assignable = False, is_nothrow_move_constructible = False, is_nothrow_move_assignable = False,
     can_swap = False, uses_std = False, is_adl_swap_noexcept = False\<rparr>"

text \<open>A handle: it moves bytewise and cannot be copied.\<close>

definition handle_traits :: traits where
  "handle_traits = plain_traits\<lparr>is_copy_constructible := False, is_trivially_copy_constructible := False,
     is_copy_assignable := False, is_trivially_copy_assignable := False\<rparr>"

theorem specialisations_agree_witness:
  "class_copy plain_traits plain_traits plain_type plain_type (st_of (Inl (7::nat) :: nat + nat)) = Some (Done (st_of (Inl 7))) \<and>
   sb_destructor (storage_of plain_traits string_traits) (st_of (Inl ''x'' :: string + nat)) = Done ((st_of (Inl ''x''))\<lparr>slot := No_init\<rparr>) \<and>
   sb_destructor (storage_of plain_traits string_traits) (st_of (Inr 5 :: string + nat)) = Done (st_of (Inr 5)) \<and>
   is_move_constructible handle_traits \<and>
   class_move handle_traits plain_traits plain_type plain_type (st_of (Inr 5 :: nat + nat)) = None"
proof -
  have plain: "describes plain_traits (plain_type :: nat class_type)" by (simp add: describes_def plain_traits_def plain_type_def)
  have string: "describes string_traits (container_type (\<lambda>_. True) :: string class_type)"
    by (simp add: describes_def plain_traits_def string_traits_def)
  have handle: "describes handle_traits (plain_type :: nat class_type)"
    by (simp add: describes_def handle_traits_def plain_traits_def plain_type_def)
  have "moved_by_copy handle_traits plain_traits" "\<not> is_copy_constructible handle_traits" "is_move_constructible handle_traits"
    by (simp_all add: moved_by_copy_def handle_traits_def plain_traits_def)
  moreover from this have "class_move handle_traits plain_traits plain_type plain_type (st_of (Inr 5 :: nat + nat)) = None"
    using specialisations_agree [OF handle plain, of "Inr 5" "Inr 0" 0 0, THEN conjunct2, THEN conjunct1] by simp
  moreover have "has_destructor plain_traits string_traits (Inl ''x'' :: string + nat)"
    "\<not> has_destructor plain_traits string_traits (Inr 5 :: string + nat)"
    by (simp_all add: has_destructor_def string_traits_def plain_traits_def)
  moreover have "is_copy_constructible plain_traits" by (simp add: plain_traits_def)
  moreover have "copy_construct plain_type plain_type (st_of (Inl (7::nat) :: nat + nat)) = (Done (st_of (Inl 7)) :: (unit, (nat, nat) expected) outcome)"
    by (simp add: copy_construct_def plain_type_def)
  ultimately show ?thesis
    using specialisations_agree [OF plain plain, of "Inl 7" "Inr 0" 0 0, THEN conjunct1]
      specialisations_agree [OF plain string, of "Inl ''x''" "Inr 0" 0 "[]"]
      specialisations_agree [OF plain string, of "Inr 5" "Inr 0" 0 "[]"]
    by (simp only: simp_thms if_True if_False) blast
qed

text \<open>Two facts about the remaining choices: without exceptions the assignments are those of the
  overloads that roll nothing back, and \<open>swap\<close> is never available for \<open>void\<close>, although the condition
  of the free function admits it.\<close>

lemma no_exceptions_in_place:
  "assign_copy_no_exceptions T E r l = assign_copy_in_place T E r l"
  "assign_move_no_exceptions T E (l, r) = assign_move_in_place T E (l, r)"
  by (simp_all add: assign_copy_no_exceptions_def assign_copy_in_place_def assign_move_no_exceptions_def
      assign_move_in_place_def)

lemma void_cannot_swap: "\<not> member_swap_enabled void_traits tE \<and> \<not> free_swap_enabled void_traits tE"
  by (simp add: member_swap_enabled_def free_swap_enabled_def is_swappable_def void_traits_def)

end
