(* ===== verification/Expected_Dialects.thy ===== *)
theory Expected_Dialects
  imports Expected_Members
begin

text \<open>
  The functional operations of \<^verbatim>\<open>src/include/nyxstone/expected.hpp\<close> as compilers without
  C++14 see them (the \<open>#else\<close> branches). Most bodies are the same up to the declared result type; a
  \<open>map\<close> with a callback without a result differs, it goes through a temporary \<open>unexpected\<close>. As in
  theory \<open>Expected\<close> the object is an lvalue and keeps its content.
\<close>

subsection \<open>The C++11 branches\<close>

definition and_then_impl_11 :: "'e class_type \<Rightarrow> ('t \<Rightarrow> (unit, ('u, 'e) expected) outcome)
    \<Rightarrow> ('t, 'e) expected \<Rightarrow> (unit, ('u, 'e) expected) outcome" where
  "and_then_impl_11 E f s = (if m_has_val s then bind_out (deref s) f else copied_error E s)"

definition and_then_impl_void_11 :: "'e class_type \<Rightarrow> (unit, ('u, 'e) expected) outcome
    \<Rightarrow> (unit, 'e) expected \<Rightarrow> (unit, ('u, 'e) expected) outcome" where
  "and_then_impl_void_11 E f s = (if m_has_val s then f else copied_error E s)"

text \<open>\<open>return unexpected<err_t<Exp>>(exp.error());\<close>: the error is copied into a temporary, which the
  constructor of the result moves from.\<close>

definition through_unexpected :: "'e class_type \<Rightarrow> ('t, 'e) expected \<Rightarrow> (unit, ('u, 'e) expected) outcome" where
  "through_unexpected E s = bind_out (error_of s) (\<lambda>e.
     bind_out (or_raise (copy_new E e) ()) (\<lambda>tmp. construct_unexpected Rvalue E tmp))"

definition expected_map_impl_11 :: "'e class_type \<Rightarrow> ('t \<Rightarrow> (unit, 'u) outcome)
    \<Rightarrow> ('t, 'e) expected \<Rightarrow> (unit, ('u, 'e) expected) outcome" where
  "expected_map_impl_11 E f s =
     (if m_has_val s then bind_out (deref s) (\<lambda>v. bind_out (f v) (\<lambda>u. Done (storage_in_place u)))
      else copied_error E s)"

definition expected_map_impl_to_void_11 :: "'e class_type \<Rightarrow> ('t \<Rightarrow> (unit, unit) outcome)
    \<Rightarrow> ('t, 'e) expected \<Rightarrow> (unit, (unit, 'e) expected) outcome" where
  "expected_map_impl_to_void_11 E f s =
     (if m_has_val s then bind_out (deref s) (\<lambda>v. bind_out (f v) (\<lambda>_. Done storage_default_void))
      else through_unexpected E s)"

definition expected_map_impl_void_11 :: "'e class_type \<Rightarrow> (unit, 'u) outcome
    \<Rightarrow> (unit, 'e) expected \<Rightarrow> (unit, ('u, 'e) expected) outcome" where
  "expected_map_impl_void_11 E f s =
     (if m_has_val s then bind_out f (\<lambda>u. Done (storage_in_place u)) else copied_error E s)"

definition expected_map_impl_void_to_void_11 :: "'e class_type \<Rightarrow> (unit, unit) outcome
    \<Rightarrow> (unit, 'e) expected \<Rightarrow> (unit, (unit, 'e) expected) outcome" where
  "expected_map_impl_void_to_void_11 E f s =
     (if m_has_val s then bind_out f (\<lambda>_. Done storage_default_void) else through_unexpected E s)"

definition map_error_impl_11 :: "'t class_type \<Rightarrow> ('e \<Rightarrow> (unit, 'g) outcome)
    \<Rightarrow> ('t, 'e) expected \<Rightarrow> (unit, ('t, 'g) expected) outcome" where
  "map_error_impl_11 T f s =
     (if m_has_val s then bind_out (deref s) (\<lambda>v.
        bind_out (or_raise (copy_new T v) ()) (\<lambda>v. Done (storage_in_place v)))
      else bind_out (error_of s) (\<lambda>e. bind_out (f e) (\<lambda>g. Done (storage_unexpect g))))"

definition map_error_impl_to_void_11 :: "'t class_type \<Rightarrow> ('e \<Rightarrow> (unit, unit) outcome)
    \<Rightarrow> ('t, 'e) expected \<Rightarrow> (unit, ('t, unit) expected) outcome" where
  "map_error_impl_to_void_11 T f s =
     (if m_has_val s then bind_out (deref s) (\<lambda>v.
        bind_out (or_raise (copy_new T v) ()) (\<lambda>v. Done (storage_in_place v)))
      else bind_out (error_of s) (\<lambda>e. bind_out (f e) (\<lambda>_. Done (storage_unexpect ()))))"

definition map_error_impl_void_11 :: "('e \<Rightarrow> (unit, 'g) outcome)
    \<Rightarrow> (unit, 'e) expected \<Rightarrow> (unit, (unit, 'g) expected) outcome" where
  "map_error_impl_void_11 f s =
     (if m_has_val s then Done storage_default_void
      else bind_out (error_of s) (\<lambda>e. bind_out (f e) (\<lambda>g. Done (storage_unexpect_void g))))"

text \<open>Both branches have a fourth form, for \<open>expected<void, E>\<close> and a callback without a result.\<close>

definition map_error_impl_void_to_void :: "('e \<Rightarrow> (unit, unit) outcome)
    \<Rightarrow> (unit, 'e) expected \<Rightarrow> (unit, (unit, unit) expected) outcome" where
  "map_error_impl_void_to_void f s =
     (if m_has_val s then Done storage_default_void
      else bind_out (error_of s) (\<lambda>e. bind_out (f e) (\<lambda>_. Done (storage_unexpect_void ()))))"

definition or_else_impl_11 :: "'t class_type \<Rightarrow> 'e class_type \<Rightarrow> ('e \<Rightarrow> (unit, ('t, 'e) expected) outcome)
    \<Rightarrow> ('t, 'e) expected \<Rightarrow> (unit, ('t, 'e) expected) outcome" where
  "or_else_impl_11 T E f s =
     (if m_has_val s then copy_construct T E s else bind_out (error_of s) f)"

definition or_else_impl_to_void_11 :: "'t class_type \<Rightarrow> 'e class_type \<Rightarrow> ('e \<Rightarrow> (unit, unit) outcome)
    \<Rightarrow> ('t, 'e) expected \<Rightarrow> (unit, ('t, 'e) expected) outcome" where
  "or_else_impl_to_void_11 T E f s =
     (if m_has_val s then copy_construct T E s
      else bind_out (error_of s) (\<lambda>e. bind_out (f e) (\<lambda>_. copy_construct T E s)))"

subsection \<open>The two branches agree\<close>

text \<open>For the forms that go through a temporary this needs a move that does not throw.\<close>

context value_class
begin

lemma through_unexpected_copies:
  "through_unexpected C s = (copied_error C s :: (unit, ('u, 'c) expected) outcome)"
proof (cases "error_of s :: (unit, 'c) outcome")
  case (Done e)
  then show ?thesis
    using copy_new [of e]
    by (auto simp: through_unexpected_def copied_error_def construct_unexpected_def construct_unexpect_def
        pass_new_def move_new nothrow_move)
qed (simp_all add: through_unexpected_def copied_error_def)

lemma maps_agree:
  "expected_map_impl_to_void_11 C f s = expected_map_impl_to_void C f s"
  "expected_map_impl_void_to_void_11 C g r = expected_map_impl_void_to_void C g r"
  by (simp_all add: expected_map_impl_to_void_11_def expected_map_impl_to_void_def
      expected_map_impl_void_to_void_11_def expected_map_impl_void_to_void_def through_unexpected_copies)

end

lemma dialects_agree:
  "and_then_impl_11 = and_then_impl" "and_then_impl_void_11 = and_then_impl_void"
  "expected_map_impl_11 = expected_map_impl" "expected_map_impl_void_11 = expected_map_impl_void"
  "map_error_impl_11 = map_error_impl" "map_error_impl_to_void_11 = map_error_impl_to_void"
  "map_error_impl_void_11 = map_error_impl_void"
  "or_else_impl_11 = or_else_impl" "or_else_impl_to_void_11 = or_else_impl_to_void"
  by (intro ext; simp add: and_then_impl_11_def and_then_impl_def and_then_impl_void_11_def and_then_impl_void_def
      expected_map_impl_11_def expected_map_impl_def expected_map_impl_void_11_def expected_map_impl_void_def
      map_error_impl_11_def map_error_impl_def map_error_impl_to_void_11_def map_error_impl_to_void_def
      map_error_impl_void_11_def map_error_impl_void_def or_else_impl_11_def or_else_impl_def
      or_else_impl_to_void_11_def or_else_impl_to_void_def)+

end
