(* ===== verification/Spec2Isabelle.thy ===== *)
theory Spec2Isabelle
  imports Sections Fixup_Properties Emit_Bounds Bench Expected_Special Expected_Dialects
begin

text \<open>
  NyxstoneTricoreGCC, an in-process assembler and disassembler for TriCore: a C++ driver
  (\<^verbatim>\<open>src/src/nyxstone.cpp\<close>) on a C glue (\<^verbatim>\<open>src/src/nyxstone_glue.c\<close>) that
  runs gas and libopcodes as libraries, with a C interface (\<^verbatim>\<open>src/src/nyxstone_c.cpp\<close>) on
  top and \<^verbatim>\<open>src/include/nyxstone/expected.hpp\<close> as its result type.

  \<^bold>\<open>How the parts work together.\<close> \<open>assemble\<close> and its three variants call \<open>do_assemble\<close>. It resets
  the glue, redirects gas's \<open>stderr\<close> into a log, removes block comments, splits the source into
  statements and hands each to \<open>process\<close>: labels, then a directive of the driver's own or an
  instruction for gas's \<open>md_assemble\<close>. gas leaves a chain of frags and a list of fixups behind. The
  fixup pass of the glue relaxes the branches, sizes alignments and \<open>.org\<close>, and writes the value of
  every reference to a defined symbol into the image, which goes back into the frags; then the bytes
  and the open references are read out in two calls each. The driver picks the one error to report,
  or returns bytes and relocations. \<open>do_disassemble\<close> decodes one instruction after the other through
  callbacks that print into a growing buffer. The C interface converts results into memory the caller
  frees.

  \<^bold>\<open>Theories.\<close> File names are those of the repository.
  \<^item> \<open>Prelude\<close>: machine types, character classes, \<open>ltrim\<close> and \<open>rtrim\<close>, little-endian bytes, the
    collections of rules. \<open>Glue_Interface\<close>: the glue as a record of operations on a state \<open>'g\<close>, the
    driver's state, the recorded call (\<open>glue_call\<close>) and the locale \<open>glue_simulation\<close>.
  \<^item> \<open>Scanner\<close>, \<open>Literals\<close>, \<open>Directives\<close>, \<open>Parse\<close> (\<^verbatim>\<open>nyxstone.cpp\<close>, lines 95 to 540): comments
    and statements, integer operands, \<open>handle_directive\<close>, the parse phase. String literals survive all
    scanners (locale \<open>quote_scanner\<close>); operands are read and emitted as specified; what the parse
    phase calls is a function of the text; its error flags are sticky.
  \<^item> \<open>Reloc_Fields\<close>, \<open>Reloc_Values\<close>, \<open>Images\<close> (\<open>encode_pcrel_field\<close> of \<^verbatim>\<open>nyxstone_glue.c\<close>): every
    instruction form, its exact range, the inverse reading, and what many fixups do to one image.
  \<^item> \<open>Frags\<close>, \<open>Layout\<close>, \<open>Extract\<close>, \<open>Fixups\<close>, \<open>Write_Back\<close>, \<open>Fixup_Properties\<close>: the section as a list of
    frags in chain order with gas as a record of operations, its layout, the two-pass readout (locale
    \<open>two_pass\<close>), relaxation and the fixup pass; the image encodes every resolved reference; it does not
    depend on the base address when references are relative to symbols of the section or absolute to absolute
    symbols; and open references are counted, also when a forward \<open>.equ\<close> becomes defined during the pass.
  \<^item> \<open>Buffers\<close>, \<open>Capture\<close>: the two growable buffers with \<open>realloc\<close> as a parameter (locale
    \<open>text_buffer\<close>), and the redirection of \<open>stderr\<close>.
  \<^item> \<open>Api_Types\<close>, \<open>Assemble\<close>, \<open>Gas_Glue\<close>, \<open>Assemble_Gas\<close>: the public structures, \<open>do_assemble\<close> over any
    glue (locale \<open>assembling_glue\<close>), the rest of the glue and its record \<open>gas_glue\<close> (interpretation
    \<open>gas\<close>), and what a successful call guarantees down to the single instruction field.
  \<^item> \<open>Gas_Steps\<close>, \<open>Silent\<close>, \<open>Unwind\<close>, \<open>Emit_Bounds\<close>: a call changes gas by calls into gas and by nothing
    else (the step relation \<open>gas_step\<close>), so what each step keeps every call keeps; with it, that over
    any sequence of calls, some of them ended by an exception, the host gets its \<open>stderr\<close> back
    unwritten, what an exception leaves behind until then, and how large a \<open>.skip\<close> may be.
  \<^item> \<open>Sections\<close>: statements by their parts, printed and followed through the scanners, the labels and
    \<open>handle_directive\<close>: the section flag says exactly which programs leave \<open>.text\<close>.
  \<^item> \<open>Data_Sources\<close>, \<open>Data_Text\<close>: sources of data directives, from their text to the bytes: with any gas
    that keeps its frag discipline (laws of \<open>frag_more\<close>, of the reset and of \<open>relax_segment\<close>, together
    \<open>data_gas\<close>) a printed program assembles to exactly its bytes, however gas cuts them into frags.
  \<^item> \<open>Disasm\<close>, \<open>Disasm_Properties\<close>: the decoder callbacks, the annotation filter and the loop (locales
    \<open>decoder\<close>, \<open>total_decoder\<close>): the instructions tile the input and the loop ends on every input.
  \<^item> \<open>Api\<close>: the entry points that assemble and disassemble, the one-time initialisation and \<open>create\<close>.
  \<^item> \<open>C_Heap\<close>, \<open>C_Api\<close>: a heap whose allocations may fail, the conversions (locale \<open>owning_array\<close>) and
    every function of the C interface (locale \<open>output_builder\<close>): all or nothing, and nothing leaks.
    \<open>C_Stack\<close> puts the assembling functions on the driver, the glue and gas: what a C caller gets for a
    source text, as bytes, relocations or the text of the error.
  \<^item> \<open>C_Ownership\<close>, \<open>C_Sessions\<close>: which objects a result owns (locale \<open>owned_output\<close>, a \<open>sublocale\<close> of
    \<open>output_builder\<close>, interpreted for the five kinds of outputs), and clients that call and release in any
    order: what they hold stays as it was, and the heap balances.
  \<^item> \<open>C_Library\<close>: the seven functions of the C++ class over one state (\<open>library_api\<close>), and under the C
    interface: instructions with relocations, and disassembly that always delivers. \<open>Smoke\<close> and \<open>Bench\<close>
    are the two programs of \<^verbatim>\<open>src/examples\<close> on it, as output and exit status; the packages
    \<open>Bench\<close> measures with reach gas as exactly their instructions.
  \<^item> \<open>Expected\<close>, \<open>Expected_Properties\<close>, \<open>Expected_Members\<close>, \<open>Expected_Special\<close>, \<open>Expected_Dialects\<close>: the result type with the lifetimes of
    the objects in it. The other theories return \<open>error + value\<close>; \<open>expected_refines_sum\<close> is why
    they may: for strings and vectors (interpretations \<open>container\<close>, \<open>results\<close>) the class behaves as
    the sum, and its members agree on all four kinds of object (\<open>members_agree\<close>). It does not behave so
    when a constructor of \<open>T\<close> throws (\<open>failed_construction_undefined\<close>; without that, and when moves do not throw, no
    member uses a dead object, \<open>expected_type_sound\<close>), or when \<open>or_else\<close> on an
    rvalue gets a callback that consumes the error. \<open>Expected_Special\<close> has the type traits, the six
    specialisations of the storage and the base classes that copy, delete or leave a member to the
    compiler: which of them \<open>T\<close> and \<open>E\<close> select shows only in moves of types that do not copy bytewise
    (\<open>specialisations_agree\<close>). \<open>Expected_Dialects\<close>
    has the functional operations for compilers without C++14, which agree with the others.

  \<^bold>\<open>Conventions.\<close> A \<open>std::string\<close> is a list of bytes, a fixed-width integer is a word of its width, an
  error is \<open>Inl\<close> or \<open>None\<close>, a write outside a buffer is \<open>None\<close>, a frag pointer is a position. Strings
  and lists are finite but not bounded, so \<open>size_t\<close> positions in them are natural numbers.

  \<^bold>\<open>Bounds.\<close> The walks over gas's relax table take at most \<open>MD_RELAX_TABLE_N\<close> = 37 steps, the bound in
  the code and the size of the table; \<open>relax_chain_ends\<close> shows where they end in a table whose chains grow
  strictly: at the longest encoding, and at the shortest that is found without entry 0, which the table
  of gas uses. The relaxation loop makes at most 33 calls, the code's own limit. All
  other loops end by their structure or by a measure; no fuel is added to any definition.

  \<^bold>\<open>Parameters.\<close> gas, bfd and libopcodes come as prebuilt libraries: \<open>gas_ops\<close>, \<open>gas_api\<close>, \<open>dis_ops\<close>
  and \<open>init_ops\<close> are their functions the code calls, over a state of their own. What the theorems
  need of them is in the predicates \<open>sound_gas\<close> (a diagnostic leaves the symbols alone, the capture of
  \<open>stderr\<close> is apart from the rest of gas's state) and \<open>source_settles\<close> (in the fixup pass of this source,
  applying a fixup changes only that fixup, and resolving a symbol, which may define it, decides whether it
  is defined for the rest of the pass) and in the hypotheses of the single theorems; each theorem has a witness
  with concrete functions for them.

  \<^bold>\<open>Exceptions.\<close> Two vectors of \<open>do_assemble\<close> are as large as the source demands: the fill of \<open>.skip\<close> and
  the returned bytes. Theory \<open>Unwind\<close> models a call in which they cannot be had (parameter \<open>room\<close>). The
  other containers hold pieces of the input; their allocations are taken to succeed, except at the
  C interface, where every C++ call may throw.

  \<^bold>\<open>Not modelled.\<close> The contents of gas's data and bss sections, which the glue empties before each
  call and never reads. The size that \<open>emit_bytes\<close> asks for is modelled at its widths (\<open>frag_request\<close>), its
  copy where it stays inside the frag; \<open>skip_in_bounds\<close> says when it does. Of \<^verbatim>\<open>expected.hpp\<close> the substitutes for \<open>std::invoke\<close>
  and \<open>std::invoke_result\<close> and the conditions that enable a converting constructor, which are computed
  on types alone. In \<open>Bench\<close> the text of a rate, which comes out of floating-point arithmetic, and the
  clock are parameters. The program \<^verbatim>\<open>tests/\<close>, and the Python and Rust bindings, which
  are other languages around these interfaces.
\<close>

end
